(* ===== verification/Hermes_Prelude.thy ===== *)
theory Hermes_Prelude
  imports Main "HOL-Library.Sublist"
begin

text \<open>
  Shared vocabulary of the development: the byte-string functions of Go's \<open>strings\<close>
  package that the services call, the state-and-error computations in which every
  service operation is written, and the collections of facts the proofs rest on.

  A Go string is a sequence of bytes, modelled as the HOL type of character lists.
  Case folding and white space are the ones of ASCII; a byte above 127 is left
  unchanged by \<open>ToLower\<close>, \<open>ToUpper\<close> and is never white space.

  The collection \<open>op_simps\<close> holds the equations that invert a successful run
  of a computation, \<open>op_defs\<close> the definitions that are always unfolded.
\<close>

named_theorems op_simps
named_theorems op_defs

section \<open>Strings\<close>

definition is_space :: "char \<Rightarrow> bool" where
  "is_space c \<longleftrightarrow> (of_char c :: nat) \<in> {9, 10, 11, 12, 13, 32}"

definition lower_char :: "char \<Rightarrow> char" where
  "lower_char c = (let n = (of_char c :: nat) in if 65 \<le> n \<and> n \<le> 90 then char_of (n + 32) else c)"

definition upper_char :: "char \<Rightarrow> char" where
  "upper_char c = (let n = (of_char c :: nat) in if 97 \<le> n \<and> n \<le> 122 then char_of (n - 32) else c)"

definition ToLower :: "string \<Rightarrow> string" where
  "ToLower s = map lower_char s"

definition ToUpper :: "string \<Rightarrow> string" where
  "ToUpper s = map upper_char s"

definition TrimLeftSpace :: "string \<Rightarrow> string" where
  "TrimLeftSpace s = dropWhile is_space s"

definition TrimSpace :: "string \<Rightarrow> string" where
  "TrimSpace s = rev (TrimLeftSpace (rev (TrimLeftSpace s)))"

definition HasPrefix :: "string \<Rightarrow> string \<Rightarrow> bool" where
  "HasPrefix s p \<longleftrightarrow> take (length p) s = p"

definition TrimPrefix :: "string \<Rightarrow> string \<Rightarrow> string" where
  "TrimPrefix s p = (if HasPrefix s p then drop (length p) s else s)"

definition HasSuffix :: "string \<Rightarrow> string \<Rightarrow> bool" where
  "HasSuffix s p \<longleftrightarrow> HasPrefix (rev s) (rev p)"

definition TrimSuffix :: "string \<Rightarrow> string \<Rightarrow> string" where
  "TrimSuffix s p = (if HasSuffix s p then take (length s - length p) s else s)"

text \<open>\<open>strings.Split(s, sep)\<close> for a one-byte separator: always at least one part.\<close>

fun Split :: "char \<Rightarrow> string \<Rightarrow> string list" where
  "Split sep [] = [[]]"
| "Split sep (c # cs) =
     (if c = sep then [] # Split sep cs
      else (case Split sep cs of [] \<Rightarrow> [[c]] | p # ps \<Rightarrow> (c # p) # ps))"

text \<open>\<open>strings.SplitN(s, sep, 2)\<close>: one part, or what is before and after the first separator.\<close>

fun SplitN2 :: "char \<Rightarrow> string \<Rightarrow> string list" where
  "SplitN2 sep [] = [[]]"
| "SplitN2 sep (c # cs) =
     (if c = sep then [[], cs]
      else (case SplitN2 sep cs of [] \<Rightarrow> [[c]] | p # ps \<Rightarrow> (c # p) # ps))"

text \<open>\<open>strings.Fields(s)\<close>: the maximal runs of non-space bytes.\<close>

fun fields_acc :: "string \<Rightarrow> string \<Rightarrow> string list" where
  "fields_acc cur [] = (if cur = [] then [] else [rev cur])"
| "fields_acc cur (c # cs) =
     (if is_space c then (if cur = [] then fields_acc [] cs else rev cur # fields_acc [] cs)
      else fields_acc (c # cur) cs)"

definition Fields :: "string \<Rightarrow> string list" where
  "Fields s = fields_acc [] s"

text \<open>Decimal rendering of a natural number, as \<open>%d\<close> prints it.\<close>

definition digit_char :: "nat \<Rightarrow> char" where
  "digit_char d = char_of (48 + d)"

fun dec_string :: "nat \<Rightarrow> string" where
  "dec_string n = (if n < 10 then [digit_char n] else dec_string (n div 10) @ [digit_char (n mod 10)])"

declare dec_string.simps [simp del]

definition int_string :: "int \<Rightarrow> string" where
  "int_string i = (if i < 0 then ''-'' @ dec_string (nat (- i)) else dec_string (nat i))"

subsection \<open>Facts on strings\<close>

lemma HasPrefix_iff: "HasPrefix s p \<longleftrightarrow> (\<exists>t. s = p @ t)"
  unfolding HasPrefix_def by (metis append_eq_conv_conj append_take_drop_id)

lemma HasPrefix_append [simp]: "HasPrefix (p @ t) p"
  by (simp add: HasPrefix_def)

lemma TrimPrefix_append [simp]: "TrimPrefix (p @ t) p = t"
  by (simp add: TrimPrefix_def)

lemma HasSuffix_iff: "HasSuffix s p \<longleftrightarrow> (\<exists>t. s = t @ p)"
proof -
  have "HasSuffix s p \<longleftrightarrow> (\<exists>t. rev s = rev p @ t)"
    by (simp add: HasSuffix_def HasPrefix_iff)
  also have "\<dots> \<longleftrightarrow> (\<exists>t. s = t @ p)"
    by (metis rev_append rev_rev_ident)
  finally show ?thesis .
qed

lemma TrimSuffix_append [simp]: "TrimSuffix (t @ p) p = t"
  by (simp add: TrimSuffix_def HasSuffix_iff)

lemma lower_char_idem [simp]: "lower_char (lower_char c) = lower_char c"
proof (cases "65 \<le> (of_char c :: nat) \<and> (of_char c :: nat) \<le> 90")
  case True
  then have "(of_char (char_of ((of_char c :: nat) + 32) :: char) :: nat) = of_char c + 32"
    by (simp add: of_char_of)
  then show ?thesis using True by (simp add: lower_char_def Let_def)
next
  case False
  then show ?thesis by (auto simp: lower_char_def Let_def)
qed

lemma ToLower_idem [simp]: "ToLower (ToLower s) = ToLower s"
  by (simp add: ToLower_def)

lemma length_ToLower [simp]: "length (ToLower s) = length s"
  by (simp add: ToLower_def)

lemma SplitN2_no_sep: "sep \<notin> set s \<Longrightarrow> SplitN2 sep s = [s]"
  by (induction s) auto

lemma SplitN2_sep: "sep \<notin> set s \<Longrightarrow> SplitN2 sep (s @ sep # t) = [s, t]"
  by (induction s) auto

lemma Split_no_sep: "sep \<notin> set s \<Longrightarrow> Split sep s = [s]"
  by (induction s) auto

lemma Split_sep: "sep \<notin> set s \<Longrightarrow> Split sep (s @ sep # t) = s # Split sep t"
  by (induction s) auto

lemma TrimLeftSpace_id: "s = [] \<or> \<not> is_space (hd s) \<Longrightarrow> TrimLeftSpace s = s"
  by (cases s) (auto simp: TrimLeftSpace_def)

lemma TrimSpace_Nil [simp]: "TrimSpace [] = []"
  by (simp add: TrimSpace_def TrimLeftSpace_def)

lemma TrimSpace_no_space: "\<forall>c \<in> set s. \<not> is_space c \<Longrightarrow> TrimSpace s = s"
  by (metis TrimLeftSpace_id TrimSpace_def hd_in_set rev_rev_ident set_rev)

lemma TrimLeftSpace_idem: "TrimLeftSpace (TrimLeftSpace s) = TrimLeftSpace s"
  by (simp add: TrimLeftSpace_def)

lemma hd_rev_TrimLeft:
  assumes "TrimLeftSpace s \<noteq> []" "TrimLeftSpace (rev (TrimLeftSpace s)) \<noteq> []"
  shows "hd (rev (TrimLeftSpace (rev (TrimLeftSpace s)))) = hd (TrimLeftSpace s)"
proof -
  let ?t = "TrimLeftSpace s"
  have "rev ?t = takeWhile is_space (rev ?t) @ TrimLeftSpace (rev ?t)"
    by (simp add: TrimLeftSpace_def)
  then have "?t = rev (TrimLeftSpace (rev ?t)) @ rev (takeWhile is_space (rev ?t))"
    by (metis rev_append rev_rev_ident)
  with assms(2) show ?thesis
    by (metis hd_append2 rev_is_Nil_conv)
qed

lemma TrimSpace_idem [simp]: "TrimSpace (TrimSpace s) = TrimSpace s"
proof (cases "TrimSpace s = []")
  case True
  then show ?thesis by simp
next
  case False
  let ?t = "TrimLeftSpace s"
  have ne: "?t \<noteq> []" "TrimLeftSpace (rev ?t) \<noteq> []"
    using False unfolding TrimSpace_def by (metis TrimLeftSpace_def dropWhile.simps(1) rev.simps(1))+
  have "\<not> is_space (hd ?t)"
    using ne(1) unfolding TrimLeftSpace_def by (rule hd_dropWhile)
  then have "TrimLeftSpace (TrimSpace s) = TrimSpace s"
    using hd_rev_TrimLeft [OF ne] by (simp add: TrimSpace_def TrimLeftSpace_id)
  then show ?thesis
    by (simp add: TrimSpace_def TrimLeftSpace_idem)
qed

section \<open>Computations with state and errors\<close>

text \<open>
  An operation of a service takes the world and returns either an error or a value,
  with the world after it. \<open>ret\<close>, \<open>raise\<close> and \<open>bindE\<close> are the sequencing of Go
  statements with \<open>if err != nil { return err }\<close> after each; \<open>failIf\<close> is an early
  error return.
\<close>

type_synonym ('w, 'e, 'a) op = "'w \<Rightarrow> ('e + 'a) \<times> 'w"

definition ret :: "'a \<Rightarrow> ('w, 'e, 'a) op" where
  "ret x = (\<lambda>w. (Inr x, w))"

definition raise :: "'e \<Rightarrow> ('w, 'e, 'a) op" where
  "raise e = (\<lambda>w. (Inl e, w))"

definition bindE :: "('w, 'e, 'a) op \<Rightarrow> ('a \<Rightarrow> ('w, 'e, 'b) op) \<Rightarrow> ('w, 'e, 'b) op" where
  "bindE m f = (\<lambda>w. case m w of (Inl e, w') \<Rightarrow> (Inl e, w') | (Inr x, w') \<Rightarrow> f x w')"

definition failIf :: "bool \<Rightarrow> 'e \<Rightarrow> ('w, 'e, 'a) op \<Rightarrow> ('w, 'e, 'a) op" where
  "failIf b e m = (if b then raise e else m)"

text \<open>\<open>orFail\<close> turns \<open>gorm.ErrRecordNotFound\<close> (an absent row) into the given error.\<close>

definition orFail :: "'e \<Rightarrow> 'a option \<Rightarrow> ('w, 'e, 'a) op" where
  "orFail e x = (case x of None \<Rightarrow> raise e | Some y \<Rightarrow> ret y)"

text \<open>\<open>errTo e m\<close> replaces every error of \<open>m\<close> by \<open>e\<close>, as in \<open>if err != nil { return e }\<close>.\<close>

definition errTo :: "'e \<Rightarrow> ('w, 'e, 'a) op \<Rightarrow> ('w, 'e, 'a) op" where
  "errTo e m = (\<lambda>w. case m w of (Inl _, w') \<Rightarrow> (Inl e, w') | (Inr x, w') \<Rightarrow> (Inr x, w'))"

text \<open>\<open>catchE m h\<close> continues with \<open>h\<close> after an error of \<open>m\<close>.\<close>

definition catchE :: "('w, 'e, 'a) op \<Rightarrow> ('e \<Rightarrow> ('w, 'e, 'a) op) \<Rightarrow> ('w, 'e, 'a) op" where
  "catchE m h = (\<lambda>w. case m w of (Inl e, w') \<Rightarrow> h e w' | (Inr x, w') \<Rightarrow> (Inr x, w'))"

lemma ret_apply [simp]: "ret x w = (Inr x, w)"
  by (simp add: ret_def)

lemma raise_apply [simp]: "raise e w = (Inl e, w)"
  by (simp add: raise_def)

lemma failIf_apply: "failIf b e m w = (if b then (Inl e, w) else m w)"
  by (simp add: failIf_def)

lemma orFail_apply:
  "orFail e x w = (case x of None \<Rightarrow> (Inl e, w) | Some y \<Rightarrow> (Inr y, w))"
  by (simp add: orFail_def split: option.splits)

lemma failIf_simps [simp]: "failIf True e m = raise e" "failIf False e m = m"
  by (simp_all add: failIf_def)

lemma orFail_simps [simp]: "orFail e None = raise e" "orFail e (Some y) = ret y"
  by (simp_all add: orFail_def)

lemma bindE_ret [simp]: "bindE (ret x) f = f x"
  by (simp add: bindE_def fun_eq_iff)

lemma bindE_raise [simp]: "bindE (raise e) f = raise e"
  by (simp add: bindE_def fun_eq_iff)

lemma bindE_assoc: "bindE (bindE m f) g = bindE m (\<lambda>x. bindE (f x) g)"
  by (auto simp: bindE_def fun_eq_iff split: prod.splits sum.splits)

lemma bindE_Inr [op_simps]:
  "bindE m f w = (Inr y, w'') \<longleftrightarrow> (\<exists>x w'. m w = (Inr x, w') \<and> f x w' = (Inr y, w''))"
  by (auto simp: bindE_def split: prod.splits sum.splits)

lemma failIf_Inr [op_simps]: "failIf b e m w = (Inr y, w') \<longleftrightarrow> \<not> b \<and> m w = (Inr y, w')"
  by (simp add: failIf_def)

lemma orFail_Inr [op_simps]: "orFail e x w = (Inr y, w') \<longleftrightarrow> x = Some y \<and> w' = w"
  by (auto simp: orFail_def split: option.splits)

lemma errTo_Inr [op_simps]: "errTo e m w = (Inr x, w') \<longleftrightarrow> m w = (Inr x, w')"
  by (auto simp: errTo_def split: prod.splits sum.splits)

lemma catchE_Inr [op_simps]:
  "catchE m h w = (Inr x, w'') \<longleftrightarrow>
     m w = (Inr x, w'') \<or> (\<exists>e w'. m w = (Inl e, w') \<and> h e w' = (Inr x, w''))"
  by (auto simp: catchE_def split: prod.splits sum.splits)

lemma bindE_step: "m w = (Inr x, w') \<Longrightarrow> bindE m f w = f x w'"
  by (simp add: bindE_def)

lemma bindE_err: "m w = (Inl e, w') \<Longrightarrow> bindE m f w = (Inl e, w')"
  by (simp add: bindE_def)

section \<open>Lists\<close>

lemma find_SomeD:
  "find P xs = Some x \<Longrightarrow> x \<in> set xs \<and> P x"
  by (auto simp: find_Some_iff in_set_conv_nth)

lemma option_eqI: "(\<And>x. a = Some x \<longleftrightarrow> b = Some x) \<Longrightarrow> a = b"
  by (cases a; cases b) auto

lemma find_cong_set: "(\<And>x. x \<in> set xs \<Longrightarrow> P x = Q x) \<Longrightarrow> find P xs = find Q xs"
  by (induction xs) auto

lemma filter_singleton_mem: "filter P xs = [x] \<Longrightarrow> x \<in> set xs \<and> P x"
  by (metis filter_eq_ConsD in_set_conv_decomp)

lemma length_filter_0: "length (filter P xs) = 0 \<longleftrightarrow> (\<forall>x \<in> set xs. \<not> P x)"
  by (simp add: filter_empty_conv)

lemma map_of_id_key:
  "distinct (map k xs) \<Longrightarrow> find (\<lambda>x. k x = i) xs = Some x \<longleftrightarrow> x \<in> set xs \<and> k x = i"
  by (induction xs) (auto simp: image_iff)

end
