(* ===== verification/Hermes_Netip.thy ===== *)
theory Hermes_Netip
  imports Hermes_Prelude "HOL-Library.Word"
begin

text \<open>
  The part of Go's \<open>net/netip\<close> and \<open>net\<close> that the program uses: parsing and printing
  of addresses, prefixes, and the IPv4 address classes. An IPv4 address is a 32-bit word,
  an IPv6 address the list of its eight 16-bit groups with a zone.
\<close>

unbundle bit_operations_syntax

section \<open>Numbers and addresses\<close>

definition is_digit :: "char \<Rightarrow> bool" where
  "is_digit c \<longleftrightarrow> 48 \<le> (of_char c :: nat) \<and> (of_char c :: nat) \<le> 57"

definition digit_value :: "char \<Rightarrow> nat" where
  "digit_value c = of_char c - 48"

definition dec_value :: "string \<Rightarrow> nat" where
  "dec_value s = foldl (\<lambda>n c. n * 10 + digit_value c) 0 s"

text \<open>A decimal number without sign or leading zeros, at most \<open>bound\<close>.\<close>

definition parse_dec :: "nat \<Rightarrow> string \<Rightarrow> nat option" where
  "parse_dec bound s =
     (if s = [] \<or> \<not> list_all is_digit s \<or> (length s > 1 \<and> hd s = CHR ''0'') then None
      else if dec_value s > bound then None else Some (dec_value s))"

datatype ip_addr = V4 "32 word" | V6 "16 word list" string

definition v4_of :: "nat \<Rightarrow> nat \<Rightarrow> nat \<Rightarrow> nat \<Rightarrow> 32 word" where
  "v4_of a b c d = word_of_nat (((a * 256 + b) * 256 + c) * 256 + d)"

definition parse_v4 :: "string \<Rightarrow> 32 word option" where
  "parse_v4 s =
     (case map (parse_dec 255) (Split CHR ''.'' s) of
        [Some a, Some b, Some c, Some d] \<Rightarrow> Some (v4_of a b c d)
      | _ \<Rightarrow> None)"

definition octet :: "nat \<Rightarrow> 32 word \<Rightarrow> nat" where
  "octet i a = unat a div 256 ^ (3 - i) mod 256"

definition v4_string :: "32 word \<Rightarrow> string" where
  "v4_string a = dec_string (octet 0 a) @ ''.'' @ dec_string (octet 1 a) @ ''.'' @
     dec_string (octet 2 a) @ ''.'' @ dec_string (octet 3 a)"

section \<open>IPv6 text\<close>

definition hex_value :: "char \<Rightarrow> nat option" where
  "hex_value c = (let n = (of_char c :: nat) in
     if 48 \<le> n \<and> n \<le> 57 then Some (n - 48)
     else if 97 \<le> n \<and> n \<le> 102 then Some (n - 87)
     else if 65 \<le> n \<and> n \<le> 70 then Some (n - 55)
     else None)"

text \<open>The longest run of hexadecimal digits with its value; at most four digits are allowed.\<close>

fun hex_run :: "nat \<Rightarrow> nat \<Rightarrow> string \<Rightarrow> (nat \<times> nat \<times> string) option" where
  "hex_run len acc [] = Some (len, acc, [])"
| "hex_run len acc (c # cs) =
     (case hex_value c of None \<Rightarrow> Some (len, acc, c # cs)
      | Some d \<Rightarrow> if len > 3 then None else hex_run (Suc len) (acc * 16 + d) cs)"

text \<open>
  The loop of \<open>parseIPv6\<close>: \<open>groups\<close> are the 16-bit groups read so far, \<open>ellipsis\<close> the number
  of groups before \<open>::\<close>. The fuel is the number of groups still to be read.
\<close>

fun v6_loop :: "nat \<Rightarrow> nat list \<Rightarrow> nat option \<Rightarrow> string \<Rightarrow> (nat list \<times> nat option \<times> string) option" where
  "v6_loop 0 groups ellipsis s = Some (groups, ellipsis, s)"
| "v6_loop (Suc n) groups ellipsis s =
     (case hex_run 0 0 s of None \<Rightarrow> None
      | Some (off, acc, rest) \<Rightarrow>
          if off = 0 then None
          else if rest \<noteq> [] \<and> hd rest = CHR ''.'' then
            (if ellipsis = None \<and> length groups \<noteq> 6 then None
             else if length groups + 2 > 8 then None
             else (case parse_v4 s of None \<Rightarrow> None
                   | Some a \<Rightarrow> Some (groups @ [unat a div 65536, unat a mod 65536], ellipsis, [])))
          else
            (let groups = groups @ [acc] in
             (case rest of
                [] \<Rightarrow> Some (groups, ellipsis, [])
              | c # s1 \<Rightarrow>
                  if c \<noteq> CHR '':'' \<or> s1 = [] then None
                  else if hd s1 = CHR '':'' then
                    (if ellipsis \<noteq> None then None
                     else if tl s1 = [] then Some (groups, Some (length groups), [])
                     else v6_loop n groups (Some (length groups)) (tl s1))
                  else v6_loop n groups ellipsis s1)))"

definition expand_v6 :: "nat list \<times> nat option \<times> string \<Rightarrow> 16 word list option" where
  "expand_v6 r = (case r of (groups, ellipsis, s) \<Rightarrow>
     if s \<noteq> [] then None
     else if length groups < 8 then
       (case ellipsis of None \<Rightarrow> None
        | Some e \<Rightarrow> Some (map word_of_nat (take e groups @ replicate (8 - length groups) 0 @ drop e groups)))
     else if ellipsis \<noteq> None then None
     else Some (map word_of_nat groups))"

definition parse_v6 :: "string \<Rightarrow> ip_addr option" where
  "parse_v6 inp =
     (let s = takeWhile (\<lambda>c. c \<noteq> CHR ''%'') inp; z = drop (length s) inp; zone = tl z in
      if z \<noteq> [] \<and> zone = [] then None
      else if take 2 s = ''::'' then
        (if length s = 2 then Some (V6 (replicate 8 0) zone)
         else map_option (\<lambda>g. V6 g zone) (Option.bind (v6_loop 8 [] (Some 0) (drop 2 s)) expand_v6))
      else map_option (\<lambda>g. V6 g zone) (Option.bind (v6_loop 8 [] None s) expand_v6))"

text \<open>\<open>netip.ParseAddr\<close>: the first of the bytes \<open>.\<close>, \<open>:\<close>, \<open>%\<close> decides.\<close>

definition ParseAddr :: "string \<Rightarrow> ip_addr option" where
  "ParseAddr s =
     (case find (\<lambda>c. c \<in> set ''.:%'') s of
        None \<Rightarrow> None
      | Some c \<Rightarrow> if c = CHR ''.'' then map_option V4 (parse_v4 s)
                  else if c = CHR '':'' then parse_v6 s
                  else None)"

fun Is4 :: "ip_addr \<Rightarrow> bool" where
  "Is4 (V4 _) = True" | "Is4 (V6 _ _) = False"

fun Is6 :: "ip_addr \<Rightarrow> bool" where
  "Is6 (V4 _) = False" | "Is6 (V6 _ _) = True"

text \<open>
  \<open>net.ParseIP\<close>: no zone, and an IPv4 address inside IPv6 is the IPv4 address (\<open>To4\<close>).
\<close>

definition ParseIP :: "string \<Rightarrow> ip_addr option" where
  "ParseIP s =
     (case ParseAddr s of
        Some (V6 g zone) \<Rightarrow>
          if zone \<noteq> [] then None
          else if take 6 g = [0, 0, 0, 0, 0, 0xFFFF] then Some (V4 (word_of_nat (unat (g ! 6) * 65536 + unat (g ! 7))))
          else Some (V6 g [])
      | r \<Rightarrow> r)"

definition nibble_char :: "nat \<Rightarrow> char" where
  "nibble_char n = char_of (if n < 10 then 48 + n else 87 + n)"

fun hex_string :: "nat \<Rightarrow> string" where
  "hex_string n = (if n < 16 then [nibble_char n] else hex_string (n div 16) @ [nibble_char (n mod 16)])"

declare hex_string.simps [simp del]

definition zero_run :: "16 word list \<Rightarrow> nat \<Rightarrow> nat" where
  "zero_run g i = length (takeWhile (\<lambda>x. x = 0) (drop i g))"

text \<open>The first longest run of at least two zero groups, as its start and end.\<close>

definition best_run :: "16 word list \<Rightarrow> (nat \<times> nat) option" where
  "best_run g = foldl (\<lambda>best i. let l = zero_run g i in
      if l \<ge> 2 \<and> (case best of None \<Rightarrow> True | Some (s, e) \<Rightarrow> l > e - s) then Some (i, i + l) else best) None [0..<8]"

fun join :: "string \<Rightarrow> string list \<Rightarrow> string" where
  "join sep [] = []"
| "join sep [s] = s"
| "join sep (s # ss) = s @ sep @ join sep ss"

definition v6_string :: "16 word list \<Rightarrow> string" where
  "v6_string g = (let hex = (\<lambda>gs. join '':'' (map (\<lambda>x. hex_string (unat x)) gs)) in
     (case best_run g of
        None \<Rightarrow> hex g
      | Some (s, e) \<Rightarrow> hex (take s g) @ ''::'' @ hex (drop e g)))"

definition ip_string :: "ip_addr \<Rightarrow> string" where
  "ip_string a = (case a of V4 x \<Rightarrow> v4_string x | V6 g zone \<Rightarrow> v6_string g @ (if zone = [] then [] else ''%'' @ zone))"

section \<open>Prefixes and address classes\<close>

record prefix =
  pfx_addr :: ip_addr
  pfx_bits :: nat

definition ParsePrefix :: "string \<Rightarrow> prefix option" where
  "ParsePrefix s =
     (let after = takeWhile (\<lambda>c. c \<noteq> CHR ''/'') (rev s) in
      if length after = length s then None
      else
        (case ParseAddr (take (length s - length after - 1) s) of
           None \<Rightarrow> None
         | Some a \<Rightarrow>
             if (case a of V6 g zone \<Rightarrow> zone \<noteq> [] | V4 _ \<Rightarrow> False) then None
             else map_option (\<lambda>n. \<lparr>pfx_addr = a, pfx_bits = n\<rparr>)
                    (parse_dec (if Is4 a then 32 else 128) (rev after))))"

text \<open>\<open>Prefix.Masked\<close> and \<open>Prefix.Contains\<close> for IPv4, on the address and the length of the prefix.\<close>

definition Masked :: "32 word \<Rightarrow> nat \<Rightarrow> 32 word" where
  "Masked p bits = p AND NOT (mask (32 - bits))"

definition Contains :: "32 word \<Rightarrow> nat \<Rightarrow> 32 word \<Rightarrow> bool" where
  "Contains p bits a \<longleftrightarrow> drop_bit (32 - bits) (a XOR p) = 0"

definition IsPrivate :: "32 word \<Rightarrow> bool" where
  "IsPrivate a \<longleftrightarrow> octet 0 a = 10 \<or> octet 0 a = 172 \<and> octet 1 a div 16 = 1 \<or> octet 0 a = 192 \<and> octet 1 a = 168"

definition IsLoopback :: "32 word \<Rightarrow> bool" where
  "IsLoopback a \<longleftrightarrow> octet 0 a = 127"

definition IsLinkLocalUnicast :: "32 word \<Rightarrow> bool" where
  "IsLinkLocalUnicast a \<longleftrightarrow> octet 0 a = 169 \<and> octet 1 a = 254"

definition IsMulticast :: "32 word \<Rightarrow> bool" where
  "IsMulticast a \<longleftrightarrow> octet 0 a div 16 = 14"

definition IsUnspecified :: "32 word \<Rightarrow> bool" where
  "IsUnspecified a \<longleftrightarrow> a = 0"

section \<open>Facts\<close>

lemma Contains_iff: "Contains p bits a \<longleftrightarrow> unat a div 2 ^ (32 - bits) = unat p div 2 ^ (32 - bits)"
proof -
  have "drop_bit n (a XOR p) = 0 \<longleftrightarrow> drop_bit n a = drop_bit n p" for n
    by (auto simp: bit_eq_iff [where ?'a = "32 word"] bit_simps)
  also have "drop_bit n a = drop_bit n p \<longleftrightarrow> unat a div 2 ^ n = unat p div 2 ^ n" for n
    by (simp only: word_unat_eq_iff unat_drop_bit_eq) (simp add: drop_bit_eq_div)
  finally show ?thesis by (simp add: Contains_def)
qed

lemma Contains_Masked: "Contains (Masked p bits) bits a = Contains p bits a"
proof -
  have "drop_bit n (a XOR (p AND NOT (mask n))) = drop_bit n (a XOR p)" for n
    by (rule bit_word_eqI) (auto simp: bit_simps dest: bit_imp_le_length)
  then show ?thesis by (simp only: Contains_def Masked_def)
qed

lemma octet_less: "octet i a < 256"
  by (simp add: octet_def)

lemma unat_octets: "unat a = ((octet 0 a * 256 + octet 1 a) * 256 + octet 2 a) * 256 + octet 3 a"
proof -
  have step: "n = n div 256 * 256 + n mod 256" for n :: nat by simp
  have "unat a < 4294967296" using unsigned_less [where ?'a = nat and w = a] by simp
  then have "unat a div 16777216 mod 256 = unat a div 16777216" by simp
  moreover have "unat a div 256 div 256 = unat a div 65536" "unat a div 65536 div 256 = unat a div 16777216"
    by (simp_all flip: div_mult2_eq)
  ultimately show ?thesis
    using step [of "unat a"] step [of "unat a div 256"] step [of "unat a div 65536"] by (simp add: octet_def)
qed

lemma v4_of_octets: "v4_of (octet 0 a) (octet 1 a) (octet 2 a) (octet 3 a) = a"
  unfolding v4_of_def unat_octets [symmetric] by simp

lemma digit_char_facts [simp]:
  "d < 10 \<Longrightarrow> is_digit (digit_char d)" "d < 10 \<Longrightarrow> digit_value (digit_char d) = d"
  "d < 10 \<Longrightarrow> digit_char d = CHR ''0'' \<longleftrightarrow> d = 0"
proof -
  assume d: "d < 10"
  then have of: "(of_char (digit_char d) :: nat) = 48 + d"
    by (simp add: digit_char_def of_char_of)
  then show "is_digit (digit_char d)" "digit_value (digit_char d) = d"
    using d by (simp_all add: is_digit_def digit_value_def)
  have "digit_char d = CHR ''0'' \<longleftrightarrow> (of_char (digit_char d) :: nat) = of_char (CHR ''0'')"
    by (simp only: of_char_eq_iff)
  then show "digit_char d = CHR ''0'' \<longleftrightarrow> d = 0" unfolding of by simp
qed

lemma dec_value_snoc: "dec_value (s @ [c]) = dec_value s * 10 + digit_value c"
  by (simp add: dec_value_def)

lemma dec_string_facts:
  "dec_string n \<noteq> [] \<and> list_all is_digit (dec_string n) \<and> dec_value (dec_string n) = n \<and>
   (hd (dec_string n) = CHR ''0'' \<longrightarrow> n = 0)"
proof (induction n rule: dec_string.induct)
  case (1 n)
  show ?case
  proof (cases "n < 10")
    case True
    then show ?thesis by (simp add: dec_string.simps [of n] dec_value_def)
  next
    case False
    with 1 show ?thesis by (auto simp: dec_string.simps [of n] dec_value_snoc hd_append)
  qed
qed

lemma parse_dec_dec_string [simp]: "parse_dec b (dec_string n) = (if n \<le> b then Some n else None)"
proof -
  note f = dec_string_facts [of n]
  have "length (dec_string n) > 1 \<longrightarrow> n \<noteq> 0"
    by (auto simp: dec_string.simps [of n])
  with f show ?thesis by (auto simp: parse_dec_def)
qed

lemma dec_string_no_dot: "c \<in> set (dec_string n) \<Longrightarrow> is_digit c"
  using dec_string_facts [of n] by (simp add: list_all_iff)

lemma not_digit_dot: "\<not> is_digit CHR ''.''" "\<not> is_digit CHR '':''" "\<not> is_digit CHR ''%''" "\<not> is_digit CHR ''/''"
  by (simp_all add: is_digit_def)

lemma parse_v4_string: "parse_v4 (v4_string a) = Some a"
proof -
  have nd: "CHR ''.'' \<notin> set (dec_string n)" for n using dec_string_no_dot not_digit_dot by blast
  have le: "octet i a \<le> 255" for i using octet_less [of i a] by simp
  have "Split CHR ''.'' (v4_string a) = [dec_string (octet 0 a), dec_string (octet 1 a), dec_string (octet 2 a), dec_string (octet 3 a)]"
    by (simp add: v4_string_def Split_sep Split_no_sep nd)
  then show ?thesis using v4_of_octets [of a] by (simp add: parse_v4_def le)
qed

lemma find_append_not: "\<forall>x \<in> set xs. \<not> P x \<Longrightarrow> find P (xs @ ys) = find P ys"
  by (induction xs) auto

lemma ParseAddr_v4_string: "ParseAddr (v4_string a) = Some (V4 a)"
proof -
  have "\<forall>c \<in> set (dec_string n). c \<notin> set ''.:%''" for n
    using dec_string_no_dot not_digit_dot by fastforce
  then have "find (\<lambda>c. c \<in> set ''.:%'') (v4_string a) = Some CHR ''.''"
    unfolding v4_string_def by (subst find_append_not) simp_all
  then show ?thesis by (simp add: ParseAddr_def parse_v4_string)
qed

lemma ParseIP_v4_string: "ParseIP (v4_string a) = Some (V4 a)"
  by (simp add: ParseIP_def ParseAddr_v4_string)

text \<open>What parses as an IPv4 address contains only digits and dots.\<close>

lemma Split_chars: "c \<in> set s \<Longrightarrow> c = sep \<or> (\<exists>p \<in> set (Split sep s). c \<in> set p)"
  by (induction s) (auto split: list.splits)

lemma parse_dec_digits: "parse_dec b s = Some n \<Longrightarrow> c \<in> set s \<Longrightarrow> is_digit c"
  by (auto simp: parse_dec_def list_all_iff split: if_splits)


end
