(* ===== verification/Hermes_Model.thy ===== *)
theory Hermes_Model
  imports Hermes_Prelude "HOL-Library.Word" Complex_Main
begin

text \<open>
  The data of \<open>products/hermes/internal/model\<close>: one record per gorm model, with the
  fields the code reads or writes, and one datatype per group of status constants.
  The embedded \<open>gorm.Model\<close> contributes \<open>ID\<close> and, where the code orders by it,
  \<open>CreatedAt\<close>; \<open>UpdatedAt\<close> is never read, and \<open>DeletedAt\<close> is never set (Hermes has
  no soft delete: its only deletions are \<open>Unscoped\<close>), so neither is kept.

  A \<open>time.Time\<close> is the number of nanoseconds since a fixed origin, a \<open>*T\<close> is an
  option, \<open>uint\<close> identifiers are naturals, a \<open>uint64\<close> is a 64-bit word. A \<open>float64\<close>
  is one of the special values or a rational number.
\<close>

type_synonym time = int

datatype float64 = F_NaN | F_PosInf | F_NegInf | F_Fin rat

text \<open>IEEE comparison with a finite constant: every comparison with a NaN is false.\<close>

fun f_less_const :: "float64 \<Rightarrow> rat \<Rightarrow> bool" where
  "f_less_const F_NaN c = False"
| "f_less_const F_PosInf c = False"
| "f_less_const F_NegInf c = True"
| "f_less_const (F_Fin q) c = (q < c)"

fun f_greater_const :: "float64 \<Rightarrow> rat \<Rightarrow> bool" where
  "f_greater_const F_NaN c = False"
| "f_greater_const F_PosInf c = True"
| "f_greater_const F_NegInf c = False"
| "f_greater_const (F_Fin q) c = (q > c)"

section \<open>Status constants\<close>

datatype cred_status = CPending | CActive | CGrace | CRevoked | CExpired

datatype rot_status = RRequested | RStaged | RValidating | RGrace | RCompleted | RRolledBack

datatype enr_status = EPending | EIssued | ECompleted | ERevoked | EExpired

primrec cred_status_text :: "cred_status \<Rightarrow> string" where
  "cred_status_text CPending = ''pending''"
| "cred_status_text CActive = ''active''"
| "cred_status_text CGrace = ''grace''"
| "cred_status_text CRevoked = ''revoked''"
| "cred_status_text CExpired = ''expired''"

primrec rot_status_text :: "rot_status \<Rightarrow> string" where
  "rot_status_text RRequested = ''requested''"
| "rot_status_text RStaged = ''staged''"
| "rot_status_text RValidating = ''validating''"
| "rot_status_text RGrace = ''grace''"
| "rot_status_text RCompleted = ''completed''"
| "rot_status_text RRolledBack = ''rolled_back''"

primrec enr_status_text :: "enr_status \<Rightarrow> string" where
  "enr_status_text EPending = ''pending''"
| "enr_status_text EIssued = ''issued''"
| "enr_status_text ECompleted = ''completed''"
| "enr_status_text ERevoked = ''revoked''"
| "enr_status_text EExpired = ''expired''"

section \<open>Models\<close>

record domain =
  dom_ID :: nat
  dom_Name :: string
  dom_DefaultTTL :: int
  dom_Enabled :: bool
  dom_Wildcard :: bool

record device =
  dev_ID :: nat
  dev_Name :: string
  dev_DisplayName :: string
  dev_Type :: string
  dev_Status :: string
  dev_LastSeenAt :: "time option"
  dev_LastIP :: string
  dev_AgentVersion :: string

record identity_credential =
  idc_ID :: nat
  idc_CreatedAt :: time
  idc_DeviceID :: nat
  idc_CredentialID :: string
  idc_SecretHash :: string
  idc_Status :: cred_status
  idc_ActivatedAt :: "time option"
  idc_ExpiresAt :: "time option"
  idc_RevokedAt :: "time option"
  idc_LastUsedAt :: "time option"
  idc_LastUsedIP :: string

record enrollment =
  enr_ID :: nat
  enr_CreatedAt :: time
  enr_DeviceID :: nat
  enr_TokenID :: string
  enr_SecretHash :: string
  enr_Status :: enr_status
  enr_ExpiresAt :: time
  enr_IssuedAt :: "time option"
  enr_CompletedAt :: "time option"
  enr_RevokedAt :: "time option"
  enr_UsedIP :: string
  enr_AgentCredentialID :: "nat option"

record telemetry_snapshot =
  tel_ID :: nat
  tel_DeviceID :: nat
  tel_LastHeartbeatAt :: time
  tel_LastIP :: string
  tel_AgentVersion :: string
  tel_SystemHostname :: string
  tel_Platform :: string
  tel_Architecture :: string
  tel_OSVersion :: string
  tel_KernelVersion :: string
  tel_FirmwareVersion :: string
  tel_BootID :: string
  tel_UptimeSeconds :: "64 word"
  tel_CPUCount :: int
  tel_Load1 :: float64
  tel_Load5 :: float64
  tel_Load15 :: float64
  tel_MemoryTotalBytes :: "64 word"
  tel_MemoryAvailableBytes :: "64 word"
  tel_DiskTotalBytes :: "64 word"
  tel_DiskAvailableBytes :: "64 word"

record net_snapshot =
  ns_ID :: nat
  ns_DeviceID :: nat
  ns_ReportedAt :: time
  ns_ServerObservedIP :: string

record net_wan =
  wan_ID :: nat
  wan_DeviceID :: nat
  wan_InterfaceName :: string
  wan_Role :: string
  wan_DefaultRoute :: bool
  wan_IPv4 :: string
  wan_GatewayIPv4 :: string
  wan_IPv6 :: string
  wan_ObservedPublicIPv4 :: string
  wan_PublicIPSource :: string
  wan_AddressScope :: string
  wan_NATState :: string
  wan_UpstreamNAT :: bool
  wan_DoubleNAT :: bool
  wan_CGNAT :: bool
  wan_PublicIPMatch :: "bool option"

record net_segment =
  seg_ID :: nat
  seg_DeviceID :: nat
  seg_Name :: string
  seg_VLANID :: "int option"
  seg_IPv4CIDR :: string
  seg_GatewayIPv4 :: string
  seg_Purpose :: string

record ddns_credential =
  cr_ID :: nat
  cr_CreatedAt :: time
  cr_DeviceID :: nat
  cr_KeyID :: string
  cr_SecretHash :: string
  cr_Status :: cred_status
  cr_ActivatedAt :: "time option"
  cr_ConfirmedAt :: "time option"
  cr_ExpiresAt :: "time option"
  cr_RevokedAt :: "time option"
  cr_GraceUntil :: "time option"
  cr_LastUsedAt :: "time option"
  cr_LastUsedIP :: string
  cr_ReplacesCredentialID :: "nat option"

record rotation =
  rot_ID :: nat
  rot_CreatedAt :: time
  rot_DeviceID :: nat
  rot_PreviousCredentialID :: nat
  rot_NewCredentialID :: "nat option"
  rot_Status :: rot_status
  rot_GraceMinutes :: int
  rot_RequestedAt :: time
  rot_StagedAt :: "time option"
  rot_ValidationStartedAt :: "time option"
  rot_ConfirmedAt :: "time option"
  rot_GraceUntil :: "time option"
  rot_CompletedAt :: "time option"
  rot_RolledBackAt :: "time option"
  rot_LastError :: string

record host =
  host_ID :: nat
  host_DomainID :: nat
  host_DeviceID :: nat
  host_Hostname :: string
  host_IPAddress :: string
  host_RecordType :: string
  host_TTL :: int
  host_Status :: string
  host_LastUpdate :: time

record update_log =
  log_ID :: nat
  log_CreatedAt :: time
  log_DeviceID :: nat
  log_HostID :: "nat option"
  log_CredentialID :: "nat option"
  log_Operation :: string
  log_Status :: string
  log_ResponseCode :: string
  log_Message :: string
  log_SentIP :: string
  log_CallerIP :: string
  log_UserAgent :: string
  log_RequestedAt :: time
  log_CompletedAt :: time

text \<open>\<open>Host.FQDN\<close>, with the name of the preloaded domain as its argument.\<close>

definition FQDN :: "host \<Rightarrow> string \<Rightarrow> string" where
  "FQDN h domain_name =
     (if domain_name = [] then host_Hostname h else host_Hostname h @ ''.'' @ domain_name)"

section \<open>Errors\<close>

text \<open>
  The sentinel errors of each package. \<open>DBError\<close> stands for every other error a
  statement can return (the driver's, or a violated uniqueness constraint) and
  \<open>RandError\<close> for a failure of the random source; the code compares neither with
  anything, it only passes them on.
\<close>

datatype credential_err =
    CErrDeviceNotFound
  | CErrNoActiveCredential
  | CErrMultipleActive
  | CErrRotationInProgress
  | CErrRotationNotFound
  | CErrInvalidRotationState
  | CErrInvalidGracePeriod
  | CErrInvalidCandidateKeyID
  | CErrInvalidCandidateHash

datatype agentauth_err =
    AErrBadAuth
  | AErrDeviceNotFound
  | AErrActiveCredentialExists
  | AErrCredentialNotFound

datatype enrollment_err =
    EErrBadAuth
  | EErrDeviceNotFound
  | EErrEnrollmentNotFound
  | EErrEnrollmentInProgress
  | EErrInvalidState
  | EErrInvalidTTL

datatype telemetry_err =
    TErrDeviceNotFound
  | TErrInvalidMemoryMetrics
  | TErrInvalidDiskMetrics
  | TErrInvalidCPUCount
  | TErrInvalidLoad
  | TErrInvalidCounter

datatype networkcontext_err =
    NErrDeviceNotFound
  | NErrNoWAN
  | NErrInvalidInterface
  | NErrDuplicateInterface
  | NErrMultipleDefaultRoutes
  | NErrInvalidWANRole
  | NErrInvalidIPAddress
  | NErrInvalidPublicIPv4
  | NErrInvalidNetworkName
  | NErrInvalidVLAN
  | NErrInvalidCIDR
  | NErrInvalidGateway

datatype ddns_err =
    DErrBadAuth
  | DErrNotFQDN
  | DErrBadIP

datatype err =
    DBError
  | RandError
  | DNSError
  | ErrCredential credential_err
  | ErrAgentAuth agentauth_err
  | ErrEnrollment enrollment_err
  | ErrTelemetry telemetry_err
  | ErrNetwork networkcontext_err
  | ErrDDNS ddns_err

section \<open>Time arithmetic\<close>

text \<open>
  \<open>time.Duration(m) * time.Minute\<close> is a multiplication of signed 64-bit integers, which
  wraps around. \<open>t.Sub(u)\<close> saturates at the bounds of a duration.
\<close>

definition duration_minutes :: "int \<Rightarrow> int" where
  "duration_minutes m = sint (word_of_int m * (60000000000 :: 64 word))"

definition time_sub :: "time \<Rightarrow> time \<Rightarrow> int" where
  "time_sub t u = max (- (2 ^ 63)) (min (2 ^ 63 - 1) (t - u))"

text \<open>\<open>expiresAt != nil && !expiresAt.After(now)\<close>.\<close>

definition has_expired :: "time option \<Rightarrow> time \<Rightarrow> bool" where
  "has_expired expiresAt t = (case expiresAt of None \<Rightarrow> False | Some u \<Rightarrow> \<not> u > t)"

lemma duration_minutes_exact:
  assumes "1 \<le> m" "m \<le> 1440"
  shows "duration_minutes m = m * 60000000000"
proof -
  have "duration_minutes m = sint (word_of_int (m * 60000000000) :: 64 word)"
    by (simp add: duration_minutes_def flip: wi_hom_mult)
  also have "\<dots> = signed_take_bit 63 (m * 60000000000)"
    by (simp only: sint_sbintrunc') simp
  also have "\<dots> = m * 60000000000"
    using assms by (intro signed_take_bit_int_eq_self) auto
  finally show ?thesis .
qed

lemma status_text_inj:
  "cred_status_text a = cred_status_text b \<longleftrightarrow> a = b"
  "rot_status_text r = rot_status_text s \<longleftrightarrow> r = s"
  "enr_status_text x = enr_status_text y \<longleftrightarrow> x = y"
    apply (cases a; cases b; simp)
   apply (cases r; cases s; simp)
  apply (cases x; cases y; simp)
  done

end
