(* ===== verification/Hermes_Store.thy ===== *)
theory Hermes_Store
  imports Hermes_Model
begin

text \<open>
  The database the services share, the statements they issue against it, and
  transactions (the \<open>gorm.DB\<close> handle of every \<open>Service\<close> struct, and the tables of
  \<open>internal/database/database.go\<close>).

  A table is the list of its rows in primary-key order with the last key it gave out
  (gorm creates the keys of SQLite tables as auto-increment integers). The statements
  are those whose \<open>Where\<close>, \<open>Updates\<close> and \<open>Count\<close> clauses the source spells out; a clause
  becomes a predicate on rows. What the environment decides is a parameter, the record
  \<open>env\<close>: which interactions with the driver fail, what the clock shows, what the random
  source returns, the hash function, and whether nsupdate succeeds. Every interaction
  takes one tick, and the environment answers per tick, so two reads of the clock in one
  operation may differ and any statement, \<open>BEGIN\<close> or \<open>COMMIT\<close> may fail.
\<close>

section \<open>Tables and the world\<close>

record 'r table =
  tbl_rows :: "'r list"
  tbl_seq :: nat

record database =
  domains :: "domain table"
  devices :: "device table"
  identities :: "identity_credential table"
  enrollments :: "enrollment table"
  telemetries :: "telemetry_snapshot table"
  netsnaps :: "net_snapshot table"
  wans :: "net_wan table"
  segments :: "net_segment table"
  creds :: "ddns_credential table"
  rotations :: "rotation table"
  hosts :: "host table"
  logs :: "update_log table"

record env =
  stmt_fault :: "nat \<Rightarrow> bool"
  clock :: "nat \<Rightarrow> time"
  rand_read :: "nat \<Rightarrow> nat \<Rightarrow> string option"
  sha256 :: "string \<Rightarrow> string"
  nsupdate_error :: "nat \<Rightarrow> string \<Rightarrow> string option"

record world =
  w_db :: database
  w_ticks :: nat
  w_dns :: "string list"

definition empty_table :: "'r table" where
  "empty_table = \<lparr>tbl_rows = [], tbl_seq = 0\<rparr>"

definition empty_database :: database where
  "empty_database =
     \<lparr>domains = empty_table, devices = empty_table, identities = empty_table,
      enrollments = empty_table, telemetries = empty_table, netsnaps = empty_table,
      wans = empty_table, segments = empty_table, creds = empty_table,
      rotations = empty_table, hosts = empty_table, logs = empty_table\<rparr>"

definition initial_world :: world where
  "initial_world = \<lparr>w_db = empty_database, w_ticks = 0, w_dns = []\<rparr>"

section \<open>Statements\<close>

type_synonym 'a dbop = "(world, err, 'a) op"

definition tick :: "world \<Rightarrow> world" where
  "tick w = w\<lparr>w_ticks := Suc (w_ticks w)\<rparr>"

definition now :: "env \<Rightarrow> time dbop" where
  "now env = (\<lambda>w. (Inr (clock env (w_ticks w)), tick w))"

definition stmt :: "env \<Rightarrow> (database \<Rightarrow> (err + 'a) \<times> database) \<Rightarrow> 'a dbop" where
  "stmt env act = (\<lambda>w.
     if stmt_fault env (w_ticks w) then (Inl DBError, tick w)
     else (case act (w_db w) of (r, d) \<Rightarrow> (r, (tick w)\<lparr>w_db := d\<rparr>)))"

text \<open>\<open>SELECT\<close>: all rows, the first row by primary key, the number of rows.\<close>

definition select :: "env \<Rightarrow> (database \<Rightarrow> 'r table) \<Rightarrow> ('r \<Rightarrow> bool) \<Rightarrow> 'r list dbop" where
  "select env get P = stmt env (\<lambda>d. (Inr (filter P (tbl_rows (get d))), d))"

definition first :: "env \<Rightarrow> (database \<Rightarrow> 'r table) \<Rightarrow> ('r \<Rightarrow> bool) \<Rightarrow> 'r option dbop" where
  "first env get P = stmt env (\<lambda>d. (Inr (find P (tbl_rows (get d))), d))"

definition count_rows :: "env \<Rightarrow> (database \<Rightarrow> 'r table) \<Rightarrow> ('r \<Rightarrow> bool) \<Rightarrow> nat dbop" where
  "count_rows env get P = stmt env (\<lambda>d. (Inr (length (filter P (tbl_rows (get d)))), d))"

text \<open>\<open>UPDATE ... WHERE\<close>, with the number of rows affected.\<close>

definition upd_rows :: "('r \<Rightarrow> bool) \<Rightarrow> ('r \<Rightarrow> 'r) \<Rightarrow> 'r table \<Rightarrow> 'r table" where
  "upd_rows P f t = t\<lparr>tbl_rows := map (\<lambda>r. if P r then f r else r) (tbl_rows t)\<rparr>"

definition updates ::
  "env \<Rightarrow> (database \<Rightarrow> 'r table) \<Rightarrow> (('r table \<Rightarrow> 'r table) \<Rightarrow> database \<Rightarrow> database)
   \<Rightarrow> ('r \<Rightarrow> bool) \<Rightarrow> ('r \<Rightarrow> 'r) \<Rightarrow> nat dbop" where
  "updates env get upd P f =
     stmt env (\<lambda>d. (Inr (length (filter P (tbl_rows (get d)))), upd (upd_rows P f) d))"

text \<open>\<open>DELETE ... WHERE\<close> of an \<open>Unscoped\<close> (hard) deletion.\<close>

definition del_rows :: "('r \<Rightarrow> bool) \<Rightarrow> 'r table \<Rightarrow> 'r table" where
  "del_rows P t = t\<lparr>tbl_rows := filter (\<lambda>r. \<not> P r) (tbl_rows t)\<rparr>"

definition delete_rows ::
  "env \<Rightarrow> (('r table \<Rightarrow> 'r table) \<Rightarrow> database \<Rightarrow> database) \<Rightarrow> ('r \<Rightarrow> bool) \<Rightarrow> unit dbop" where
  "delete_rows env upd P = stmt env (\<lambda>d. (Inr (), upd (del_rows P) d))"

text \<open>
  \<open>INSERT\<close>: \<open>mk i t\<close> is the row with primary key \<open>i\<close> and creation time \<open>t\<close>; a row that
  clashes with an existing one on a unique index is refused.
\<close>

definition ins_row :: "'r \<Rightarrow> 'r table \<Rightarrow> 'r table" where
  "ins_row r t = t\<lparr>tbl_rows := tbl_rows t @ [r], tbl_seq := Suc (tbl_seq t)\<rparr>"

definition create ::
  "env \<Rightarrow> (database \<Rightarrow> 'r table) \<Rightarrow> (('r table \<Rightarrow> 'r table) \<Rightarrow> database \<Rightarrow> database)
   \<Rightarrow> ('r \<Rightarrow> 'r \<Rightarrow> bool) \<Rightarrow> (nat \<Rightarrow> time \<Rightarrow> 'r) \<Rightarrow> 'r dbop" where
  "create env get upd clash mk = (\<lambda>w. stmt env (\<lambda>d.
     (let r = mk (Suc (tbl_seq (get d))) (clock env (w_ticks w))
      in if list_ex (clash r) (tbl_rows (get d)) then (Inl DBError, d)
         else (Inr r, upd (ins_row r) d))) w)"

text \<open>
  \<open>DB.Transaction(func)\<close>: the tables are those before it when \<open>BEGIN\<close>, the function
  or \<open>COMMIT\<close> returns an error. The clock and the fault schedule go on.
\<close>

definition transaction :: "env \<Rightarrow> 'a dbop \<Rightarrow> 'a dbop" where
  "transaction env body = (\<lambda>w.
     if stmt_fault env (w_ticks w) then (Inl DBError, tick w)
     else (case body (tick w) of
             (Inl e, w') \<Rightarrow> (Inl e, w'\<lparr>w_db := w_db w\<rparr>)
           | (Inr x, w') \<Rightarrow>
               if stmt_fault env (w_ticks w') then (Inl DBError, (tick w')\<lparr>w_db := w_db w\<rparr>)
               else (Inr x, tick w')))"

text \<open>\<open>Order("created_at desc")\<close>: the newest row first, the smaller key on a tie.\<close>

definition newest_first :: "('r \<Rightarrow> time) \<Rightarrow> 'r list \<Rightarrow> 'r list" where
  "newest_first created rows = sort_key (\<lambda>r. - created r) rows"

lemma set_newest_first [simp]: "set (newest_first created rows) = set rows"
  by (simp add: newest_first_def)

section \<open>Successful runs\<close>

lemma tick_simps [simp]:
  "w_db (tick w) = w_db w" "w_ticks (tick w) = Suc (w_ticks w)" "w_dns (tick w) = w_dns w"
  by (simp_all add: tick_def)

lemma now_Inr [op_simps]: "now env w = (Inr t, w') \<longleftrightarrow> t = clock env (w_ticks w) \<and> w' = tick w"
  by (auto simp: now_def)

lemma now_not_Inl [simp]: "now env w \<noteq> (Inl e, w')"
  by (simp add: now_def)

lemma stmt_Inr:
  "stmt env act w = (Inr x, w') \<longleftrightarrow>
     \<not> stmt_fault env (w_ticks w) \<and> (\<exists>d. act (w_db w) = (Inr x, d) \<and> w' = (tick w)\<lparr>w_db := d\<rparr>)"
  by (auto simp: stmt_def split: prod.splits)

lemma world_db_same [simp]: "(tick w)\<lparr>w_db := w_db w\<rparr> = tick w"
  by (simp add: tick_def)

lemma select_Inr [op_simps]:
  "select env get P w = (Inr xs, w') \<longleftrightarrow>
     \<not> stmt_fault env (w_ticks w) \<and> xs = filter P (tbl_rows (get (w_db w))) \<and> w' = tick w"
  by (auto simp: select_def stmt_Inr)

lemma first_Inr [op_simps]:
  "first env get P w = (Inr x, w') \<longleftrightarrow>
     \<not> stmt_fault env (w_ticks w) \<and> x = find P (tbl_rows (get (w_db w))) \<and> w' = tick w"
  by (auto simp: first_def stmt_Inr)

lemma count_rows_Inr [op_simps]:
  "count_rows env get P w = (Inr n, w') \<longleftrightarrow>
     \<not> stmt_fault env (w_ticks w) \<and> n = length (filter P (tbl_rows (get (w_db w)))) \<and> w' = tick w"
  by (auto simp: count_rows_def stmt_Inr)

lemma updates_Inr [op_simps]:
  "updates env get upd P f w = (Inr n, w') \<longleftrightarrow>
     \<not> stmt_fault env (w_ticks w) \<and> n = length (filter P (tbl_rows (get (w_db w)))) \<and>
     w' = (tick w)\<lparr>w_db := upd (upd_rows P f) (w_db w)\<rparr>"
  by (auto simp: updates_def stmt_Inr)

lemma delete_rows_Inr [op_simps]:
  "delete_rows env upd P w = (Inr u, w') \<longleftrightarrow>
     \<not> stmt_fault env (w_ticks w) \<and> w' = (tick w)\<lparr>w_db := upd (del_rows P) (w_db w)\<rparr>"
  by (auto simp: delete_rows_def stmt_Inr)

lemma create_Inr [op_simps]:
  "create env get upd clash mk w = (Inr r, w') \<longleftrightarrow>
     \<not> stmt_fault env (w_ticks w) \<and>
     r = mk (Suc (tbl_seq (get (w_db w)))) (clock env (w_ticks w)) \<and>
     \<not> list_ex (clash r) (tbl_rows (get (w_db w))) \<and>
     w' = (tick w)\<lparr>w_db := upd (ins_row r) (w_db w)\<rparr>"
  by (auto simp: create_def stmt_Inr Let_def split: if_splits)

lemma transaction_Inr [op_simps]:
  "transaction env body w = (Inr x, w') \<longleftrightarrow>
     \<not> stmt_fault env (w_ticks w) \<and>
     (\<exists>w1. body (tick w) = (Inr x, w1) \<and> \<not> stmt_fault env (w_ticks w1) \<and> w' = tick w1)"
  by (auto simp: transaction_def split: prod.splits sum.splits if_splits)

lemma select_db: "select env get P w = (x, w') \<Longrightarrow> w_db w' = w_db w"
  by (auto simp: select_def stmt_def split: if_splits)

text \<open>A transaction that returns an error leaves every table as it was.\<close>

lemma transaction_Inl_db: "transaction env body w = (Inl e, w') \<Longrightarrow> w_db w' = w_db w"
  by (auto simp: transaction_def split: prod.splits sum.splits if_splits)

text \<open>The runs without a fault, for evaluating an operation forwards.\<close>

definition no_faults :: "env \<Rightarrow> bool" where
  "no_faults env \<longleftrightarrow> (\<forall>n. \<not> stmt_fault env n)"

lemma no_faultsD [simp]: "no_faults env \<Longrightarrow> \<not> stmt_fault env n"
  by (simp add: no_faults_def)

lemma transaction_ok:
  assumes "no_faults env"
  shows "transaction env body w =
     (case body (tick w) of (Inl e, w') \<Rightarrow> (Inl e, w'\<lparr>w_db := w_db w\<rparr>) | (Inr x, w') \<Rightarrow> (Inr x, tick w'))"
  using assms by (auto simp: transaction_def split: prod.splits sum.splits)

lemma run_ok:
  assumes "no_faults env"
  shows "stmt env act w = (case act (w_db w) of (r, d) \<Rightarrow> (r, (tick w)\<lparr>w_db := d\<rparr>))"
    and "select env get P w = (Inr (filter P (tbl_rows (get (w_db w)))), tick w)"
    and "first env get P w = (Inr (find P (tbl_rows (get (w_db w)))), tick w)"
    and "count_rows env get P w = (Inr (length (filter P (tbl_rows (get (w_db w))))), tick w)"
    and "updates env get upd P f w =
      (Inr (length (filter P (tbl_rows (get (w_db w))))), (tick w)\<lparr>w_db := upd (upd_rows P f) (w_db w)\<rparr>)"
    and "delete_rows env upd P w = (Inr (), (tick w)\<lparr>w_db := upd (del_rows P) (w_db w)\<rparr>)"
    and "create env get upd clash mk w =
      (let r = mk (Suc (tbl_seq (get (w_db w)))) (clock env (w_ticks w))
       in if list_ex (clash r) (tbl_rows (get (w_db w))) then (Inl DBError, tick w)
          else (Inr r, (tick w)\<lparr>w_db := upd (ins_row r) (w_db w)\<rparr>))"
  using assms
  by (simp_all add: stmt_def select_def first_def count_rows_def updates_def delete_rows_def create_def Let_def)

lemma now_run: "now env w = (Inr (clock env (w_ticks w)), tick w)"
  by (simp add: now_def)

lemmas run_simps = run_ok transaction_ok now_run bindE_def failIf_apply orFail_apply errTo_def catchE_def

section \<open>Tables as maps\<close>

definition tmap :: "('r \<Rightarrow> nat) \<Rightarrow> 'r table \<Rightarrow> nat \<rightharpoonup> 'r" where
  "tmap key t i = find (\<lambda>r. key r = i) (tbl_rows t)"

definition wf_table :: "('r \<Rightarrow> nat) \<Rightarrow> 'r table \<Rightarrow> bool" where
  "wf_table key t \<longleftrightarrow>
     distinct (map key (tbl_rows t)) \<and> (\<forall>r \<in> set (tbl_rows t). 1 \<le> key r \<and> key r \<le> tbl_seq t)"

lemma table_simps [simp]:
  "tbl_rows (ins_row r t) = tbl_rows t @ [r]" "tbl_seq (ins_row r t) = Suc (tbl_seq t)"
  "tbl_rows (upd_rows P f t) = map (\<lambda>r. if P r then f r else r) (tbl_rows t)"
  "tbl_seq (upd_rows P f t) = tbl_seq t"
  "tbl_rows (del_rows P t) = filter (\<lambda>r. \<not> P r) (tbl_rows t)" "tbl_seq (del_rows P t) = tbl_seq t"
  by (simp_all add: ins_row_def upd_rows_def del_rows_def)

lemma wf_empty_table [simp]: "wf_table key empty_table"
  by (simp add: wf_table_def empty_table_def)

lemma tmap_empty_table [simp]: "tmap key empty_table = Map.empty"
  by (simp add: tmap_def empty_table_def fun_eq_iff)

text \<open>
  The interface between a table and the services: a table read through its primary key
  is a map, an insertion is a map update at a fresh key, an update by predicate is a
  pointwise change. The clients' proofs use these laws only.
\<close>

locale keyed_table =
  fixes key :: "'r \<Rightarrow> nat"
begin

lemma tmap_Some: "wf_table key t \<Longrightarrow> tmap key t i = Some r \<longleftrightarrow> r \<in> set (tbl_rows t) \<and> key r = i"
  by (simp add: tmap_def wf_table_def map_of_id_key)

lemma row_tmap: "wf_table key t \<Longrightarrow> r \<in> set (tbl_rows t) \<Longrightarrow> tmap key t (key r) = Some r"
  by (simp add: tmap_Some)

lemma tmap_key: "tmap key t i = Some r \<Longrightarrow> key r = i"
  unfolding tmap_def by (drule find_SomeD) simp

lemma tmap_row: "tmap key t i = Some r \<Longrightarrow> r \<in> set (tbl_rows t)"
  unfolding tmap_def by (drule find_SomeD) simp

lemma fresh_key: "wf_table key t \<Longrightarrow> tmap key t (Suc (tbl_seq t)) = None"
  by (auto simp: tmap_def wf_table_def find_None_iff)

lemma wf_ins: "wf_table key t \<Longrightarrow> key r = Suc (tbl_seq t) \<Longrightarrow> wf_table key (ins_row r t)"
  by (fastforce simp: wf_table_def)

lemma tmap_ins:
  assumes "wf_table key t" "key r = Suc (tbl_seq t)"
  shows "tmap key (ins_row r t) = (tmap key t)(key r \<mapsto> r)"
proof
  fix i
  have "find (\<lambda>x. key x = i) (rs @ [r]) =
    (case find (\<lambda>x. key x = i) rs of Some x \<Rightarrow> Some x | None \<Rightarrow> if key r = i then Some r else None)" for rs
    by (induction rs) auto
  moreover have "tmap key t (key r) = None"
    using fresh_key [OF assms(1)] assms(2) by simp
  ultimately show "tmap key (ins_row r t) i = ((tmap key t)(key r \<mapsto> r)) i"
    by (auto simp: tmap_def split: option.split)
qed

lemma wf_upd: "wf_table key t \<Longrightarrow> (\<And>r. key (f r) = key r) \<Longrightarrow> wf_table key (upd_rows P f t)"
  by (auto simp: wf_table_def o_def if_distrib [of key] cong: if_cong)

lemma tmap_upd:
  assumes "\<And>r. key (f r) = key r"
  shows "tmap key (upd_rows P f t) = (\<lambda>i. map_option (\<lambda>r. if P r then f r else r) (tmap key t i))"
proof
  fix i
  have "find (\<lambda>r. key r = i) (map (\<lambda>r. if P r then f r else r) rs) =
        map_option (\<lambda>r. if P r then f r else r) (find (\<lambda>r. key r = i) rs)" for rs
    by (induction rs) (auto simp: assms)
  then show "tmap key (upd_rows P f t) i = map_option (\<lambda>r. if P r then f r else r) (tmap key t i)"
    by (simp add: tmap_def)
qed

text \<open>An update by primary key and a further condition changes at most that row.\<close>

lemma tmap_upd_key:
  assumes "\<And>r. key (f r) = key r" "tmap key t i = Some r" "Q r"
  shows "tmap key (upd_rows (\<lambda>r. key r = i \<and> Q r) f t) = (tmap key t)(i \<mapsto> f r)"
proof
  fix j
  show "tmap key (upd_rows (\<lambda>r. key r = i \<and> Q r) f t) j = ((tmap key t)(i \<mapsto> f r)) j"
    using assms by (auto simp: tmap_upd map_option_case dest: tmap_key split: option.splits)
qed

lemma tmap_upd_id:
  assumes "\<And>r. key (f r) = key r" "tmap key t i = Some r"
  shows "tmap key (upd_rows (\<lambda>r. key r = i) f t) = (tmap key t)(i \<mapsto> f r)"
  using tmap_upd_key [where f = f and Q = "\<lambda>_. True", OF assms TrueI] by simp

lemma affected_key:
  assumes "wf_table key t"
  shows "length (filter (\<lambda>r. key r = i \<and> Q r) (tbl_rows t)) =
     (case tmap key t i of None \<Rightarrow> 0 | Some r \<Rightarrow> if Q r then 1 else 0)"
proof -
  have "distinct (map key rs) \<Longrightarrow>
    length (filter (\<lambda>r. key r = i \<and> Q r) rs) =
      (case find (\<lambda>r. key r = i) rs of None \<Rightarrow> 0 | Some r \<Rightarrow> if Q r then 1 else 0)" for rs
  proof (induction rs)
    case (Cons a rs)
    have "filter (\<lambda>r. key r = key a \<and> Q r) rs = []"
      using Cons.prems by (auto simp: filter_empty_conv image_iff)
    with Cons show ?case by auto
  qed simp
  then show ?thesis using assms by (simp add: tmap_def wf_table_def)
qed

lemma affected_one:
  "wf_table key t \<Longrightarrow>
   length (filter (\<lambda>r. key r = i \<and> Q r) (tbl_rows t)) = Suc 0 \<longleftrightarrow> (\<exists>r. tmap key t i = Some r \<and> Q r)"
  by (auto simp: affected_key split: option.splits)

lemma find_key:
  assumes "wf_table key t"
  shows "find (\<lambda>r. key r = i \<and> Q r) (tbl_rows t) = Some r \<longleftrightarrow> tmap key t i = Some r \<and> Q r"
proof -
  have "distinct (map key rs) \<Longrightarrow>
    (find (\<lambda>r. key r = i \<and> Q r) rs = Some r) = (find (\<lambda>r. key r = i) rs = Some r \<and> Q r)" for rs
  proof (induction rs)
    case (Cons a rs)
    have "find (\<lambda>r. key r = key a \<and> Q r) rs = None"
      using Cons.prems by (auto simp: find_None_iff image_iff)
    with Cons show ?case by auto
  qed simp
  then show ?thesis using assms by (simp add: tmap_def wf_table_def)
qed

lemma find_key_case:
  assumes "wf_table key t"
  shows "find (\<lambda>r. key r = i \<and> Q r) (tbl_rows t) =
     (case tmap key t i of None \<Rightarrow> None | Some r \<Rightarrow> if Q r then Some r else None)"
  by (rule option_eqI) (auto simp: find_key [OF assms] split: option.splits)

lemma find_id: "find (\<lambda>r. key r = i) (tbl_rows t) = tmap key t i"
  by (simp add: tmap_def)

lemma find_row:
  "wf_table key t \<Longrightarrow> find P (tbl_rows t) = Some r \<Longrightarrow> tmap key t (key r) = Some r \<and> P r"
  by (drule find_SomeD) (simp add: tmap_Some)

lemma rows_iff: "wf_table key t \<Longrightarrow> r \<in> set (tbl_rows t) \<longleftrightarrow> (\<exists>i. tmap key t i = Some r)"
  by (auto simp: tmap_Some)

end

text \<open>
  The same table as a component of the database: reading back what a statement wrote
  is the law the record's selectors and updates give for every table.
\<close>

locale db_table = keyed_table key
  for key :: "'r \<Rightarrow> nat" +
  fixes get :: "database \<Rightarrow> 'r table"
    and upd :: "('r table \<Rightarrow> 'r table) \<Rightarrow> database \<Rightarrow> database"
  assumes get_upd: "get (upd f d) = f (get d)"
begin

lemma updates_one:
  assumes "wf_table key (get (w_db w))" "\<And>r. key (f r) = key r"
    and "updates env get upd (\<lambda>r. key r = i \<and> Q r) f w = (Inr (Suc 0), w')"
  obtains r where "tmap key (get (w_db w)) i = Some r" "Q r"
    "tmap key (get (w_db w')) = (tmap key (get (w_db w)))(i \<mapsto> f r)"
    "wf_table key (get (w_db w'))"
proof -
  from assms(3) have n: "length (filter (\<lambda>r. key r = i \<and> Q r) (tbl_rows (get (w_db w)))) = Suc 0"
    and w': "get (w_db w') = upd_rows (\<lambda>r. key r = i \<and> Q r) f (get (w_db w))"
    by (auto simp: updates_Inr get_upd)
  from n obtain r where r: "tmap key (get (w_db w)) i = Some r" "Q r"
    using affected_one [OF assms(1)] by blast
  show thesis
    by (rule that [OF r]) (simp_all add: w' tmap_upd_key [where f = f and Q = Q, OF assms(2) r] wf_upd [OF assms(1,2)])
qed

lemma create_fresh:
  assumes "wf_table key (get (w_db w))" "\<And>i t. key (mk i t) = i"
    and "create env get upd clash mk w = (Inr r, w')"
  shows "tmap key (get (w_db w)) (key r) = None"
    and "tmap key (get (w_db w')) = (tmap key (get (w_db w)))(key r \<mapsto> r)"
    and "wf_table key (get (w_db w'))"
proof -
  let ?t = "get (w_db w)"
  have k: "key r = Suc (tbl_seq ?t)" and w': "get (w_db w') = ins_row r ?t"
    using assms(2,3) by (auto simp: create_Inr get_upd)
  show "tmap key ?t (key r) = None"
    using fresh_key [OF assms(1)] k by simp
  show "tmap key (get (w_db w')) = (tmap key ?t)(key r \<mapsto> r)"
    using tmap_ins [OF assms(1) k] w' by simp
  show "wf_table key (get (w_db w'))"
    using wf_ins [OF assms(1) k] w' by simp
qed

end

interpretation device_rows: db_table dev_ID devices devices_update
  by unfold_locales simp

interpretation cred_rows: db_table cr_ID creds creds_update
  by unfold_locales simp

interpretation rot_rows: db_table rot_ID rotations rotations_update
  by unfold_locales simp

interpretation ident_rows: db_table idc_ID identities identities_update
  by unfold_locales simp

interpretation enr_rows: db_table enr_ID enrollments enrollments_update
  by unfold_locales simp

interpretation tel_rows: db_table tel_ID telemetries telemetries_update
  by unfold_locales simp

interpretation ns_rows: db_table ns_ID netsnaps netsnaps_update
  by unfold_locales simp

interpretation host_rows: db_table host_ID hosts hosts_update
  by unfold_locales simp

text \<open>The tables of the database as maps from their primary keys.\<close>

abbreviation dev_map :: "database \<Rightarrow> nat \<rightharpoonup> device" where
  "dev_map d \<equiv> tmap dev_ID (devices d)"

abbreviation cred_map :: "database \<Rightarrow> nat \<rightharpoonup> ddns_credential" where
  "cred_map d \<equiv> tmap cr_ID (creds d)"

abbreviation rot_map :: "database \<Rightarrow> nat \<rightharpoonup> rotation" where
  "rot_map d \<equiv> tmap rot_ID (rotations d)"

abbreviation ident_map :: "database \<Rightarrow> nat \<rightharpoonup> identity_credential" where
  "ident_map d \<equiv> tmap idc_ID (identities d)"

abbreviation enr_map :: "database \<Rightarrow> nat \<rightharpoonup> enrollment" where
  "enr_map d \<equiv> tmap enr_ID (enrollments d)"

abbreviation host_map :: "database \<Rightarrow> nat \<rightharpoonup> host" where
  "host_map d \<equiv> tmap host_ID (hosts d)"

end
