(* ===== verification/Hermes_DNS.thy ===== *)
theory Hermes_DNS
  imports Hermes_Netip Hermes_Store
begin

text \<open>
  \<open>internal/dns/updater.go\<close>: the scripts given to nsupdate. Running nsupdate is outside of
  the program: whether a run fails, and with what message, is the environment's answer for
  the tick and the script, and a script that was accepted is appended to \<open>w_dns\<close>. \<open>Hermes_NSUpdate\<close>
  models the run with its temporary file and command line.
\<close>

abbreviation nl :: char where "nl \<equiv> CHR 0x0A"

definition buildUpsertScript :: "string \<Rightarrow> string \<Rightarrow> string \<Rightarrow> string \<Rightarrow> string \<Rightarrow> int \<Rightarrow> bool \<Rightarrow> string" where
  "buildUpsertScript server hostname zone recordType target ttl wildcard =
     (let normalized = ToUpper (TrimSpace recordType);
          deleteTypes = (if normalized = ''A'' \<or> normalized = ''AAAA'' then [''A'', ''AAAA''] else [recordType])
      in ''server '' @ server @ [nl] @
         ''zone '' @ zone @ [nl] @
         concat (map (\<lambda>deleteType.
           ''update delete '' @ hostname @ ''.'' @ zone @ '' '' @ deleteType @ [nl] @
           (if wildcard then ''update delete *.'' @ hostname @ ''.'' @ zone @ '' '' @ deleteType @ [nl] else [])) deleteTypes) @
         ''update add '' @ hostname @ ''.'' @ zone @ '' '' @ int_string ttl @ '' '' @ recordType @ '' '' @ target @ [nl] @
         (if wildcard then
            ''update add *.'' @ hostname @ ''.'' @ zone @ '' '' @ int_string ttl @ '' '' @ recordType @ '' '' @ target @ [nl]
          else []) @
         ''send'' @ [nl])"

definition buildDeleteScript :: "string \<Rightarrow> string \<Rightarrow> string \<Rightarrow> string \<Rightarrow> bool \<Rightarrow> string" where
  "buildDeleteScript server hostname zone recordType wildcard =
     ''server '' @ server @ [nl] @
     ''zone '' @ zone @ [nl] @
     ''update delete '' @ hostname @ ''.'' @ zone @ '' '' @ recordType @ [nl] @
     (if wildcard then ''update delete *.'' @ hostname @ ''.'' @ zone @ '' '' @ recordType @ [nl] else []) @
     ''send'' @ [nl]"

definition nsupdate_run :: "env \<Rightarrow> string \<Rightarrow> (world, string, unit) op" where
  "nsupdate_run env script = (\<lambda>w.
     (case nsupdate_error env (w_ticks w) script of
        Some msg \<Rightarrow> (Inl msg, tick w)
      | None \<Rightarrow> (Inr (), (tick w)\<lparr>w_dns := w_dns w @ [script]\<rparr>)))"

definition Upsert :: "env \<Rightarrow> string \<Rightarrow> string \<Rightarrow> string \<Rightarrow> string \<Rightarrow> string \<Rightarrow> int \<Rightarrow> bool \<Rightarrow> (world, string, unit) op" where
  "Upsert env server hostname zone recordType target ttl wildcard =
     nsupdate_run env (buildUpsertScript server hostname zone recordType target ttl wildcard)"

definition DeleteRecord :: "env \<Rightarrow> string \<Rightarrow> string \<Rightarrow> string \<Rightarrow> string \<Rightarrow> bool \<Rightarrow> (world, string, unit) op" where
  "DeleteRecord env server hostname zone recordType wildcard =
     nsupdate_run env (buildDeleteScript server hostname zone recordType wildcard)"

section \<open>The commands of a script\<close>

text \<open>nsupdate reads a script line by line; the last line is the empty one after the final newline.\<close>

definition script_lines :: "string \<Rightarrow> string list" where
  "script_lines s = Split nl s"

definition upsert_lines :: "string \<Rightarrow> string \<Rightarrow> string \<Rightarrow> string \<Rightarrow> string \<Rightarrow> int \<Rightarrow> bool \<Rightarrow> string list" where
  "upsert_lines server hostname zone recordType target ttl wildcard =
     (let fqdn = hostname @ ''.'' @ zone;
          names = fqdn # (if wildcard then [''*.'' @ fqdn] else []);
          types = (if ToUpper (TrimSpace recordType) \<in> {''A'', ''AAAA''} then [''A'', ''AAAA''] else [recordType])
      in [''server '' @ server, ''zone '' @ zone] @
         concat (map (\<lambda>t. map (\<lambda>n. ''update delete '' @ n @ '' '' @ t) names) types) @
         map (\<lambda>n. ''update add '' @ n @ '' '' @ int_string ttl @ '' '' @ recordType @ '' '' @ target) names @
         [''send''])"

lemma script_of_lines: "buildUpsertScript server hostname zone recordType target ttl wildcard =
    concat (map (\<lambda>l. l @ [nl]) (upsert_lines server hostname zone recordType target ttl wildcard))"
  by (simp add: buildUpsertScript_def upsert_lines_def Let_def)

lemma Split_lines: "\<forall>l \<in> set ls. sep \<notin> set l \<Longrightarrow> Split sep (concat (map (\<lambda>l. l @ [sep]) ls)) = ls @ [[]]"
  by (induction ls) (simp_all add: Split_sep)

lemma int_string_chars: "c \<in> set (int_string i) \<Longrightarrow> is_digit c \<or> c = CHR ''-''"
  by (auto simp: int_string_def dest: dec_string_no_dot split: if_splits)

lemma nl_not_int: "nl \<notin> set (int_string i)"
  using int_string_chars [of nl i] by (auto simp: is_digit_def)



end
