(* ===== verification/Hermes_Security.thy ===== *)
theory Hermes_Security
  imports Hermes_Store
begin

text \<open>
  \<open>internal/security/apikey.go\<close>: generation, parsing and verification of the three
  kinds of API keys, with the hexadecimal and unpadded URL-safe base64 codecs of Go's
  standard library. A byte string is a character list. The hash is the environment's
  \<open>sha256\<close>; a key is compared by the hexadecimal form of its hash.
\<close>

section \<open>Hexadecimal\<close>

definition hex_char :: "nat \<Rightarrow> char" where
  "hex_char n = (if n < 10 then char_of (48 + n) else char_of (87 + n))"

definition hex_val :: "char \<Rightarrow> nat option" where
  "hex_val c = (let n = (of_char c :: nat) in
     if 48 \<le> n \<and> n \<le> 57 then Some (n - 48)
     else if 97 \<le> n \<and> n \<le> 102 then Some (n - 87)
     else if 65 \<le> n \<and> n \<le> 70 then Some (n - 55)
     else None)"

fun hex_encode :: "string \<Rightarrow> string" where
  "hex_encode [] = []"
| "hex_encode (b # bs) =
     (let n = (of_char b :: nat) in hex_char (n div 16) # hex_char (n mod 16) # hex_encode bs)"

fun hex_decode :: "string \<Rightarrow> string option" where
  "hex_decode [] = Some []"
| "hex_decode [c] = None"
| "hex_decode (c # d # s) =
     (case (hex_val c, hex_val d) of
        (Some x, Some y) \<Rightarrow> map_option ((#) (char_of (16 * x + y))) (hex_decode s)
      | _ \<Rightarrow> None)"

section \<open>Base64, URL alphabet, no padding\<close>

definition b64_char :: "nat \<Rightarrow> char" where
  "b64_char v =
     (if v < 26 then char_of (65 + v)
      else if v < 52 then char_of (71 + v)
      else if v < 62 then char_of (v - 4)
      else if v = 62 then CHR ''-'' else CHR ''_'')"

definition b64_val :: "char \<Rightarrow> nat option" where
  "b64_val c = (let n = (of_char c :: nat) in
     if 65 \<le> n \<and> n \<le> 90 then Some (n - 65)
     else if 97 \<le> n \<and> n \<le> 122 then Some (n - 71)
     else if 48 \<le> n \<and> n \<le> 57 then Some (n + 4)
     else if n = 45 then Some 62
     else if n = 95 then Some 63
     else None)"

fun b64_sextets :: "nat list \<Rightarrow> nat list" where
  "b64_sextets [] = []"
| "b64_sextets [x] = [x div 4, (x mod 4) * 16]"
| "b64_sextets [x, y] = [x div 4, (x mod 4) * 16 + y div 16, (y mod 16) * 4]"
| "b64_sextets (x # y # z # r) =
     x div 4 # ((x mod 4) * 16 + y div 16) # ((y mod 16) * 4 + z div 64) # z mod 64 # b64_sextets r"

fun b64_octets :: "nat list \<Rightarrow> nat list option" where
  "b64_octets [] = Some []"
| "b64_octets [a] = None"
| "b64_octets [a, b] = Some [a * 4 + b div 16]"
| "b64_octets [a, b, c] = Some [a * 4 + b div 16, (b mod 16) * 16 + c div 4]"
| "b64_octets (a # b # c # d # r) =
     map_option (\<lambda>xs. (a * 4 + b div 16) # ((b mod 16) * 16 + c div 4) # ((c mod 4) * 64 + d) # xs)
       (b64_octets r)"

definition b64_encode :: "string \<Rightarrow> string" where
  "b64_encode bs = map b64_char (b64_sextets (map of_char bs))"

text \<open>The decoder of the standard library skips carriage returns and line feeds.\<close>

definition is_newline :: "char \<Rightarrow> bool" where
  "is_newline c \<longleftrightarrow> (of_char c :: nat) = 10 \<or> (of_char c :: nat) = 13"

fun b64_vals :: "string \<Rightarrow> nat list option" where
  "b64_vals [] = Some []"
| "b64_vals (c # s) =
     (if is_newline c then b64_vals s
      else (case b64_val c of None \<Rightarrow> None | Some v \<Rightarrow> map_option ((#) v) (b64_vals s)))"

definition b64_decode :: "string \<Rightarrow> string option" where
  "b64_decode s = (case b64_vals s of None \<Rightarrow> None | Some vs \<Rightarrow> map_option (map char_of) (b64_octets vs))"

section \<open>API keys\<close>

definition ddnsKeyPrefix :: string where "ddnsKeyPrefix = ''hddns_''"
definition agentKeyPrefix :: string where "agentKeyPrefix = ''hagent_''"
definition enrollmentKeyPrefix :: string where "enrollmentKeyPrefix = ''henroll_''"

record generated_key =
  gk_ID :: string
  gk_Plaintext :: string
  gk_Hash :: string

definition HashAPIKey :: "env \<Rightarrow> string \<Rightarrow> string" where
  "HashAPIKey env key = hex_encode (sha256 env key)"

definition VerifyAPIKey :: "env \<Rightarrow> string \<Rightarrow> string \<Rightarrow> bool" where
  "VerifyAPIKey env plain expectedHash =
     (let actual = HashAPIKey env plain in
      if length actual \<noteq> length expectedHash then False else actual = expectedHash)"

definition read_random :: "env \<Rightarrow> nat \<Rightarrow> string dbop" where
  "read_random env n = (\<lambda>w. case rand_read env (w_ticks w) n of
     None \<Rightarrow> (Inl RandError, tick w) | Some bs \<Rightarrow> (Inr bs, tick w))"

definition generateKey :: "env \<Rightarrow> string \<Rightarrow> generated_key dbop" where
  "generateKey env pfx =
     bindE (read_random env 8) (\<lambda>idRaw.
     bindE (read_random env 32) (\<lambda>secretRaw.
     (let i = hex_encode idRaw; secret = b64_encode secretRaw; plain = pfx @ i @ ''.'' @ secret
      in ret \<lparr>gk_ID = i, gk_Plaintext = plain, gk_Hash = HashAPIKey env plain\<rparr>)))"

definition GenerateDDNSKey :: "env \<Rightarrow> generated_key dbop" where
  "GenerateDDNSKey env = generateKey env ddnsKeyPrefix"

definition GenerateAgentKey :: "env \<Rightarrow> generated_key dbop" where
  "GenerateAgentKey env = generateKey env agentKeyPrefix"

definition GenerateEnrollmentKey :: "env \<Rightarrow> generated_key dbop" where
  "GenerateEnrollmentKey env = generateKey env enrollmentKeyPrefix"

definition GenerateAPIKey :: "env \<Rightarrow> generated_key dbop" where
  "GenerateAPIKey env = GenerateDDNSKey env"

definition parseKeyID :: "string \<Rightarrow> string \<Rightarrow> string option" where
  "parseKeyID key pfx =
     (if \<not> HasPrefix key pfx then None
      else (case SplitN2 CHR ''.'' (TrimPrefix key pfx) of
              [p0, p1] \<Rightarrow>
                (let i = ToLower p0 in
                 if length i \<noteq> 16 then None
                 else if hex_decode i = None then None
                 else (case b64_decode p1 of
                         None \<Rightarrow> None
                       | Some secret \<Rightarrow> if length secret \<noteq> 32 then None else Some i))
            | _ \<Rightarrow> None))"

definition ParseAgentKeyID :: "string \<Rightarrow> string option" where
  "ParseAgentKeyID key = parseKeyID key agentKeyPrefix"

definition ParseEnrollmentKeyID :: "string \<Rightarrow> string option" where
  "ParseEnrollmentKeyID key = parseKeyID key enrollmentKeyPrefix"

text \<open>\<open>rand.Read\<close> fills the whole buffer when it returns no error.\<close>

definition rand_fills :: "env \<Rightarrow> bool" where
  "rand_fills env \<longleftrightarrow> (\<forall>k n bs. rand_read env k n = Some bs \<longrightarrow> length bs = n)"

section \<open>Codecs\<close>

text \<open>
  What key generation and parsing need of a codec: decoding inverts encoding, and the
  separator of a key never occurs in an encoded part.
\<close>

locale key_codec =
  fixes enc :: "string \<Rightarrow> string"
    and dec :: "string \<Rightarrow> string option"
  assumes dec_enc: "dec (enc bs) = Some bs"
    and no_sep: "CHR ''.'' \<notin> set (enc bs)"
begin

lemma enc_inj: "enc a = enc b \<Longrightarrow> a = b"
  by (metis dec_enc option.inject)

lemma split_at_sep: "SplitN2 CHR ''.'' (enc a @ ''.'' @ s) = [enc a, s]"
  using SplitN2_sep [OF no_sep] by simp

end

lemma hex_val_char: "n < 16 \<Longrightarrow> hex_val (hex_char n) = Some n"
  by (auto simp: hex_val_def hex_char_def Let_def of_char_of)

lemma hex_char_code: "n < 16 \<Longrightarrow> (of_char (hex_char n) :: nat) = (if n < 10 then 48 + n else 87 + n)"
  by (auto simp: hex_char_def of_char_of)

lemma high_nibble: "(of_char b :: nat) div 16 < 16"
  by (rule less_mult_imp_div_less) simp

lemma hex_decode_encode: "hex_decode (hex_encode bs) = Some bs"
proof (induction bs)
  case (Cons b bs)
  have "hex_val (hex_char ((of_char b :: nat) div 16)) = Some (of_char b div 16)"
    by (rule hex_val_char [OF high_nibble])
  with Cons show ?case by (simp add: Let_def hex_val_char)
qed simp

lemma hex_encode_chars: "c \<in> set (hex_encode bs) \<Longrightarrow> \<exists>n < 16. c = hex_char n"
proof (induction bs)
  case (Cons b bs)
  have "\<exists>n < 16. hex_char ((of_char b :: nat) mod 16) = hex_char n"
    by (rule exI [of _ "of_char b mod 16"]) simp
  with high_nibble [of b] Cons show ?case by (auto simp: Let_def)
qed simp

lemma length_hex_encode [simp]: "length (hex_encode bs) = 2 * length bs"
  by (induction bs) (auto simp: Let_def)

lemma lower_hex_char: "n < 16 \<Longrightarrow> lower_char (hex_char n) = hex_char n"
  by (auto simp: lower_char_def Let_def hex_char_code)

lemma ToLower_hex_encode [simp]: "ToLower (hex_encode bs) = hex_encode bs"
proof -
  have "map lower_char (hex_encode bs) = map (\<lambda>c. c) (hex_encode bs)"
    by (rule map_cong) (use hex_encode_chars lower_hex_char in auto)
  then show ?thesis by (simp add: ToLower_def)
qed

lemma hex_char_not_dot: "n < 16 \<Longrightarrow> CHR ''.'' \<noteq> hex_char n"
  by (auto dest!: arg_cong [where f = "of_char :: char \<Rightarrow> nat"] simp: hex_char_code split: if_splits)

interpretation hex: key_codec hex_encode hex_decode
  by unfold_locales (auto simp: hex_decode_encode dest!: hex_encode_chars dest: hex_char_not_dot)

lemma b64_val_char: "v < 64 \<Longrightarrow> b64_val (b64_char v) = Some v"
  by (auto simp: b64_val_def b64_char_def Let_def of_char_of)

lemma b64_char_code:
  "v < 64 \<Longrightarrow> (of_char (b64_char v) :: nat) =
     (if v < 26 then 65 + v else if v < 52 then 71 + v else if v < 62 then v - 4
      else if v = 62 then 45 else 95)"
  by (auto simp: b64_char_def of_char_of)

lemma b64_char_plain: "v < 64 \<Longrightarrow> \<not> is_newline (b64_char v) \<and> CHR ''.'' \<noteq> b64_char v"
proof -
  assume v: "v < 64"
  then have "(of_char (b64_char v) :: nat) \<noteq> 46 \<and> \<not> is_newline (b64_char v)"
    by (auto simp: is_newline_def b64_char_code)
  then show ?thesis by (auto dest!: arg_cong [where f = "of_char :: char \<Rightarrow> nat"])
qed

lemma b64_sextets_range: "\<forall>x \<in> set xs. x < 256 \<Longrightarrow> v \<in> set (b64_sextets xs) \<Longrightarrow> v < 64"
  by (induction xs rule: b64_sextets.induct) auto

lemma b64_octets_sextets: "\<forall>x \<in> set xs. x < 256 \<Longrightarrow> b64_octets (b64_sextets xs) = Some xs"
  by (induction xs rule: b64_sextets.induct) (auto simp: algebra_simps)

lemma b64_vals_chars: "\<forall>v \<in> set vs. v < 64 \<Longrightarrow> b64_vals (map b64_char vs) = Some vs"
  by (induction vs) (auto simp: b64_char_plain b64_val_char)

lemma bytes_range: "\<forall>x \<in> set (map of_char bs). x < (256 :: nat)"
  by simp

lemma b64_decode_encode: "b64_decode (b64_encode bs) = Some bs"
  using b64_vals_chars [of "b64_sextets (map of_char bs)"] b64_sextets_range [OF bytes_range]
    b64_octets_sextets [OF bytes_range, of bs]
  by (simp add: b64_decode_def b64_encode_def o_def)

interpretation b64: key_codec b64_encode b64_decode
  by (unfold_locales, rule b64_decode_encode)
    (auto simp: b64_encode_def dest!: b64_sextets_range [OF bytes_range] dest: b64_char_plain)

section \<open>Generated keys\<close>

lemma read_random_Inr [op_simps]:
  "read_random env n w = (Inr bs, w') \<longleftrightarrow> rand_read env (w_ticks w) n = Some bs \<and> w' = tick w"
  by (auto simp: read_random_def split: option.splits)

lemma generateKey_Inr:
  "generateKey env p w = (Inr k, w') \<longleftrightarrow>
     (\<exists>idRaw secretRaw.
        rand_read env (w_ticks w) 8 = Some idRaw \<and>
        rand_read env (Suc (w_ticks w)) 32 = Some secretRaw \<and>
        gk_ID k = hex_encode idRaw \<and>
        gk_Plaintext k = p @ hex_encode idRaw @ ''.'' @ b64_encode secretRaw \<and>
        gk_Hash k = HashAPIKey env (gk_Plaintext k) \<and> w' = tick (tick w))"
  by (auto simp: generateKey_def op_simps Let_def intro!: generated_key.equality)

lemma generateKey_db: "generateKey env p w = (r, w') \<Longrightarrow> w_db w' = w_db w"
  by (auto simp: generateKey_def bindE_def read_random_def Let_def split: option.splits)

lemma VerifyAPIKey_iff: "VerifyAPIKey env plain h \<longleftrightarrow> HashAPIKey env plain = h"
  by (auto simp: VerifyAPIKey_def Let_def)

lemma parse_concat:
  assumes "length a = 8" "length b = 32"
  shows "parseKeyID (p @ hex_encode a @ ''.'' @ b64_encode b) p = Some (hex_encode a)"
  using assms hex.split_at_sep [of a "b64_encode b"]
  by (simp add: parseKeyID_def Let_def hex.dec_enc b64.dec_enc)

lemma parse_prefix: "parseKeyID key p = Some i \<Longrightarrow> HasPrefix key p"
  by (auto simp: parseKeyID_def split: if_splits)

lemma generated_key_parses:
  assumes "rand_fills env" "generateKey env p w = (Inr k, w')"
  shows "parseKeyID (gk_Plaintext k) p = Some (gk_ID k)" "VerifyAPIKey env (gk_Plaintext k) (gk_Hash k)"
  using assms parse_concat by (auto simp: generateKey_Inr VerifyAPIKey_iff rand_fills_def)

text \<open>C17. A generated key parses back, under its own prefix, to the identifier that is stored with
  it, and verifies against the stored hash.\<close>

theorem generated_key_roundtrip:
  assumes "rand_fills env" "generateKey env p w = (Inr k, w')"
  shows "parseKeyID (gk_Plaintext k) p = Some (gk_ID k) \<and> VerifyAPIKey env (gk_Plaintext k) (gk_Hash k)"
  using generated_key_parses [OF assms] by simp

text \<open>The key namespaces are disjoint: no string is accepted both as an Agent key and as an
  enrollment key, and a DDNS key is accepted as neither.\<close>

theorem key_namespaces_disjoint:
  "\<not> (ParseAgentKeyID key \<noteq> None \<and> ParseEnrollmentKeyID key \<noteq> None)
   \<and> ParseAgentKeyID (ddnsKeyPrefix @ s) = None \<and> ParseEnrollmentKeyID (ddnsKeyPrefix @ s) = None"
  by (auto simp: ParseAgentKeyID_def ParseEnrollmentKeyID_def agentKeyPrefix_def
      enrollmentKeyPrefix_def ddnsKeyPrefix_def HasPrefix_iff parseKeyID_def dest!: parse_prefix)

end
