(* ===== verification/Hermes_Demo.thy ===== *)
theory Hermes_Demo
  imports Hermes_Security
begin

text \<open>
  One concrete environment, in which the instances of the properties are evaluated: no
  statement fails, the clock advances one second per interaction, the random source
  returns bytes that depend on the interaction, and the hash of a string is a padded and
  cut copy of it.
\<close>

definition demo_sha256 :: "string \<Rightarrow> string" where
  "demo_sha256 s = take 32 (s @ replicate 32 (CHR ''#''))"

definition demo_env :: env where
  "demo_env =
     \<lparr>stmt_fault = \<lambda>_. False, clock = \<lambda>n. int n * 1000000000,
      rand_read = \<lambda>n len. Some (map (\<lambda>i. char_of (n + i)) [0..<len]),
      sha256 = demo_sha256, nsupdate_error = \<lambda>_ _. None\<rparr>"

lemma demo_no_faults: "no_faults demo_env"
  by (simp add: no_faults_def demo_env_def)

lemma demo_clock [simp]: "clock demo_env n = int n * 1000000000"
  by (simp add: demo_env_def)

definition demo_device :: device where
  "demo_device = \<lparr>dev_ID = 1, dev_Name = ''nas'', dev_DisplayName = ''NAS'', dev_Type = ''nas'',
     dev_Status = ''active'', dev_LastSeenAt = None, dev_LastIP = [], dev_AgentVersion = []\<rparr>"

text \<open>A world that holds one active device and nothing else.\<close>

definition demo_base :: world where
  "demo_base = initial_world\<lparr>w_db := empty_database\<lparr>devices := \<lparr>tbl_rows = [demo_device], tbl_seq = 1\<rparr>\<rparr>\<rparr>"

lemma demo_base_simps [simp]:
  "w_ticks demo_base = 0" "devices (w_db demo_base) = \<lparr>tbl_rows = [demo_device], tbl_seq = 1\<rparr>"
  "identities (w_db demo_base) = empty_table" "enrollments (w_db demo_base) = empty_table"
  "telemetries (w_db demo_base) = empty_table" "netsnaps (w_db demo_base) = empty_table"
  "wans (w_db demo_base) = empty_table" "segments (w_db demo_base) = empty_table"
  "creds (w_db demo_base) = empty_table" "rotations (w_db demo_base) = empty_table"
  "hosts (w_db demo_base) = empty_table" "domains (w_db demo_base) = empty_table" "logs (w_db demo_base) = empty_table"
  by (simp_all add: demo_base_def initial_world_def empty_database_def)

lemma demo_fills: "rand_fills demo_env"
  by (auto simp: rand_fills_def demo_env_def)

lemma demo_wf_devices: "wf_table dev_ID (devices (w_db demo_base))"
  by (simp add: wf_table_def demo_device_def)

theorem generated_key_roundtrip_witness:
  "\<exists>k w'. generateKey demo_env ''hagent_'' initial_world = (Inr k, w') \<and>
     parseKeyID (gk_Plaintext k) ''hagent_'' = Some (gk_ID k) \<and> VerifyAPIKey demo_env (gk_Plaintext k) (gk_Hash k)"
proof -
  obtain k w' where k: "generateKey demo_env ''hagent_'' initial_world = (Inr k, w')"
    by (simp add: generateKey_def bindE_def read_random_def Let_def demo_env_def)
  from generated_key_roundtrip [OF demo_fills k] k show ?thesis by blast
qed

end
