(* ===== verification/Hermes_DDNS.thy ===== *)
theory Hermes_DDNS
  imports Hermes_DNS Hermes_Demo
begin

text \<open>
  \<open>internal/ddns/service.go\<close>: the authentication of a DDNS client and the update of a host
  record. A log entry, and the sightings of the device and the host, are written with the
  error ignored (\<open>_ = ...\<close>), which is \<open>attempt\<close>. gorm saves the associated domain of a host
  with \<open>ON CONFLICT DO NOTHING\<close>, which changes no row and is left out; the query of the
  \<open>Preload\<close> is a statement of its own.
\<close>

record ddns_service =
  sv_Server :: string
  sv_AllowedDomains :: "string list"
  sv_DefaultTTL :: int
  sv_AllowWildcard :: bool
  sv_AutocreatePolicy :: string

record auth_context =
  ac_Device :: device
  ac_Credential :: ddns_credential

record ddns_result =
  rs_Code :: string
  rs_IP :: string
  rs_Changed :: bool
  rs_Created :: bool
  rs_Host :: host

definition attempt :: "('w, 'e, 'a) op \<Rightarrow> ('w, 'f, unit) op" where
  "attempt m = (\<lambda>w. (Inr (), snd (m w)))"

section \<open>Authentication\<close>

definition usable_credential :: "env \<Rightarrow> time \<Rightarrow> string \<Rightarrow> ddns_credential \<Rightarrow> bool" where
  "usable_credential env t apiKey cred \<longleftrightarrow>
     \<not> has_expired (cr_ExpiresAt cred) t \<and>
     \<not> (cr_Status cred = CGrace \<and> (case cr_GraceUntil cred of None \<Rightarrow> True | Some u \<Rightarrow> \<not> u > t)) \<and>
     VerifyAPIKey env apiKey (cr_SecretHash cred)"

fun authenticate_loop ::
  "env \<Rightarrow> time \<Rightarrow> string \<Rightarrow> string \<Rightarrow> device \<Rightarrow> ddns_credential list \<Rightarrow> auth_context dbop" where
  "authenticate_loop env t apiKey callerIP device [] = raise (ErrDDNS DErrBadAuth)"
| "authenticate_loop env t apiKey callerIP device (cred # cs) =
     (if \<not> usable_credential env t apiKey cred then authenticate_loop env t apiKey callerIP device cs
      else
        bindE (updates env creds creds_update (\<lambda>c. cr_ID c = cr_ID cred)
                (\<lambda>c. c\<lparr>cr_LastUsedAt := Some t, cr_LastUsedIP := callerIP\<rparr>)) (\<lambda>_.
        ret \<lparr>ac_Device = device, ac_Credential = cred\<lparr>cr_LastUsedAt := Some t, cr_LastUsedIP := callerIP\<rparr>\<rparr>))"

definition AuthenticateDDNS :: "env \<Rightarrow> string \<Rightarrow> string \<Rightarrow> string \<Rightarrow> auth_context dbop" where
  "AuthenticateDDNS env username apiKey callerIP =
     bindE (errTo (ErrDDNS DErrBadAuth)
             (first env devices (\<lambda>d. dev_Name d = username \<and> dev_Status d = ''active''))) (\<lambda>found.
     bindE (orFail (ErrDDNS DErrBadAuth) found) (\<lambda>device.
     bindE (now env) (\<lambda>t.
     bindE (errTo (ErrDDNS DErrBadAuth)
             (select env creds (\<lambda>c. cr_DeviceID c = dev_ID device \<and> cr_Status c \<in> {CActive, CGrace}))) (\<lambda>cs.
     authenticate_loop env t apiKey callerIP device cs))))"

section \<open>Host names\<close>

definition normal_zone :: "string \<Rightarrow> string" where
  "normal_zone s = TrimSuffix (ToLower (TrimSpace s)) ''.''"

fun split_loop :: "string \<Rightarrow> string list \<Rightarrow> (string \<times> string) option" where
  "split_loop fqdn [] = None"
| "split_loop fqdn (z # zs) =
     (let zone = normal_zone z; suffix = ''.'' @ zone in
      if HasSuffix fqdn suffix then
        (let label = TrimSuffix fqdn suffix in
         if label = [] \<or> CHR ''.'' \<in> set label then None else Some (label, zone))
      else split_loop fqdn zs)"

definition splitManagedFQDN :: "ddns_service \<Rightarrow> string \<Rightarrow> (string \<times> string) option" where
  "splitManagedFQDN sv fqdn = split_loop (normal_zone fqdn) (sv_AllowedDomains sv)"

definition canAutocreate :: "ddns_service \<Rightarrow> string \<Rightarrow> string \<Rightarrow> bool" where
  "canAutocreate sv deviceName hostLabel =
     (if sv_AutocreatePolicy sv = ''any'' then True
      else (let base = ToLower (TrimSpace deviceName); label = ToLower (TrimSpace hostLabel)
            in label = base \<or> HasPrefix label (base @ ''-'')))"

section \<open>The update of a host\<close>

definition writeLog ::
  "env \<Rightarrow> auth_context \<Rightarrow> host option \<Rightarrow> string \<Rightarrow> string \<Rightarrow> string \<Rightarrow> string \<Rightarrow> string \<Rightarrow> string \<Rightarrow> string \<Rightarrow> time
   \<Rightarrow> unit dbop" where
  "writeLog env auth h operation status response message sentIP callerIP userAgent requestedAt =
     bindE (now env) (\<lambda>completed.
     attempt (create env logs logs_update (\<lambda>_ _. False) (\<lambda>i ct.
       \<lparr>log_ID = i, log_CreatedAt = ct, log_DeviceID = dev_ID (ac_Device auth),
        log_HostID = (case h of None \<Rightarrow> None | Some x \<Rightarrow> if host_ID x \<noteq> 0 then Some (host_ID x) else None),
        log_CredentialID = Some (cr_ID (ac_Credential auth)), log_Operation = operation, log_Status = status,
        log_ResponseCode = response, log_Message = message, log_SentIP = sentIP, log_CallerIP = callerIP,
        log_UserAgent = userAgent, log_RequestedAt = requestedAt, log_CompletedAt = completed\<rparr>)))"

text \<open>The managed domain of the zone, created on first use.\<close>

definition ensure_domain :: "env \<Rightarrow> ddns_service \<Rightarrow> string \<Rightarrow> domain dbop" where
  "ensure_domain env sv zone =
     bindE (first env domains (\<lambda>d. dom_Name d = zone \<and> dom_Enabled d)) (\<lambda>found.
     (case found of
        Some d \<Rightarrow> ret d
      | None \<Rightarrow> create env domains domains_update (\<lambda>d d'. dom_Name d = dom_Name d') (\<lambda>i _.
          \<lparr>dom_ID = i, dom_Name = zone, dom_DefaultTTL = sv_DefaultTTL sv, dom_Enabled = True,
           dom_Wildcard = sv_AllowWildcard sv\<rparr>)))"

definition not_authorized_message :: "string \<Rightarrow> string \<Rightarrow> string" where
  "not_authorized_message device fqdn = ''device '' @ device @ '' is not authorized to auto-create hostname '' @ fqdn"

definition foreign_message :: "string \<Rightarrow> string" where
  "foreign_message fqdn = ''hostname '' @ fqdn @ '' belongs to another device''"

text \<open>
  The host the update is about: the row and whether it is new; \<open>Preload\<close> reads the domain
  of a row that was found.
\<close>

definition find_host ::
  "env \<Rightarrow> ddns_service \<Rightarrow> auth_context \<Rightarrow> domain \<Rightarrow> string \<Rightarrow> string \<Rightarrow> string \<Rightarrow> string \<Rightarrow> string \<Rightarrow> string \<Rightarrow> time
   \<Rightarrow> (host \<times> bool) dbop" where
  "find_host env sv auth domain hostLabel fqdn recordType ip callerIP userAgent requestedAt =
     bindE (first env hosts (\<lambda>h. host_DomainID h = dom_ID domain \<and> host_Hostname h = hostLabel)) (\<lambda>found.
     (case found of
        None \<Rightarrow>
          if \<not> canAutocreate sv (dev_Name (ac_Device auth)) hostLabel then
            bindE (writeLog env auth None ''reject'' ''error'' ''badauth''
                    (not_authorized_message (dev_Name (ac_Device auth)) fqdn)
                    ip callerIP userAgent requestedAt) (\<lambda>_.
            raise (ErrDDNS DErrBadAuth))
          else
            ret (\<lparr>host_ID = 0, host_DomainID = dom_ID domain, host_DeviceID = dev_ID (ac_Device auth),
                  host_Hostname = hostLabel, host_IPAddress = [], host_RecordType = recordType,
                  host_TTL = dom_DefaultTTL domain, host_Status = ''active'', host_LastUpdate = 0\<rparr>, True)
      | Some h \<Rightarrow>
          bindE (select env domains (\<lambda>d. dom_ID d = host_DomainID h)) (\<lambda>_.
          if host_DeviceID h \<noteq> dev_ID (ac_Device auth) then
            bindE (writeLog env auth (Some h) ''reject'' ''error'' ''badauth''
                    (foreign_message fqdn) ip callerIP userAgent requestedAt) (\<lambda>_.
            raise (ErrDDNS DErrBadAuth))
          else ret (h, False))))"

definition see_device :: "env \<Rightarrow> auth_context \<Rightarrow> time \<Rightarrow> string \<Rightarrow> unit dbop" where
  "see_device env auth t ip =
     attempt (updates env devices devices_update (\<lambda>d. dev_ID d = dev_ID (ac_Device auth))
       (\<lambda>d. d\<lparr>dev_LastSeenAt := Some t, dev_LastIP := ip\<rparr>))"

definition store_host :: "env \<Rightarrow> bool \<Rightarrow> host \<Rightarrow> host dbop" where
  "store_host env created h =
     (if created
      then create env hosts hosts_update
             (\<lambda>h h'. host_DomainID h = host_DomainID h' \<and> host_Hostname h = host_Hostname h') (\<lambda>i _. h\<lparr>host_ID := i\<rparr>)
      else bindE (updates env hosts hosts_update (\<lambda>r. host_ID r = host_ID h) (\<lambda>_. h)) (\<lambda>_. ret h))"

definition no_change ::
  "env \<Rightarrow> auth_context \<Rightarrow> host \<Rightarrow> string \<Rightarrow> string \<Rightarrow> string \<Rightarrow> time \<Rightarrow> ddns_result dbop" where
  "no_change env auth h ip callerIP userAgent requestedAt =
     bindE (now env) (\<lambda>t.
     (let h = h\<lparr>host_LastUpdate := t\<rparr> in
      bindE (see_device env auth t ip) (\<lambda>_.
      bindE (attempt (updates env hosts hosts_update (\<lambda>r. host_ID r = host_ID h) (\<lambda>r. r\<lparr>host_LastUpdate := t\<rparr>))) (\<lambda>_.
      bindE (writeLog env auth (Some h) ''no_change'' ''success'' ''nochg'' ''IP address unchanged'' ip callerIP userAgent
              requestedAt) (\<lambda>_.
      ret \<lparr>rs_Code = ''nochg'', rs_IP = ip, rs_Changed = False, rs_Created = False, rs_Host = h\<rparr>)))))"

definition publish ::
  "env \<Rightarrow> ddns_service \<Rightarrow> auth_context \<Rightarrow> domain \<Rightarrow> string \<Rightarrow> string \<Rightarrow> host \<Rightarrow> bool \<Rightarrow> string \<Rightarrow> string \<Rightarrow> string \<Rightarrow> string \<Rightarrow> time
   \<Rightarrow> ddns_result dbop" where
  "publish env sv auth domain hostLabel zone h created recordType ip callerIP userAgent requestedAt = (\<lambda>w.
     (case Upsert env (sv_Server sv) hostLabel zone recordType ip (host_TTL h) (dom_Wildcard domain) w of
        (Inl msg, w1) \<Rightarrow>
          bindE (writeLog env auth (Some h) ''dns_update'' ''error'' ''dnserr'' msg ip callerIP userAgent requestedAt) (\<lambda>_.
          raise DNSError) w1
      | (Inr _, w1) \<Rightarrow>
          bindE (now env) (\<lambda>t.
          bindE (store_host env created (h\<lparr>host_IPAddress := ip, host_RecordType := recordType, host_LastUpdate := t\<rparr>)) (\<lambda>h.
          bindE (see_device env auth t ip) (\<lambda>_.
          bindE (writeLog env auth (Some h) (if created then ''create'' else ''update'') ''success'' ''good''
                  ''DNS record updated'' ip callerIP userAgent requestedAt) (\<lambda>_.
          ret \<lparr>rs_Code = ''good'', rs_IP = ip, rs_Changed = True, rs_Created = created, rs_Host = h\<rparr>)))) w1))"

definition update_host ::
  "env \<Rightarrow> ddns_service \<Rightarrow> auth_context \<Rightarrow> domain \<Rightarrow> string \<Rightarrow> string \<Rightarrow> string \<Rightarrow> string \<Rightarrow> string \<Rightarrow> string \<Rightarrow> string \<Rightarrow> time
   \<Rightarrow> ddns_result dbop" where
  "update_host env sv auth domain hostLabel zone fqdn recordType ip callerIP userAgent requestedAt =
     bindE (find_host env sv auth domain hostLabel fqdn recordType ip callerIP userAgent requestedAt) (\<lambda>(h, created).
     if \<not> created \<and> host_IPAddress h = ip \<and> host_RecordType h = recordType
     then no_change env auth h ip callerIP userAgent requestedAt
     else publish env sv auth domain hostLabel zone h created recordType ip callerIP userAgent requestedAt)"

definition UpdateDDNS ::
  "env \<Rightarrow> ddns_service \<Rightarrow> auth_context \<Rightarrow> string \<Rightarrow> string \<Rightarrow> string \<Rightarrow> string \<Rightarrow> ddns_result dbop" where
  "UpdateDDNS env sv auth fqdn requestedIP callerIP userAgent =
     bindE (now env) (\<lambda>requestedAt.
     (case splitManagedFQDN sv fqdn of
        None \<Rightarrow>
          bindE (writeLog env auth None ''reject'' ''error'' ''notfqdn'' ''hostname is not a managed FQDN'' requestedIP callerIP
                  userAgent requestedAt) (\<lambda>_.
          raise (ErrDDNS DErrNotFQDN))
      | Some (hostLabel, zone) \<Rightarrow>
          (let ip0 = (if TrimSpace requestedIP = [] then callerIP else TrimSpace requestedIP) in
           (case ParseIP ip0 of
              None \<Rightarrow>
                bindE (writeLog env auth None ''reject'' ''error'' ''badagent'' ''invalid IP address'' ip0 callerIP userAgent
                        requestedAt) (\<lambda>_.
                raise (ErrDDNS DErrBadIP))
            | Some parsed \<Rightarrow>
                (let recordType = (if Is4 parsed then ''A'' else ''AAAA''); ip = ip_string parsed in
                 bindE (ensure_domain env sv zone) (\<lambda>domain.
                 update_host env sv auth domain hostLabel zone fqdn recordType ip callerIP userAgent requestedAt))))))"

section \<open>Effects\<close>

lemma attempt_run: "attempt m w = (Inr (), snd (m w))"
  by (simp add: attempt_def)

lemma create_frame:
  "\<exists>f. w_db (snd (create env get upd clash mk w)) = w_db w \<or> w_db (snd (create env get upd clash mk w)) = upd f (w_db w)"
  by (auto simp: create_def stmt_def Let_def)

lemma create_dns [simp]: "w_dns (snd (create env get upd clash mk w)) = w_dns w"
  by (simp add: create_def stmt_def Let_def)

lemma updates_frame:
  "w_db (snd (updates env get upd P f w)) = w_db w \<or> w_db (snd (updates env get upd P f w)) = upd (upd_rows P f) (w_db w)"
  by (auto simp: updates_def stmt_def)

lemma updates_dns [simp]: "w_dns (snd (updates env get upd P f w)) = w_dns w"
  by (simp add: updates_def stmt_def)

lemma world_same [simp]: "w_db v = d \<Longrightarrow> v\<lparr>w_db := d\<rparr> = v" for v :: world
  by auto

text \<open>One statement of a sequence, with the failure of the driver.\<close>

lemma bindE_now: "bindE (now env) k w = k (clock env (w_ticks w)) (tick w)"
  by (simp add: bindE_def now_def)

lemma bindE_first: "bindE (first env get P) k w =
    (if stmt_fault env (w_ticks w) then (Inl DBError, tick w) else k (find P (tbl_rows (get (w_db w)))) (tick w))"
  by (simp add: bindE_def first_def stmt_def)

lemma bindE_select: "bindE (select env get P) k w =
    (if stmt_fault env (w_ticks w) then (Inl DBError, tick w) else k (filter P (tbl_rows (get (w_db w)))) (tick w))"
  by (simp add: bindE_def select_def stmt_def)

lemma bindE_attempt [simp]: "bindE (attempt m) f w = f () (snd (m w))"
  by (simp add: bindE_def attempt_def)

text \<open>A log entry and a sighting cannot fail, and change nothing but the log and the device.\<close>

definition see_row :: "auth_context \<Rightarrow> time \<Rightarrow> string \<Rightarrow> device table \<Rightarrow> device table" where
  "see_row auth t ip = upd_rows (\<lambda>d. dev_ID d = dev_ID (ac_Device auth)) (\<lambda>d. d\<lparr>dev_LastSeenAt := Some t, dev_LastIP := ip\<rparr>)"

definition logged :: "world \<Rightarrow> world \<Rightarrow> bool" where
  "logged w w' \<longleftrightarrow> w_dns w' = w_dns w \<and> (\<exists>f. w_db w' = w_db w \<or> w_db w' = logs_update f (w_db w))"

lemma bindE_writeLog: "bindE (writeLog env auth h op st resp msg ip cip ua t) k w =
    k () (snd (writeLog env auth h op st resp msg ip cip ua t w))"
  by (simp add: writeLog_def bindE_assoc bindE_now attempt_run)

lemma writeLog_logged: "logged w (snd (writeLog env auth h op st resp msg ip cip ua t w))"
  using create_frame [of env logs logs_update "\<lambda>_ _. False" _ "tick w"]
  by (auto simp: writeLog_def logged_def bindE_now attempt_run)

lemma bindE_see_device: "bindE (see_device env auth t ip) k w = k () (snd (see_device env auth t ip w))"
  by (simp add: see_device_def attempt_run)

lemma see_device_effect:
  "w_dns (snd (see_device env auth t ip w)) = w_dns w \<and>
   (w_db (snd (see_device env auth t ip w)) = w_db w \<or>
    w_db (snd (see_device env auth t ip w)) = devices_update (see_row auth t ip) (w_db w))"
  using updates_frame [of env devices devices_update "\<lambda>d. dev_ID d = dev_ID (ac_Device auth)"
      "\<lambda>d. d\<lparr>dev_LastSeenAt := Some t, dev_LastIP := ip\<rparr>" w]
  by (simp add: see_device_def see_row_def attempt_run)

lemma loggedD:
  assumes "logged w w'"
  shows "w_dns w' = w_dns w" "hosts (w_db w') = hosts (w_db w)" "domains (w_db w') = domains (w_db w)"
    "devices (w_db w') = devices (w_db w)" "creds (w_db w') = creds (w_db w)" "rotations (w_db w') = rotations (w_db w)"
    "identities (w_db w') = identities (w_db w)" "enrollments (w_db w') = enrollments (w_db w)"
  using assms by (auto simp: logged_def)

text \<open>What all of an update may touch: hosts, domains, sightings, the log, and the DNS.\<close>

definition ddns_frame :: "world \<Rightarrow> world \<Rightarrow> bool" where
  "ddns_frame w w' \<longleftrightarrow> creds (w_db w') = creds (w_db w) \<and> rotations (w_db w') = rotations (w_db w) \<and>
     identities (w_db w') = identities (w_db w) \<and> enrollments (w_db w') = enrollments (w_db w)"

text \<open>Rows of hosts: keys are unique, and so is a host name in its domain.\<close>

definition hosts_ok :: "database \<Rightarrow> bool" where
  "hosts_ok d \<longleftrightarrow> wf_table host_ID (hosts d) \<and>
     (\<forall>h \<in> set (tbl_rows (hosts d)). \<forall>h' \<in> set (tbl_rows (hosts d)).
        host_DomainID h = host_DomainID h' \<longrightarrow> host_Hostname h = host_Hostname h' \<longrightarrow> h = h')"

definition domains_ok :: "database \<Rightarrow> bool" where
  "domains_ok d \<longleftrightarrow> wf_table dom_ID (domains d) \<and>
     (\<forall>x \<in> set (tbl_rows (domains d)). \<forall>y \<in> set (tbl_rows (domains d)). dom_Name x = dom_Name y \<longrightarrow> x = y)"

interpretation dom_rows: db_table dom_ID domains domains_update
  by unfold_locales simp

lemma ensure_domain_effect:
  assumes "ensure_domain env sv zone w = (r, w')"
  shows "w_dns w' = w_dns w \<and> hosts (w_db w') = hosts (w_db w) \<and> devices (w_db w') = devices (w_db w) \<and> ddns_frame w w' \<and>
    (domains_ok (w_db w) \<longrightarrow> domains_ok (w_db w')) \<and>
    (\<forall>d. r = Inr d \<longrightarrow> dom_Name d = zone \<and> find (\<lambda>d. dom_Name d = zone \<and> dom_Enabled d) (tbl_rows (domains (w_db w'))) = Some d)"
proof -
  have app: "find P (xs @ [x]) = (case find P xs of None \<Rightarrow> if P x then Some x else None | Some y \<Rightarrow> Some y)" for P and xs :: "domain list" and x
    by (induction xs) auto
  show ?thesis
    using assms
    by (auto simp: ensure_domain_def bindE_def first_def create_def stmt_def Let_def ddns_frame_def domains_ok_def
        dom_rows.wf_ins list_ex_iff app dest: find_SomeD split: if_splits option.splits) blast
qed

text \<open>The host of the update is the device's own, or a new one.\<close>

lemma find_host_effect:
  assumes "find_host env sv auth domain hostLabel fqdn recordType ip callerIP userAgent t w = (r, w')"
  shows "logged w w' \<and>
    (\<forall>h created. r = Inr (h, created) \<longrightarrow> host_DomainID h = dom_ID domain \<and> host_Hostname h = hostLabel \<and>
       host_DeviceID h = dev_ID (ac_Device auth) \<and>
       find (\<lambda>h. host_DomainID h = dom_ID domain \<and> host_Hostname h = hostLabel) (tbl_rows (hosts (w_db w))) =
         (if created then None else Some h))"
proof -
  let ?P = "\<lambda>h. host_DomainID h = dom_ID domain \<and> host_Hostname h = hostLabel"
  have same: "logged w (tick w)" "logged w (tick (tick w))" by (simp_all add: logged_def)
  have more: "logged w w2" if "logged (tick w) w2" for w2 using that by (simp add: logged_def)
  have more2: "logged w w2" if "logged (tick (tick w)) w2" for w2 using that by (simp add: logged_def)
  show ?thesis
  proof (cases "find ?P (tbl_rows (hosts (w_db w)))")
    case None
    with assms same show ?thesis
      by (auto simp: find_host_def bindE_first bindE_writeLog intro: more writeLog_logged split: if_splits)
  next
    case (Some h)
    then have h: "?P h" by (auto dest: find_SomeD)
    with assms Some same show ?thesis
      by (auto simp: find_host_def bindE_first bindE_select bindE_writeLog intro: more2 writeLog_logged split: if_splits)
  qed
qed

section \<open>Hosts of other devices\<close>

text \<open>The rows that belong to another device than \<open>dv\<close> are the same.\<close>

definition others_kept :: "nat \<Rightarrow> database \<Rightarrow> database \<Rightarrow> bool" where
  "others_kept dv d d' \<longleftrightarrow>
     (\<forall>h. host_DeviceID h \<noteq> dv \<longrightarrow> h \<in> set (tbl_rows (hosts d')) \<longleftrightarrow> h \<in> set (tbl_rows (hosts d)))"

lemma others_kept_refl [simp]: "hosts d' = hosts d \<Longrightarrow> others_kept dv d d'"
  by (simp add: others_kept_def)

lemma hosts_ok_same: "hosts d' = hosts d \<Longrightarrow> hosts_ok d \<Longrightarrow> hosts_ok d'"
  by (simp add: hosts_ok_def)

lemma hosts_okD:
  assumes "hosts_ok d" "h \<in> set (tbl_rows (hosts d))" "h' \<in> set (tbl_rows (hosts d))"
  shows "host_ID h = host_ID h' \<longleftrightarrow> h = h'"
    and "host_DomainID h = host_DomainID h' \<and> host_Hostname h = host_Hostname h' \<longleftrightarrow> h = h'"
  using assms by (auto simp: hosts_ok_def wf_table_def distinct_map inj_on_def)

text \<open>Replacing one row by another version of it, and adding a row under a free name.\<close>

lemma host_replaced:
  assumes ok: "hosts_ok d" and h: "h \<in> set (tbl_rows (hosts d))" "host_DeviceID h = dv"
    and new: "host_ID h' = host_ID h" "host_DomainID h' = host_DomainID h" "host_Hostname h' = host_Hostname h"
      "host_DeviceID h' = host_DeviceID h" "f h = h'"
    and d': "hosts d' = upd_rows (\<lambda>r. host_ID r = host_ID h) f (hosts d)"
  shows "hosts_ok d'" and "others_kept dv d d'"
    and "set (tbl_rows (hosts d')) = insert h' (set (tbl_rows (hosts d)) - {h})"
proof -
  have rows: "tbl_rows (hosts d') = map (\<lambda>r. if r = h then h' else r) (tbl_rows (hosts d))"
    using hosts_okD(1) [OF ok _ h(1)] new(5) by (simp add: d')
  then show set: "set (tbl_rows (hosts d')) = insert h' (set (tbl_rows (hosts d)) - {h})"
    using h(1) by (auto simp: image_iff)
  have keys: "map host_ID (tbl_rows (hosts d')) = map host_ID (tbl_rows (hosts d))"
    unfolding rows using new(1) by simp
  have seq: "tbl_seq (hosts d') = tbl_seq (hosts d)" by (simp add: d')
  have "\<forall>r \<in> set (tbl_rows (hosts d')). 1 \<le> host_ID r \<and> host_ID r \<le> tbl_seq (hosts d)"
    unfolding set using ok h(1) new(1) by (auto simp: hosts_ok_def wf_table_def)
  then have wf: "wf_table host_ID (hosts d')"
    using keys seq ok by (simp add: hosts_ok_def wf_table_def)
  have "x = y" if "x \<in> set (tbl_rows (hosts d'))" "y \<in> set (tbl_rows (hosts d'))"
    "host_DomainID x = host_DomainID y" "host_Hostname x = host_Hostname y" for x y
    using that h(1) new(2,3) hosts_okD(2) [OF ok] unfolding set by (metis Diff_iff insert_iff)
  with wf show "hosts_ok d'" unfolding hosts_ok_def by blast
  show "others_kept dv d d'" using h new by (auto simp: others_kept_def set)
qed

lemma host_added:
  assumes ok: "hosts_ok d" and new: "host_ID h = Suc (tbl_seq (hosts d))" "host_DeviceID h = dv"
    "\<forall>r \<in> set (tbl_rows (hosts d)). \<not> (host_DomainID h = host_DomainID r \<and> host_Hostname h = host_Hostname r)"
    and d': "hosts d' = ins_row h (hosts d)"
  shows "hosts_ok d'" and "others_kept dv d d'"
proof -
  have "wf_table host_ID (hosts d')" using ok new(1) by (simp add: d' host_rows.wf_ins hosts_ok_def)
  then show "hosts_ok d'" using ok new(3) by (auto simp: hosts_ok_def d')
  show "others_kept dv d d'" using new by (auto simp: others_kept_def d')
qed

lemma store_host_effect:
  assumes run: "store_host env created h w = (r, w')" and ok: "hosts_ok (w_db w)" and dv: "host_DeviceID h = dv"
    and row: "\<not> created \<Longrightarrow> \<exists>h0 \<in> set (tbl_rows (hosts (w_db w))). host_ID h = host_ID h0 \<and> host_DomainID h = host_DomainID h0 \<and>
       host_Hostname h = host_Hostname h0 \<and> host_DeviceID h = host_DeviceID h0"
  shows "hosts_ok (w_db w')" "others_kept dv (w_db w) (w_db w')" "w_dns w' = w_dns w"
    "\<exists>f. w_db w' = w_db w \<or> w_db w' = hosts_update f (w_db w)"
    "r = Inr h' \<Longrightarrow> h' \<in> set (tbl_rows (hosts (w_db w'))) \<and> (\<exists>i. h' = h\<lparr>host_ID := i\<rparr>)"
proof -
  have same: "\<exists>i. h = h\<lparr>host_ID := i\<rparr>" by (rule exI [of _ "host_ID h"]) simp
  have "hosts_ok (w_db w') \<and> others_kept dv (w_db w) (w_db w') \<and> w_dns w' = w_dns w \<and>
    (\<exists>f. w_db w' = w_db w \<or> w_db w' = hosts_update f (w_db w)) \<and>
    (r = Inr h' \<longrightarrow> h' \<in> set (tbl_rows (hosts (w_db w'))) \<and> (\<exists>i. h' = h\<lparr>host_ID := i\<rparr>))"
  proof (cases "stmt_fault env (w_ticks w)")
    case True
    with run ok show ?thesis
      by (auto simp: store_host_def create_def updates_def stmt_def bindE_def Let_def split: if_splits)
  next
    case nf: False
    show ?thesis
    proof (cases created)
      case True
      let ?h = "h\<lparr>host_ID := Suc (tbl_seq (hosts (w_db w)))\<rparr>"
      show ?thesis
      proof (cases "list_ex (\<lambda>r. host_DomainID h = host_DomainID r \<and> host_Hostname h = host_Hostname r) (tbl_rows (hosts (w_db w)))")
        case clash: True
        with True nf run ok show ?thesis by (auto simp: store_host_def create_def stmt_def Let_def)
      next
        case free: False
        with True nf run have w': "r = Inr ?h" "w_db w' = hosts_update (ins_row ?h) (w_db w)" "w_dns w' = w_dns w"
          by (auto simp: store_host_def create_def stmt_def Let_def)
        have "hosts_ok (w_db w')" "others_kept dv (w_db w) (w_db w')"
          using host_added [OF ok, of ?h dv "w_db w'"] free dv w' by (simp_all add: list_ex_iff)
        with w' show ?thesis by auto
      qed
    next
      case False
      with nf run have w': "r = Inr h" "w_dns w' = w_dns w"
        "w_db w' = hosts_update (upd_rows (\<lambda>r. host_ID r = host_ID h) (\<lambda>_. h)) (w_db w)"
        by (auto simp: store_host_def updates_def stmt_def bindE_def)
      from row [OF False] obtain h0 where h0: "h0 \<in> set (tbl_rows (hosts (w_db w)))" "host_ID h = host_ID h0"
        "host_DomainID h = host_DomainID h0" "host_Hostname h = host_Hostname h0" "host_DeviceID h = host_DeviceID h0" by blast
      have "hosts (w_db w') = upd_rows (\<lambda>r. host_ID r = host_ID h0) (\<lambda>_. h) (hosts (w_db w))" using w' h0(2) by simp
      from host_replaced [OF ok h0(1) _ h0(2-5) refl this] h0(5) dv w' same show ?thesis by auto
    qed
  qed
  then show "hosts_ok (w_db w')" "others_kept dv (w_db w) (w_db w')" "w_dns w' = w_dns w"
    "\<exists>f. w_db w' = w_db w \<or> w_db w' = hosts_update f (w_db w)"
    "r = Inr h' \<Longrightarrow> h' \<in> set (tbl_rows (hosts (w_db w'))) \<and> (\<exists>i. h' = h\<lparr>host_ID := i\<rparr>)"
    by blast+
qed

section \<open>The effect of an update\<close>

lemma see_device_frame:
  "ddns_frame w (snd (see_device env auth t ip w))" "hosts (w_db (snd (see_device env auth t ip w))) = hosts (w_db w)"
  "domains (w_db (snd (see_device env auth t ip w))) = domains (w_db w)" "w_dns (snd (see_device env auth t ip w)) = w_dns w"
  using see_device_effect [of env auth t ip w] by (auto simp: ddns_frame_def)

lemma logged_frame: "logged w w' \<Longrightarrow> ddns_frame w w'"
  by (simp add: ddns_frame_def loggedD)

lemma ddns_frame_trans: "ddns_frame a b \<Longrightarrow> ddns_frame b c \<Longrightarrow> ddns_frame a c"
  by (simp add: ddns_frame_def)

lemma others_kept_trans: "others_kept dv a b \<Longrightarrow> others_kept dv b c \<Longrightarrow> others_kept dv a c"
  by (auto simp: others_kept_def)

text \<open>A host row of the device whose address is \<open>ip\<close>.\<close>

definition holds_address :: "database \<Rightarrow> nat \<Rightarrow> nat \<Rightarrow> string \<Rightarrow> string \<Rightarrow> string \<Rightarrow> bool" where
  "holds_address d dv domainID label recordType ip \<longleftrightarrow>
     (\<exists>h \<in> set (tbl_rows (hosts d)). host_DeviceID h = dv \<and> host_DomainID h = domainID \<and> host_Hostname h = label \<and>
        host_RecordType h = recordType \<and> host_IPAddress h = ip)"

definition publish_script :: "ddns_service \<Rightarrow> domain \<Rightarrow> string \<Rightarrow> string \<Rightarrow> host \<Rightarrow> string \<Rightarrow> string \<Rightarrow> string" where
  "publish_script sv domain label zone h recordType ip =
     buildUpsertScript (sv_Server sv) label zone recordType ip (host_TTL h) (dom_Wildcard domain)"

lemma no_change_effect:
  assumes run: "no_change env auth h ip cip ua t0 w = (r, w')" and ok: "hosts_ok (w_db w)"
    and h: "h \<in> set (tbl_rows (hosts (w_db w)))" "host_DeviceID h = dv"
  shows "hosts_ok (w_db w')" "others_kept dv (w_db w) (w_db w')" "ddns_frame w w'" "w_dns w' = w_dns w"
    "domains (w_db w') = domains (w_db w)"
    "\<exists>res. r = Inr res \<and> rs_Code res = ''nochg'' \<and> rs_IP res = ip"
    "holds_address (w_db w') dv (host_DomainID h) (host_Hostname h) (host_RecordType h) (host_IPAddress h)"
proof -
  let ?t = "clock env (w_ticks w)"
  let ?w1 = "snd (see_device env auth ?t ip (tick w))"
  let ?u = "updates env hosts hosts_update (\<lambda>r. host_ID r = host_ID h) (\<lambda>r. r\<lparr>host_LastUpdate := ?t\<rparr>)"
  let ?w2 = "snd (?u ?w1)"
  have w1: "hosts (w_db ?w1) = hosts (w_db w)" "w_dns ?w1 = w_dns w" "ddns_frame w ?w1" "domains (w_db ?w1) = domains (w_db w)"
    using see_device_frame [where w = "tick w" and env = env and auth = auth and t = ?t and ip = ip] by (simp_all add: ddns_frame_def)
  have w3: "logged ?w2 w'" and r: "\<exists>res. r = Inr res \<and> rs_Code res = ''nochg'' \<and> rs_IP res = ip"
    using run by (auto simp: no_change_def bindE_now bindE_see_device bindE_writeLog Let_def writeLog_logged)
  have u: "w_db ?w2 = w_db ?w1 \<or> w_db ?w2 = hosts_update (upd_rows (\<lambda>r. host_ID r = host_ID h) (\<lambda>r. r\<lparr>host_LastUpdate := ?t\<rparr>)) (w_db ?w1)"
    by (rule updates_frame)
  have ok1: "hosts_ok (w_db ?w1)" using hosts_ok_same ok w1(1) by blast
  have h1: "h \<in> set (tbl_rows (hosts (w_db ?w1)))" using h(1) w1(1) by simp
  have "hosts_ok (w_db ?w2) \<and> others_kept dv (w_db ?w1) (w_db ?w2) \<and>
      holds_address (w_db ?w2) dv (host_DomainID h) (host_Hostname h) (host_RecordType h) (host_IPAddress h)"
    using u
  proof
    assume "w_db ?w2 = w_db ?w1"
    with ok1 h1 h(2) show ?thesis by (auto simp: holds_address_def)
  next
    assume "w_db ?w2 = hosts_update (upd_rows (\<lambda>r. host_ID r = host_ID h) (\<lambda>r. r\<lparr>host_LastUpdate := ?t\<rparr>)) (w_db ?w1)"
    then have "hosts (w_db ?w2) = upd_rows (\<lambda>r. host_ID r = host_ID h) (\<lambda>r. r\<lparr>host_LastUpdate := ?t\<rparr>) (hosts (w_db ?w1))" by simp
    from host_replaced [OF ok1 h1 h(2) _ _ _ _ refl this] h(2) show ?thesis by (simp add: holds_address_def)
  qed
  moreover have "ddns_frame ?w1 ?w2" "domains (w_db ?w2) = domains (w_db ?w1)" using u by (auto simp: ddns_frame_def)
  ultimately show "hosts_ok (w_db w')" "others_kept dv (w_db w) (w_db w')" "ddns_frame w w'" "w_dns w' = w_dns w"
    "domains (w_db w') = domains (w_db w)"
    "holds_address (w_db w') dv (host_DomainID h) (host_Hostname h) (host_RecordType h) (host_IPAddress h)"
    using w1 loggedD [OF w3]
    by (simp_all add: ddns_frame_def others_kept_def hosts_ok_def holds_address_def)
  show "\<exists>res. r = Inr res \<and> rs_Code res = ''nochg'' \<and> rs_IP res = ip" by (rule r)
qed

lemma publish_effect:
  assumes run: "publish env sv auth domain label zone h created rt ip cip ua t0 w = (r, w')" and ok: "hosts_ok (w_db w)"
    and dv: "host_DeviceID h = dv" and row: "\<not> created \<Longrightarrow> h \<in> set (tbl_rows (hosts (w_db w)))"
  shows "hosts_ok (w_db w')" "others_kept dv (w_db w) (w_db w')" "ddns_frame w w'"
    "w_dns w' = w_dns w \<or> w_dns w' = w_dns w @ [publish_script sv domain label zone h rt ip]"
    "domains (w_db w') = domains (w_db w)"
    "r = Inr res \<Longrightarrow> rs_Code res = ''good'' \<and> rs_IP res = ip \<and>
       w_dns w' = w_dns w @ [publish_script sv domain label zone h rt ip] \<and>
       holds_address (w_db w') dv (host_DomainID h) (host_Hostname h) rt ip"
proof -
  let ?s = "publish_script sv domain label zone h rt ip"
  let ?h = "h\<lparr>host_IPAddress := ip, host_RecordType := rt, host_LastUpdate := clock env (Suc (w_ticks w))\<rparr>"
  have "hosts_ok (w_db w') \<and> others_kept dv (w_db w) (w_db w') \<and> ddns_frame w w' \<and>
    (w_dns w' = w_dns w \<or> w_dns w' = w_dns w @ [?s]) \<and> domains (w_db w') = domains (w_db w) \<and>
    (r = Inr res \<longrightarrow> rs_Code res = ''good'' \<and> rs_IP res = ip \<and> w_dns w' = w_dns w @ [?s] \<and>
       holds_address (w_db w') dv (host_DomainID h) (host_Hostname h) rt ip)"
  proof (cases "nsupdate_error env (w_ticks w) ?s")
    case (Some msg)
    with run have r: "r = Inl DNSError" and "logged (tick w) w'"
      using writeLog_logged by (auto simp: publish_def Upsert_def nsupdate_run_def publish_script_def bindE_writeLog)
    then have "logged w w'" by (simp add: logged_def)
    with r ok show ?thesis by (simp add: loggedD logged_frame hosts_ok_same)
  next
    case None
    let ?w1 = "tick ((tick w)\<lparr>w_dns := w_dns w @ [?s]\<rparr>)"
    obtain x w2 where st: "store_host env created ?h ?w1 = (x, w2)" by fastforce
    have ok1: "hosts_ok (w_db ?w1)" and dv1: "host_DeviceID ?h = dv" using ok dv by simp_all
    have row1: "\<not> created \<Longrightarrow> \<exists>h0 \<in> set (tbl_rows (hosts (w_db ?w1))). host_ID ?h = host_ID h0 \<and> host_DomainID ?h = host_DomainID h0 \<and>
       host_Hostname ?h = host_Hostname h0 \<and> host_DeviceID ?h = host_DeviceID h0"
      using row by (intro bexI [of _ h]) simp_all
    note s = store_host_effect [OF st ok1 dv1 row1]
    have f2: "ddns_frame w w2" "domains (w_db w2) = domains (w_db w)" using s(4) by (auto simp: ddns_frame_def)
    have run': "bindE (store_host env created ?h) (\<lambda>h.
          bindE (see_device env auth (clock env (Suc (w_ticks w))) ip) (\<lambda>_.
          bindE (writeLog env auth (Some h) (if created then ''create'' else ''update'') ''success'' ''good''
                  ''DNS record updated'' ip cip ua t0) (\<lambda>_.
          ret \<lparr>rs_Code = ''good'', rs_IP = ip, rs_Changed = True, rs_Created = created, rs_Host = h\<rparr>))) ?w1 = (r, w')"
      using run None by (simp add: publish_def Upsert_def nsupdate_run_def publish_script_def bindE_now)
    show ?thesis
    proof (cases x)
      case (Inl e)
      with run' st have "r = Inl e" "w' = w2" by (simp_all add: bindE_def)
      with s(1-3) f2 show ?thesis by (simp add: others_kept_def)
    next
      case (Inr h')
      let ?w3 = "snd (see_device env auth (clock env (Suc (w_ticks w))) ip w2)"
      have w4: "logged ?w3 w'"
        and r: "r = Inr \<lparr>rs_Code = ''good'', rs_IP = ip, rs_Changed = True, rs_Created = created, rs_Host = h'\<rparr>"
        using run' by (auto simp: bindE_def [of "store_host env created ?h"] st Inr bindE_see_device bindE_writeLog writeLog_logged)
      note f3 = see_device_frame [where w = w2 and env = env and auth = auth and t = "clock env (Suc (w_ticks w))" and ip = ip] and f4 = loggedD [OF w4]
      have hs: "hosts (w_db w') = hosts (w_db w2)" using f3 f4 by simp
      from s(5) [OF _ Inr] obtain i where h': "h' \<in> set (tbl_rows (hosts (w_db w2)))" "h' = ?h\<lparr>host_ID := i\<rparr>" by blast
      have "holds_address (w_db w') dv (host_DomainID h) (host_Hostname h) rt ip"
        unfolding holds_address_def hs by (rule bexI [OF _ h'(1)]) (simp add: h'(2) dv)
      moreover have "hosts_ok (w_db w')" "others_kept dv (w_db w) (w_db w')"
        using s(1,2) by (simp_all add: hosts_ok_def others_kept_def hs)
      ultimately show ?thesis using r s(3) f2 f3 f4 by (auto simp: ddns_frame_def)
    qed
  qed
  then show "hosts_ok (w_db w')" "others_kept dv (w_db w) (w_db w')" "ddns_frame w w'"
    "w_dns w' = w_dns w \<or> w_dns w' = w_dns w @ [publish_script sv domain label zone h rt ip]"
    "domains (w_db w') = domains (w_db w)"
    "r = Inr res \<Longrightarrow> rs_Code res = ''good'' \<and> rs_IP res = ip \<and>
       w_dns w' = w_dns w @ [publish_script sv domain label zone h rt ip] \<and>
       holds_address (w_db w') dv (host_DomainID h) (host_Hostname h) rt ip" by blast+
qed

section \<open>Properties of the update\<close>

text \<open>What an update of a host does, whatever its result.\<close>

definition update_step :: "nat \<Rightarrow> world \<Rightarrow> world \<Rightarrow> bool" where
  "update_step dv w w' \<longleftrightarrow> hosts_ok (w_db w') \<and> others_kept dv (w_db w) (w_db w') \<and> ddns_frame w w' \<and>
     (domains_ok (w_db w) \<longrightarrow> domains_ok (w_db w'))"

text \<open>The one script an update may send is for a name that no other device holds.\<close>

definition sent_for :: "ddns_service \<Rightarrow> nat \<Rightarrow> string \<Rightarrow> string \<Rightarrow> world \<Rightarrow> world \<Rightarrow> bool" where
  "sent_for sv dv label zone w w' \<longleftrightarrow> (\<exists>domain h rt ip. dom_Name domain = zone \<and>
     w_dns w' = w_dns w @ [publish_script sv domain label zone h rt ip] \<and>
     (\<forall>h' \<in> set (tbl_rows (hosts (w_db w))). host_DomainID h' = dom_ID domain \<and> host_Hostname h' = label \<longrightarrow>
        host_DeviceID h' = dv))"

definition updated :: "nat \<Rightarrow> domain \<Rightarrow> string \<Rightarrow> string \<Rightarrow> string \<Rightarrow> ddns_result \<Rightarrow> world \<Rightarrow> world \<Rightarrow> bool" where
  "updated dv domain label rt ip res w w' \<longleftrightarrow> rs_IP res = ip \<and> rs_Code res \<in> {''good'', ''nochg''} \<and>
     (rs_Code res = ''good'' \<longleftrightarrow> w_dns w' \<noteq> w_dns w) \<and> holds_address (w_db w') dv (dom_ID domain) label rt ip"

lemma update_step_logged: "logged w w' \<Longrightarrow> hosts_ok (w_db w) \<Longrightarrow> update_step dv w w'"
  by (simp add: update_step_def loggedD logged_frame hosts_ok_same domains_ok_def)

lemma update_step_trans: "update_step dv a b \<Longrightarrow> update_step dv b c \<Longrightarrow> update_step dv a c"
  unfolding update_step_def using others_kept_trans ddns_frame_trans by blast

lemma host_owner:
  assumes ok: "hosts_ok d" and f: "find (\<lambda>h. host_DomainID h = i \<and> host_Hostname h = label) (tbl_rows (hosts d)) =
      (if created then None else Some h)"
    and dv: "host_DeviceID h = dv"
    and h': "h' \<in> set (tbl_rows (hosts d))" "host_DomainID h' = i \<and> host_Hostname h' = label"
  shows "host_DeviceID h' = dv"
proof (cases created)
  case True
  with f h' show ?thesis by (auto simp: find_None_iff)
next
  case False
  with f have "h \<in> set (tbl_rows (hosts d)) \<and> host_DomainID h = i \<and> host_Hostname h = label" by (auto dest: find_SomeD)
  then have "h' = h" using hosts_okD(2) [OF ok h'(1)] h'(2) by metis
  with dv show ?thesis by simp
qed

lemma update_host_effect:
  assumes run: "update_host env sv auth domain label zone fqdn rt ip cip ua t w = (r, w')" and ok: "hosts_ok (w_db w)"
    and dom: "dom_Name domain = zone"
  shows "update_step (dev_ID (ac_Device auth)) w w' \<and> domains (w_db w') = domains (w_db w) \<and>
    (w_dns w' = w_dns w \<or> sent_for sv (dev_ID (ac_Device auth)) label zone w w') \<and>
    (\<forall>res. r = Inr res \<longrightarrow> updated (dev_ID (ac_Device auth)) domain label rt ip res w w')"
proof -
  let ?dv = "dev_ID (ac_Device auth)"
  obtain y w2 where fh: "find_host env sv auth domain label fqdn rt ip cip ua t w = (y, w2)" by fastforce
  note fh' = find_host_effect [OF fh]
  have lg: "logged w w2" using fh' by blast
  note f2 = loggedD [OF lg]
  have ok2: "hosts_ok (w_db w2)" using hosts_ok_same [OF f2(2) ok] .
  have st2: "update_step ?dv w w2" by (rule update_step_logged [OF lg ok])
  have run2: "(case y of Inl err \<Rightarrow> (Inl err, w2) | Inr hc \<Rightarrow> (\<lambda>(h, created).
       if \<not> created \<and> host_IPAddress h = ip \<and> host_RecordType h = rt then no_change env auth h ip cip ua t
       else publish env sv auth domain label zone h created rt ip cip ua t) hc w2) = (r, w')"
    using run by (simp only: update_host_def bindE_def fh prod.case sum.case)
  show ?thesis
  proof (cases y)
    case (Inl err)
    with run2 st2 f2 show ?thesis by auto
  next
    case (Inr hc)
    obtain h created where h: "hc = (h, created)" by fastforce
    have hp: "host_DomainID h = dom_ID domain" "host_Hostname h = label" "host_DeviceID h = ?dv"
      "find (\<lambda>h. host_DomainID h = dom_ID domain \<and> host_Hostname h = label) (tbl_rows (hosts (w_db w))) =
         (if created then None else Some h)"
      using fh' Inr h by blast+
    have row: "\<not> created \<Longrightarrow> h \<in> set (tbl_rows (hosts (w_db w2)))" using hp(4) f2(2) by (auto dest: find_SomeD)
    show ?thesis
    proof (cases "\<not> created \<and> host_IPAddress h = ip \<and> host_RecordType h = rt")
      case True
      with run2 Inr h have nc: "no_change env auth h ip cip ua t w2 = (r, w')" by simp
      have "h \<in> set (tbl_rows (hosts (w_db w2)))" using row True by blast
      note n = no_change_effect [OF nc ok2 this hp(3)]
      have "update_step ?dv w2 w'" using n by (simp add: update_step_def domains_ok_def)
      with st2 have "update_step ?dv w w'" by (rule update_step_trans)
      then show ?thesis using n f2 True hp(1,2) by (auto simp: updated_def)
    next
      case False
      with run2 Inr h have pb: "publish env sv auth domain label zone h created rt ip cip ua t w2 = (r, w')" by simp
      note p = publish_effect [OF pb ok2 hp(3) row]
      have "update_step ?dv w2 w'" using p by (simp add: update_step_def domains_ok_def)
      with st2 have "update_step ?dv w w'" by (rule update_step_trans)
      moreover have "sent_for sv ?dv label zone w w'"
        if "w_dns w' = w_dns w2 @ [publish_script sv domain label zone h rt ip]"
        unfolding sent_for_def using dom that f2(1) host_owner [OF ok hp(4,3)] by metis
      then have "w_dns w' = w_dns w \<or> sent_for sv ?dv label zone w w'" using p(4) f2(1) by metis
      moreover have "updated ?dv domain label rt ip res w w'" if "r = Inr res" for res
        using p(6) [OF _ that] f2(1) hp(1,2) by (simp add: updated_def)
      ultimately show ?thesis using p(5) f2(3) by simp
    qed
  qed
qed

text \<open>A request that is refused for its name or address, and one that gets as far as the host.\<close>

lemma UpdateDDNS_refused:
  assumes run: "UpdateDDNS env sv auth fqdn rip cip ua w = (r, w')" and ok: "hosts_ok (w_db w)"
    and bad: "splitManagedFQDN sv fqdn = None \<or> ParseIP (if TrimSpace rip = [] then cip else TrimSpace rip) = None"
  shows "update_step (dev_ID (ac_Device auth)) w w' \<and> w_dns w' = w_dns w \<and> (\<exists>e. r = Inl e)"
proof -
  have "(\<exists>e. r = Inl e) \<and> logged (tick w) w'"
    using run bad by (auto simp: UpdateDDNS_def bindE_now bindE_writeLog writeLog_logged Let_def split: option.splits)
  then have "logged w w'" "\<exists>e. r = Inl e" by (simp_all add: logged_def)
  with update_step_logged [OF this(1) ok] loggedD(1) [OF this(1)] show ?thesis by simp
qed

lemma UpdateDDNS_accepted:
  assumes run: "UpdateDDNS env sv auth fqdn rip cip ua w = (r, w')" and ok: "hosts_ok (w_db w)"
    and split: "splitManagedFQDN sv fqdn = Some (label, zone)"
    and parsed: "ParseIP (if TrimSpace rip = [] then cip else TrimSpace rip) = Some parsed"
  shows "update_step (dev_ID (ac_Device auth)) w w' \<and>
    (w_dns w' = w_dns w \<or> sent_for sv (dev_ID (ac_Device auth)) label zone w w') \<and>
    (\<forall>res. r = Inr res \<longrightarrow> (\<exists>domain. find (\<lambda>d. dom_Name d = zone \<and> dom_Enabled d) (tbl_rows (domains (w_db w'))) = Some domain \<and>
        updated (dev_ID (ac_Device auth)) domain label (if Is4 parsed then ''A'' else ''AAAA'') (ip_string parsed) res w w'))"
proof -
  let ?dv = "dev_ID (ac_Device auth)" and ?rt = "if Is4 parsed then ''A'' else ''AAAA''" and ?adr = "ip_string parsed"
    and ?t = "clock env (w_ticks w)"
  obtain x w1 where e: "ensure_domain env sv zone (tick w) = (x, w1)" by fastforce
  note e' = ensure_domain_effect [OF e]
  have dns1: "w_dns w1 = w_dns w" and hosts1: "hosts (w_db w1) = hosts (w_db w)" using e' by simp_all
  have ok1: "hosts_ok (w_db w1)" using hosts_ok_same [OF hosts1 ok] .
  have st1: "update_step ?dv w w1" using e' ok1 by (simp add: update_step_def ddns_frame_def)
  have run1: "bindE (ensure_domain env sv zone) (\<lambda>domain.
      update_host env sv auth domain label zone fqdn ?rt ?adr cip ua ?t) (tick w) = (r, w')"
    using run split parsed by (simp add: UpdateDDNS_def bindE_now Let_def)
  show ?thesis
  proof (cases x)
    case (Inl err)
    with run1 e have "r = Inl err" "w' = w1" by (simp_all add: bindE_def)
    then show ?thesis using st1 dns1 by simp
  next
    case (Inr domain)
    with run1 have uh: "update_host env sv auth domain label zone fqdn ?rt ?adr cip ua ?t w1 = (r, w')"
      by (simp only: bindE_def e prod.case sum.case)
    have dom: "dom_Name domain = zone" using e' Inr by simp
    note u = update_host_effect [OF uh ok1 dom]
    have "update_step ?dv w w'" using update_step_trans [OF st1] u by blast
    moreover have "sent_for sv ?dv label zone w w'" if "sent_for sv ?dv label zone w1 w'"
      using that by (simp add: sent_for_def dns1 hosts1)
    moreover have "updated ?dv domain label ?rt ?adr res w w'" if "updated ?dv domain label ?rt ?adr res w1 w'" for res
      using that unfolding updated_def dns1 .
    moreover have "find (\<lambda>d. dom_Name d = zone \<and> dom_Enabled d) (tbl_rows (domains (w_db w'))) = Some domain"
      using e' Inr u by simp
    ultimately show ?thesis using u unfolding dns1 by blast
  qed
qed

lemma UpdateDDNS_effect:
  assumes run: "UpdateDDNS env sv auth fqdn rip cip ua w = (r, w')" and ok: "hosts_ok (w_db w)"
  shows "update_step (dev_ID (ac_Device auth)) w w'"
    and "w_dns w' = w_dns w \<or> (\<exists>label zone. splitManagedFQDN sv fqdn = Some (label, zone) \<and>
        sent_for sv (dev_ID (ac_Device auth)) label zone w w')"
    and "r = Inr res \<Longrightarrow> \<exists>label zone parsed domain. splitManagedFQDN sv fqdn = Some (label, zone) \<and>
        ParseIP (if TrimSpace rip = [] then cip else TrimSpace rip) = Some parsed \<and>
        find (\<lambda>d. dom_Name d = zone \<and> dom_Enabled d) (tbl_rows (domains (w_db w'))) = Some domain \<and>
        updated (dev_ID (ac_Device auth)) domain label (if Is4 parsed then ''A'' else ''AAAA'') (ip_string parsed) res w w'"
proof -
  consider (bad) "splitManagedFQDN sv fqdn = None \<or> ParseIP (if TrimSpace rip = [] then cip else TrimSpace rip) = None"
    | (good) label zone parsed where "splitManagedFQDN sv fqdn = Some (label, zone)"
        "ParseIP (if TrimSpace rip = [] then cip else TrimSpace rip) = Some parsed"
    by (cases "splitManagedFQDN sv fqdn"; cases "ParseIP (if TrimSpace rip = [] then cip else TrimSpace rip)") auto
  note cases = this
  show "update_step (dev_ID (ac_Device auth)) w w'"
    using UpdateDDNS_refused [OF run ok] UpdateDDNS_accepted [OF run ok] by (cases rule: cases) blast+
  show "w_dns w' = w_dns w \<or> (\<exists>label zone. splitManagedFQDN sv fqdn = Some (label, zone) \<and>
        sent_for sv (dev_ID (ac_Device auth)) label zone w w')"
    using UpdateDDNS_refused [OF run ok] UpdateDDNS_accepted [OF run ok] by (cases rule: cases) blast+
  show "\<exists>label zone parsed domain. splitManagedFQDN sv fqdn = Some (label, zone) \<and>
        ParseIP (if TrimSpace rip = [] then cip else TrimSpace rip) = Some parsed \<and>
        find (\<lambda>d. dom_Name d = zone \<and> dom_Enabled d) (tbl_rows (domains (w_db w'))) = Some domain \<and>
        updated (dev_ID (ac_Device auth)) domain label (if Is4 parsed then ''A'' else ''AAAA'') (ip_string parsed) res w w'"
    if "r = Inr res"
  proof (cases rule: cases)
    case bad
    with UpdateDDNS_refused [OF run ok] that show ?thesis by simp
  next
    case (good label zone parsed)
    with UpdateDDNS_accepted [OF run ok good] that show ?thesis by blast
  qed
qed


lemma find_unique:
  assumes "x \<in> set xs" "P x" "\<And>y. y \<in> set xs \<Longrightarrow> P y \<Longrightarrow> y = x"
  shows "find P xs = Some x"
proof (cases "find P xs")
  case None
  with assms(1,2) show ?thesis by (simp add: find_None_iff)
next
  case (Some y)
  with assms(3) [of y] find_SomeD [OF Some] show ?thesis by simp
qed

text \<open>C28. A successful update is idempotent: asked again with the same host and address, and no fault of
  the driver, the service answers \<open>nochg\<close> with the same address and sends nothing to the DNS.\<close>

theorem update_idempotent:
  assumes "hosts_ok (w_db w)" "no_faults env" "UpdateDDNS env sv auth fqdn rip cip ua w = (Inr res, w')"
  shows "\<exists>res' w''. UpdateDDNS env sv auth fqdn rip cip ua w' = (Inr res', w'') \<and> rs_Code res' = ''nochg'' \<and>
    rs_IP res' = rs_IP res \<and> w_dns w'' = w_dns w'"
proof -
  let ?dv = "dev_ID (ac_Device auth)" and ?src = "if TrimSpace rip = [] then cip else TrimSpace rip"
  from UpdateDDNS_effect(3) [OF assms(3,1) refl] obtain label zone parsed domain where
    split: "splitManagedFQDN sv fqdn = Some (label, zone)" and parsed: "ParseIP ?src = Some parsed"
    and dom: "find (\<lambda>d. dom_Name d = zone \<and> dom_Enabled d) (tbl_rows (domains (w_db w'))) = Some domain"
    and upd: "updated ?dv domain label (if Is4 parsed then ''A'' else ''AAAA'') (ip_string parsed) res w w'"
    by blast
  have ok: "hosts_ok (w_db w')" using UpdateDDNS_effect(1) [OF assms(3,1)] by (simp add: update_step_def)
  let ?rt = "if Is4 parsed then ''A'' else ''AAAA''" and ?adr = "ip_string parsed" and ?t = "clock env (w_ticks w')"
  from upd obtain h where h: "h \<in> set (tbl_rows (hosts (w_db w')))" "host_DeviceID h = ?dv" "host_DomainID h = dom_ID domain"
    "host_Hostname h = label" "host_RecordType h = ?rt" "host_IPAddress h = ?adr" and ip: "rs_IP res = ?adr"
    unfolding updated_def holds_address_def by blast
  have fh: "find (\<lambda>h. host_DomainID h = dom_ID domain \<and> host_Hostname h = label) (tbl_rows (hosts (w_db w'))) = Some h"
  proof (rule find_unique [OF h(1)])
    show "host_DomainID h = dom_ID domain \<and> host_Hostname h = label" using h(3,4) by blast
    fix y assume "y \<in> set (tbl_rows (hosts (w_db w')))" "host_DomainID y = dom_ID domain \<and> host_Hostname y = label"
    then show "y = h" using hosts_okD(2) [OF ok _ h(1), of y] h(3,4) by metis
  qed
  have e: "ensure_domain env sv zone (tick w') = (Inr domain, tick (tick w'))"
    by (simp add: ensure_domain_def run_simps assms(2) dom)
  let ?w2 = "tick (tick (tick (tick w')))"
  have f: "find_host env sv auth domain label fqdn ?rt ?adr cip ua ?t (tick (tick w')) = (Inr (h, False), ?w2)"
    using fh h(2) by (simp add: find_host_def run_simps assms(2))
  obtain r w'' where nc: "no_change env auth h ?adr cip ua ?t ?w2 = (r, w'')" by fastforce
  have ok2: "hosts_ok (w_db ?w2)" and h2: "h \<in> set (tbl_rows (hosts (w_db ?w2)))" using ok h by simp_all
  note n = no_change_effect [OF nc ok2 h2 h(2)]
  have u: "update_host env sv auth domain label zone fqdn ?rt ?adr cip ua ?t (tick (tick w')) = (r, w'')"
    unfolding update_host_def bindE_def f using h(5,6) nc by simp
  have "UpdateDDNS env sv auth fqdn rip cip ua w' =
      bindE (ensure_domain env sv zone) (\<lambda>domain. update_host env sv auth domain label zone fqdn ?rt ?adr cip ua ?t) (tick w')"
    using split parsed by (simp add: UpdateDDNS_def bindE_now Let_def)
  also have "\<dots> = (r, w'')" unfolding bindE_def e using u by simp
  finally have "UpdateDDNS env sv auth fqdn rip cip ua w' = (r, w'')" .
  moreover obtain res' where "r = Inr res'" "rs_Code res' = ''nochg''" "rs_IP res' = ?adr" using n(6) by blast
  moreover have "w_dns w'' = w_dns w'" using n(4) by simp
  ultimately show ?thesis using ip by simp
qed

section \<open>Who may update\<close>

lemma authenticate_loop_run:
  assumes "no_faults env"
  shows "\<exists>w'. authenticate_loop env t key ip x cs w =
    (case find (usable_credential env t key) cs of None \<Rightarrow> Inl (ErrDDNS DErrBadAuth)
     | Some c \<Rightarrow> Inr \<lparr>ac_Device = x, ac_Credential = c\<lparr>cr_LastUsedAt := Some t, cr_LastUsedIP := ip\<rparr>\<rparr>, w')"
  by (induction cs) (auto simp: run_simps assms)

text \<open>C12. A DDNS client is accepted exactly when an active device has the user name and one of its
  credentials is active, or in a grace period that has not ended, has not expired and has the hash
  of the key; the accepted device and credential are those, and every refusal is the same error.\<close>

theorem ddns_accepts_exactly:
  assumes "wf_table dev_ID (devices (w_db w))" "no_faults env"
    and uniq: "\<And>x y. x \<in> set (tbl_rows (devices (w_db w))) \<Longrightarrow> y \<in> set (tbl_rows (devices (w_db w))) \<Longrightarrow>
      dev_Name x = dev_Name y \<Longrightarrow> x = y"
  defines "t \<equiv> clock env (Suc (w_ticks w))"
  shows "(case fst (AuthenticateDDNS env user key ip w) of
      Inr a \<Rightarrow> ac_Device a \<in> set (tbl_rows (devices (w_db w))) \<and> dev_Name (ac_Device a) = user
    | Inl e \<Rightarrow> e = ErrDDNS DErrBadAuth) \<and>
   ((\<exists>a. fst (AuthenticateDDNS env user key ip w) = Inr a) \<longleftrightarrow>
     (\<exists>x \<in> set (tbl_rows (devices (w_db w))). \<exists>c \<in> set (tbl_rows (creds (w_db w))).
        dev_Name x = user \<and> dev_Status x = ''active'' \<and> cr_DeviceID c = dev_ID x \<and>
        (cr_Status c = CActive \<or> cr_Status c = CGrace \<and> (\<exists>u. cr_GraceUntil c = Some u \<and> t < u)) \<and>
        (\<forall>u. cr_ExpiresAt c = Some u \<longrightarrow> t < u) \<and> HashAPIKey env key = cr_SecretHash c))"
proof -
  let ?D = "tbl_rows (devices (w_db w))" and ?C = "tbl_rows (creds (w_db w))"
  have usable: "cr_Status c \<in> {CActive, CGrace} \<and> usable_credential env t key c \<longleftrightarrow>
     (cr_Status c = CActive \<or> cr_Status c = CGrace \<and> (\<exists>u. cr_GraceUntil c = Some u \<and> t < u)) \<and>
     (\<forall>u. cr_ExpiresAt c = Some u \<longrightarrow> t < u) \<and> HashAPIKey env key = cr_SecretHash c" for c
    by (auto simp: usable_credential_def has_expired_def VerifyAPIKey_iff split: option.splits)
  show ?thesis
  proof (cases "find (\<lambda>d. dev_Name d = user \<and> dev_Status d = ''active'') ?D")
    case None
    then have "fst (AuthenticateDDNS env user key ip w) = Inl (ErrDDNS DErrBadAuth)"
      by (simp add: AuthenticateDDNS_def run_simps assms(2))
    with None show ?thesis by (auto simp: find_None_iff)
  next
    case (Some x)
    then have x: "x \<in> set ?D" "dev_Name x = user" "dev_Status x = ''active''" by (auto dest: find_SomeD)
    let ?cs = "filter (\<lambda>c. cr_DeviceID c = dev_ID x \<and> cr_Status c \<in> {CActive, CGrace}) ?C"
    obtain w2 where "authenticate_loop env t key ip x ?cs (tick (tick (tick w))) =
        (case find (usable_credential env t key) ?cs of None \<Rightarrow> Inl (ErrDDNS DErrBadAuth)
         | Some c \<Rightarrow> Inr \<lparr>ac_Device = x, ac_Credential = c\<lparr>cr_LastUsedAt := Some t, cr_LastUsedIP := ip\<rparr>\<rparr>, w2)"
      using authenticate_loop_run [OF assms(2)] by blast
    then have run: "fst (AuthenticateDDNS env user key ip w) =
        (case find (usable_credential env t key) ?cs of None \<Rightarrow> Inl (ErrDDNS DErrBadAuth)
         | Some c \<Rightarrow> Inr \<lparr>ac_Device = x, ac_Credential = c\<lparr>cr_LastUsedAt := Some t, cr_LastUsedIP := ip\<rparr>\<rparr>)"
      using Some by (simp add: AuthenticateDDNS_def run_simps assms(2) t_def)
    have "(\<exists>c. find (usable_credential env t key) ?cs = Some c) \<longleftrightarrow>
      (\<exists>c \<in> set ?C. cr_DeviceID c = dev_ID x \<and> cr_Status c \<in> {CActive, CGrace} \<and> usable_credential env t key c)"
      using find_None_iff [of "usable_credential env t key" ?cs] by (auto simp del: not_None_eq simp flip: not_None_eq)
    moreover have "y = x" if "y \<in> set ?D" "dev_Name y = user" for y
      using uniq [OF that(1) x(1)] that(2) x(2) by simp
    ultimately have found: "(\<exists>c. find (usable_credential env t key) ?cs = Some c) \<longleftrightarrow>
      (\<exists>x \<in> set ?D. \<exists>c \<in> set ?C. dev_Name x = user \<and> dev_Status x = ''active'' \<and> cr_DeviceID c = dev_ID x \<and>
        (cr_Status c \<in> {CActive, CGrace} \<and> usable_credential env t key c))"
      using x by blast
    have "(\<exists>a. fst (AuthenticateDDNS env user key ip w) = Inr a) \<longleftrightarrow> (\<exists>c. find (usable_credential env t key) ?cs = Some c)"
      unfolding run by (simp split: option.split)
    note accepted = this [unfolded found usable]
    have "case fst (AuthenticateDDNS env user key ip w) of
      Inr a \<Rightarrow> ac_Device a \<in> set ?D \<and> dev_Name (ac_Device a) = user | Inl e \<Rightarrow> e = ErrDDNS DErrBadAuth"
      unfolding run using x by (simp split: option.split)
    then show ?thesis using accepted by (rule conjI)
  qed
qed

section \<open>A host name with a line break\<close>

definition demo_service :: ddns_service where
  "demo_service = \<lparr>sv_Server = ''127.0.0.1'', sv_AllowedDomains = [''example.org''], sv_DefaultTTL = 300,
     sv_AllowWildcard = False, sv_AutocreatePolicy = ''device-prefix''\<rparr>"

definition broken_label :: string where
  "broken_label = ''nas-'' @ [nl] @ ''send'' @ [nl] @ ''update delete victim''"

text \<open>
  Nothing checks the characters of a label: one with line breaks passes as a label of the
  managed zone and as one the device may create, and puts a command for another host into
  the script of the update.
\<close>

lemma broken_label_accepted:
  "splitManagedFQDN demo_service (broken_label @ ''.example.org'') = Some (broken_label, ''example.org'')"
  by code_simp

lemma broken_label_autocreates: "canAutocreate demo_service ''nas'' broken_label"
  by code_simp

lemma broken_label_smuggles_command:
  "''update delete victim.example.org A'' \<in>
     set (script_lines (buildUpsertScript ''127.0.0.1'' broken_label ''example.org'' ''A'' target 300 False))"
proof -
  have norm: "ToUpper (TrimSpace ''A'') = ''A''" by code_simp
  show ?thesis by (simp add: script_lines_def buildUpsertScript_def norm Let_def broken_label_def)
qed

text \<open>Instances: the device of the demonstration asks for its own name.\<close>

definition demo_ddns_credential :: ddns_credential where
  "demo_ddns_credential = \<lparr>cr_ID = 1, cr_CreatedAt = 0, cr_DeviceID = 1, cr_KeyID = ''id'',
     cr_SecretHash = HashAPIKey demo_env ''k'', cr_Status = CActive, cr_ActivatedAt = Some 0, cr_ConfirmedAt = None,
     cr_ExpiresAt = None, cr_RevokedAt = None, cr_GraceUntil = None, cr_LastUsedAt = None, cr_LastUsedIP = [],
     cr_ReplacesCredentialID = None\<rparr>"

definition demo_auth :: auth_context where
  "demo_auth = \<lparr>ac_Device = demo_device, ac_Credential = demo_ddns_credential\<rparr>"

definition demo_target :: string where "demo_target = v4_string 3221225991"

lemma demo_target_simps: "TrimSpace demo_target = demo_target" "demo_target \<noteq> []" "ParseIP demo_target = Some (V4 3221225991)"
proof -
  have "\<forall>c \<in> set demo_target. \<not> is_space c"
    using dec_string_no_dot unfolding demo_target_def v4_string_def by (fastforce simp: is_digit_def is_space_def)
  then show "TrimSpace demo_target = demo_target" by (rule TrimSpace_no_space)
  show "demo_target \<noteq> []" by (simp add: demo_target_def v4_string_def)
  show "ParseIP demo_target = Some (V4 3221225991)" by (simp add: demo_target_def ParseIP_v4_string)
qed

lemma demo_split:
  "splitManagedFQDN demo_service ''nas.example.org'' = Some (''nas'', ''example.org'')" "canAutocreate demo_service ''nas'' ''nas''"
  by code_simp+

lemma demo_hosts_ok: "hosts_ok (w_db demo_base)"
  by (simp add: hosts_ok_def) (simp add: empty_table_def)

lemma demo_creates:
  assumes "splitManagedFQDN demo_service fqdn = Some (label, ''example.org'')" "canAutocreate demo_service ''nas'' label"
  shows "\<exists>res w'. UpdateDDNS demo_env demo_service demo_auth fqdn demo_target [] [] demo_base = (Inr res, w') \<and>
    w_dns w' = [buildUpsertScript ''127.0.0.1'' label ''example.org'' ''A'' demo_target 300 False]"
proof -
  have ip: "ip_string (V4 3221225991) = demo_target" by (simp add: demo_target_def ip_string_def)
  have "\<exists>d w'. ensure_domain demo_env demo_service ''example.org'' (tick demo_base) = (Inr d, w') \<and> w_dns w' = [] \<and> dom_DefaultTTL d = 300 \<and> \<not> dom_Wildcard d \<and> hosts (w_db w') = empty_table"
    by (simp add: ensure_domain_def run_simps demo_no_faults Let_def) (simp add: empty_table_def run_simps demo_no_faults Let_def demo_base_def initial_world_def empty_database_def demo_service_def)
  then obtain d w1 where e: "ensure_domain demo_env demo_service ''example.org'' (tick demo_base) = (Inr d, w1)"
    and d: "w_dns w1 = []" "dom_DefaultTTL d = 300" "\<not> dom_Wildcard d"
    and h1: "hosts (w_db w1) = empty_table" by blast
  let ?host = "\<lparr>host_ID = 0, host_DomainID = dom_ID d, host_DeviceID = dev_ID (ac_Device demo_auth), host_Hostname = label,
     host_IPAddress = [], host_RecordType = ''A'', host_TTL = dom_DefaultTTL d, host_Status = ''active'', host_LastUpdate = 0\<rparr>"
  have f: "find_host demo_env demo_service demo_auth d label fqdn ''A'' demo_target [] [] 0 w1 =
     (Inr (?host, True), tick w1)"
    using assms(2) by (simp add: demo_auth_def demo_device_def find_host_def run_simps demo_no_faults h1) (simp add: empty_table_def)
  have nsup: "nsupdate_error demo_env n script = None" for n script by (simp add: demo_env_def)
  have store: "store_host demo_env True h v = (Inr (h\<lparr>host_ID := 1\<rparr>), (tick v)\<lparr>w_db := hosts_update (ins_row (h\<lparr>host_ID := 1\<rparr>)) (w_db v)\<rparr>)"
    if "hosts (w_db v) = empty_table" for h v
    using that by (simp add: store_host_def run_simps demo_no_faults Let_def empty_table_def)
  have stored: "bindE (store_host demo_env True h) k v =
      k (h\<lparr>host_ID := 1\<rparr>) ((tick v)\<lparr>w_db := hosts_update (ins_row (h\<lparr>host_ID := 1\<rparr>)) (w_db v)\<rparr>)"
    if "hosts (w_db v) = empty_table" for h k v
    using store [OF that] by (simp add: bindE_def)
  have "\<exists>res w'. publish demo_env demo_service demo_auth d label ''example.org'' ?host True ''A'' demo_target [] [] 0
      (tick w1) = (Inr res, w') \<and>
      w_dns w' = [buildUpsertScript ''127.0.0.1'' label ''example.org'' ''A'' demo_target 300 False]"
    by (simp add: publish_def Upsert_def nsupdate_run_def nsup bindE_now stored h1 d bindE_see_device bindE_writeLog) (simp add: loggedD(1) [OF writeLog_logged] see_device_effect demo_service_def d)
  then show ?thesis
    unfolding UpdateDDNS_def update_host_def
    by (simp add: bindE_now assms(1) demo_target_simps ip Let_def) (simp add: bindE_def e f)
qed

lemma demo_update_runs:
  "\<exists>res w'. UpdateDDNS demo_env demo_service demo_auth ''nas.example.org'' demo_target [] [] demo_base = (Inr res, w')"
  using demo_creates [OF demo_split] by blast

text \<open>The broken label of above, all the way to nsupdate.\<close>

lemma broken_label_published:
  "\<exists>res w' script. UpdateDDNS demo_env demo_service demo_auth (broken_label @ ''.example.org'') demo_target [] [] demo_base = (Inr res, w') \<and>
     w_dns w' = [script] \<and> ''update delete victim.example.org A'' \<in> set (script_lines script)"
  using demo_creates [OF broken_label_accepted broken_label_autocreates] broken_label_smuggles_command by blast


theorem update_idempotent_witness:
  "\<exists>res w' res' w''. UpdateDDNS demo_env demo_service demo_auth ''nas.example.org'' demo_target [] [] demo_base = (Inr res, w') \<and>
     UpdateDDNS demo_env demo_service demo_auth ''nas.example.org'' demo_target [] [] w' = (Inr res', w'') \<and>
     rs_Code res' = ''nochg''"
proof -
  obtain res w' where run: "UpdateDDNS demo_env demo_service demo_auth ''nas.example.org'' demo_target [] [] demo_base = (Inr res, w')"
    using demo_update_runs by blast
  from update_idempotent [OF demo_hosts_ok demo_no_faults run] run show ?thesis by blast
qed

definition demo_member :: world where
  "demo_member = demo_base\<lparr>w_db := creds_update (\<lambda>_. \<lparr>tbl_rows = [demo_ddns_credential], tbl_seq = 1\<rparr>) (w_db demo_base)\<rparr>"

theorem ddns_accepts_exactly_witness:
  "(\<exists>a. fst (AuthenticateDDNS demo_env ''nas'' ''k'' ''192.0.2.1'' demo_member) = Inr a) \<and>
   \<not> (\<exists>a. fst (AuthenticateDDNS demo_env ''nas'' ''j'' ''192.0.2.1'' demo_member) = Inr a)"
proof -
  have wf: "wf_table dev_ID (devices (w_db demo_member))" by (simp add: demo_member_def wf_table_def demo_device_def)
  have uniq: "x = y" if "x \<in> set (tbl_rows (devices (w_db demo_member)))" "y \<in> set (tbl_rows (devices (w_db demo_member)))" for x y
    using that by (simp add: demo_member_def)
  have "HashAPIKey demo_env ''j'' \<noteq> HashAPIKey demo_env ''k''" by code_simp
  moreover have devs: "tbl_rows (devices (w_db demo_member)) = [demo_device]"
    and crs: "tbl_rows (creds (w_db demo_member)) = [demo_ddns_credential]" by (simp_all add: demo_member_def)
  note accepts = ddns_accepts_exactly [THEN conjunct2, OF wf demo_no_faults uniq, unfolded devs crs, of _ _ "''192.0.2.1''"]
  have "dev_Name demo_device = ''nas'' \<and> dev_Status demo_device = ''active'' \<and> cr_DeviceID demo_ddns_credential = dev_ID demo_device \<and>
      cr_Status demo_ddns_credential = CActive \<and> cr_ExpiresAt demo_ddns_credential = None \<and>
      cr_SecretHash demo_ddns_credential = HashAPIKey demo_env ''k''"
    by (simp add: demo_device_def demo_ddns_credential_def)
  ultimately show ?thesis
    using accepts [of "''nas''" "''k''"] accepts [of "''nas''" "''j''"] by (intro conjI) (simp_all only: bex_simps, simp_all)
qed

end
