(* ===== verification/Hermes_Config.thy ===== *)
theory Hermes_Config
  imports Hermes_DDNS
begin

text \<open>
  \<open>internal/config/config.go\<close>, \<open>internal/database/database.go\<close> and the startup of
  \<open>cmd/hermesddns/main.go\<close>. The environment of the process is a function from names to
  values, \<open>[]\<close> for a variable that is not set (\<open>os.Getenv\<close>). \<open>Load\<close> returns the configuration
  and the error, if any, side by side, as the Go function does. Opening and migrating the
  SQLite file is modelled in \<open>Hermes_Main\<close>.
\<close>

section \<open>Numbers and booleans in text\<close>

text \<open>\<open>strconv.ParseUint(s, 10, 64)\<close>, and \<open>strconv.Atoi\<close> of a 64-bit platform.\<close>

definition ParseUint64 :: "string \<Rightarrow> nat option" where
  "ParseUint64 s = (if s = [] \<or> \<not> list_all is_digit s \<or> dec_value s \<ge> 2 ^ 64 then None else Some (dec_value s))"

definition Atoi :: "string \<Rightarrow> int option" where
  "Atoi s =
     (let (negative, digits) = (case s of [] \<Rightarrow> (False, [])
        | c # cs \<Rightarrow> if c = CHR ''-'' then (True, cs) else if c = CHR ''+'' then (False, cs) else (False, s))
      in if digits = [] \<or> \<not> list_all is_digit digits then None
         else (let n = (if negative then - int (dec_value digits) else int (dec_value digits))
               in if n < - (2 ^ 63) \<or> n \<ge> 2 ^ 63 then None else Some n))"

definition ParseBool :: "string \<Rightarrow> bool option" where
  "ParseBool s =
     (if s \<in> {''1'', ''t'', ''T'', ''TRUE'', ''true'', ''True''} then Some True
      else if s \<in> {''0'', ''f'', ''F'', ''FALSE'', ''false'', ''False''} then Some False
      else None)"

section \<open>The configuration\<close>

record hermes_config =
  cf_ListenAddress :: string
  cf_DatabasePath :: string
  cf_AdminLogin :: string
  cf_AllowedDomains :: "string list"
  cf_DefaultTTL :: int
  cf_AllowWildcard :: bool
  cf_TrustProxyHeaders :: bool
  cf_AllowInsecureAdmin :: bool
  cf_AutocreatePolicy :: string
  cf_DNSServer :: string
  cf_NSUpdateBinary :: string
  cf_TSIGKeyFile :: string
  cf_APIPrefix :: string

datatype config_err = AdminLoginRequired | BadAutocreatePolicy | NoManagedZone | DefaultTTLOutOfRange

type_synonym getenv = "string \<Rightarrow> string"

definition envOr :: "getenv \<Rightarrow> string \<Rightarrow> string \<Rightarrow> string" where
  "envOr getenv key fallback = (let v = TrimSpace (getenv key) in if v \<noteq> [] then v else fallback)"

definition splitCSV :: "string \<Rightarrow> string list" where
  "splitCSV value =
     filter (\<lambda>item. item \<noteq> []) (map (\<lambda>item. TrimSpace (TrimSuffix (ToLower item) ''.'')) (Split CHR '','' value))"

definition intEnv :: "getenv \<Rightarrow> string \<Rightarrow> int \<Rightarrow> int" where
  "intEnv getenv key fallback =
     (let v = TrimSpace (getenv key) in
      if v = [] then fallback else (case Atoi v of None \<Rightarrow> fallback | Some n \<Rightarrow> n))"

definition boolEnv :: "getenv \<Rightarrow> string \<Rightarrow> bool \<Rightarrow> bool" where
  "boolEnv getenv key fallback =
     (let v = TrimSpace (getenv key) in
      if v = [] then fallback else (case ParseBool v of None \<Rightarrow> fallback | Some b \<Rightarrow> b))"

definition Load :: "getenv \<Rightarrow> hermes_config \<times> config_err option" where
  "Load getenv =
     (let cfg =
        \<lparr>cf_ListenAddress = envOr getenv ''HERMES_LISTEN'' '':8080'',
         cf_DatabasePath = envOr getenv ''HERMES_DATABASE'' ''data/hermes.db'',
         cf_AdminLogin = getenv ''HERMES_ADMIN_LOGIN'',
         cf_AllowedDomains = splitCSV (getenv ''HERMES_DOMAINS''),
         cf_DefaultTTL = intEnv getenv ''HERMES_DEFAULT_TTL'' 300,
         cf_AllowWildcard = boolEnv getenv ''HERMES_ALLOW_WILDCARD'' False,
         cf_TrustProxyHeaders = boolEnv getenv ''HERMES_TRUST_PROXY_HEADERS'' False,
         cf_AllowInsecureAdmin = boolEnv getenv ''HERMES_ALLOW_INSECURE_ADMIN'' False,
         cf_AutocreatePolicy = envOr getenv ''HERMES_AUTOCREATE_POLICY'' ''device-prefix'',
         cf_DNSServer = envOr getenv ''HERMES_DNS_SERVER'' ''127.0.0.1'',
         cf_NSUpdateBinary = envOr getenv ''HERMES_NSUPDATE_BINARY'' ''/usr/bin/nsupdate'',
         cf_TSIGKeyFile = getenv ''HERMES_TSIG_KEY_FILE'',
         cf_APIPrefix = ''/api/v1''\<rparr>
      in (cfg,
        if cf_AdminLogin cfg = [] \<and> \<not> cf_AllowInsecureAdmin cfg then Some AdminLoginRequired
        else if cf_AutocreatePolicy cfg \<noteq> ''device-prefix'' \<and> cf_AutocreatePolicy cfg \<noteq> ''any'' then Some BadAutocreatePolicy
        else if length (cf_AllowedDomains cfg) = 0 then Some NoManagedZone
        else if cf_DefaultTTL cfg < 20 \<or> cf_DefaultTTL cfg > 86400 then Some DefaultTTLOutOfRange
        else None))"

section \<open>Startup\<close>

fun EnsureDomains :: "env \<Rightarrow> string list \<Rightarrow> int \<Rightarrow> bool \<Rightarrow> unit dbop" where
  "EnsureDomains env [] defaultTTL wildcard = ret ()"
| "EnsureDomains env (name # names) defaultTTL wildcard =
     bindE (first env domains (\<lambda>d. dom_Name d = name)) (\<lambda>found.
     (case found of
        Some d \<Rightarrow> EnsureDomains env names defaultTTL wildcard
      | None \<Rightarrow>
          bindE (create env domains domains_update (\<lambda>d d'. dom_Name d = dom_Name d') (\<lambda>i _.
            \<lparr>dom_ID = i, dom_Name = name, dom_DefaultTTL = defaultTTL, dom_Enabled = True, dom_Wildcard = wildcard\<rparr>)) (\<lambda>_.
          EnsureDomains env names defaultTTL wildcard)))"

text \<open>\<open>main\<close> up to the start of the server: the configuration and the DDNS service it serves.\<close>

definition service_of :: "hermes_config \<Rightarrow> ddns_service" where
  "service_of cfg =
     \<lparr>sv_Server = cf_DNSServer cfg, sv_AllowedDomains = cf_AllowedDomains cfg, sv_DefaultTTL = cf_DefaultTTL cfg,
      sv_AllowWildcard = cf_AllowWildcard cfg, sv_AutocreatePolicy = cf_AutocreatePolicy cfg\<rparr>"

definition startup :: "env \<Rightarrow> getenv \<Rightarrow> (world, config_err + err, hermes_config \<times> ddns_service) op" where
  "startup env getenv = (\<lambda>w.
     (case Load getenv of
        (cfg, Some e) \<Rightarrow> (Inl (Inl e), w)
      | (cfg, None) \<Rightarrow>
          (case EnsureDomains env (cf_AllowedDomains cfg) (cf_DefaultTTL cfg) (cf_AllowWildcard cfg) w of
             (Inl e, w') \<Rightarrow> (Inl (Inr e), w')
           | (Inr _, w') \<Rightarrow> (Inr (cfg, service_of cfg), w'))))"

section \<open>A configuration that was accepted\<close>

definition config_ok :: "hermes_config \<Rightarrow> bool" where
  "config_ok cfg \<longleftrightarrow>
     (cf_AdminLogin cfg \<noteq> [] \<or> cf_AllowInsecureAdmin cfg) \<and>
     cf_AutocreatePolicy cfg \<in> {''device-prefix'', ''any''} \<and>
     cf_AllowedDomains cfg \<noteq> [] \<and>
     (\<forall>z \<in> set (cf_AllowedDomains cfg). z \<noteq> [] \<and> ToLower z = z \<and> TrimSpace z = z \<and> CHR '','' \<notin> set z) \<and>
     20 \<le> cf_DefaultTTL cfg \<and> cf_DefaultTTL cfg \<le> 86400"

text \<open>The white space of a string is not at its ends.\<close>

lemma set_TrimSpace: "set (TrimSpace s) \<subseteq> set s"
  unfolding TrimSpace_def TrimLeftSpace_def by (auto dest!: set_dropWhileD)

lemma set_TrimSuffix: "set (TrimSuffix s p) \<subseteq> set s"
  by (auto simp: TrimSuffix_def dest: in_set_takeD)

lemma Split_parts_no_sep: "p \<in> set (Split sep s) \<Longrightarrow> sep \<notin> set p"
  by (induction sep s arbitrary: p rule: Split.induct) (auto split: if_splits list.splits)

lemma map_fixed: "map f s = s \<longleftrightarrow> (\<forall>c \<in> set s. f c = c)"
  by (induction s) auto

lemma ToLower_fixed_subset: "ToLower s = s \<Longrightarrow> set t \<subseteq> set s \<Longrightarrow> ToLower t = t"
  unfolding ToLower_def map_fixed by blast

lemma lower_char_comma: "lower_char c = CHR '','' \<longleftrightarrow> c = CHR '',''"
proof
  assume l: "lower_char c = CHR '',''"
  show "c = CHR '',''"
  proof (cases "65 \<le> (of_char c :: nat) \<and> (of_char c :: nat) \<le> 90")
    case True
    then have "(of_char (lower_char c) :: nat) = of_char c + 32" by (simp add: lower_char_def)
    with l True show ?thesis by simp
  qed (use l in \<open>simp add: lower_char_def Let_def split: if_splits\<close>)
qed (simp add: lower_char_def)

lemma ToLower_sep: "CHR '','' \<in> set (ToLower s) \<longleftrightarrow> CHR '','' \<in> set s"
  by (auto simp: ToLower_def image_iff lower_char_comma [unfolded eq_commute [of _ "CHR '',''"]])

lemma splitCSV_items:
  assumes "z \<in> set (splitCSV value)"
  shows "z \<noteq> [] \<and> ToLower z = z \<and> TrimSpace z = z \<and> CHR '','' \<notin> set z"
proof -
  obtain item where z: "z = TrimSpace (TrimSuffix (ToLower item) ''.'')" "z \<noteq> []" and item: "item \<in> set (Split CHR '','' value)"
    using assms by (auto simp: splitCSV_def)
  have sub: "set z \<subseteq> set (ToLower item)"
    unfolding z(1) using set_TrimSpace set_TrimSuffix by blast
  then have "ToLower z = z" by (rule ToLower_fixed_subset [OF ToLower_idem])
  moreover have "CHR '','' \<notin> set z"
    using sub Split_parts_no_sep [OF item] ToLower_sep by blast
  ultimately show ?thesis using z by simp
qed

lemma Load_config_ok:
  assumes load: "Load getenv = (cfg, None)"
  shows "config_ok cfg"
proof -
  have "cf_AllowedDomains (fst (Load getenv)) = splitCSV (getenv ''HERMES_DOMAINS'')" by (simp only: Load_def Let_def fst_conv hermes_config.simps)
  then have "\<forall>z \<in> set (cf_AllowedDomains cfg). z \<noteq> [] \<and> ToLower z = z \<and> TrimSpace z = z \<and> CHR '','' \<notin> set z"
    using splitCSV_items load by simp
  moreover have "snd (Load getenv) = (let cfg = fst (Load getenv) in
      if cf_AdminLogin cfg = [] \<and> \<not> cf_AllowInsecureAdmin cfg then Some AdminLoginRequired
        else if cf_AutocreatePolicy cfg \<noteq> ''device-prefix'' \<and> cf_AutocreatePolicy cfg \<noteq> ''any'' then Some BadAutocreatePolicy
        else if length (cf_AllowedDomains cfg) = 0 then Some NoManagedZone
        else if cf_DefaultTTL cfg < 20 \<or> cf_DefaultTTL cfg > 86400 then Some DefaultTTLOutOfRange
        else None)"
    by (simp only: Load_def Let_def fst_conv snd_conv)
  ultimately show ?thesis unfolding load by (simp add: config_ok_def split: if_splits)
qed

section \<open>Seeding the domains\<close>

lemma bindE_create: "bindE (create env get upd clash mk) k w =
    (if stmt_fault env (w_ticks w) then (Inl DBError, tick w)
     else (let r = mk (Suc (tbl_seq (get (w_db w)))) (clock env (w_ticks w)) in
       if list_ex (clash r) (tbl_rows (get (w_db w))) then (Inl DBError, tick w)
       else k r ((tick w)\<lparr>w_db := upd (ins_row r) (w_db w)\<rparr>)))"
  by (simp add: bindE_def create_def stmt_def Let_def)

lemma EnsureDomains_seeds:
  assumes "EnsureDomains env names ttl wild w = (r, w')" "domains_ok (w_db w)"
  shows "domains_ok (w_db w') \<and> (\<exists>f. w_db w' = domains_update f (w_db w)) \<and> w_dns w' = w_dns w \<and>
    set (tbl_rows (domains (w_db w))) \<subseteq> set (tbl_rows (domains (w_db w'))) \<and>
    (\<forall>d \<in> set (tbl_rows (domains (w_db w'))) - set (tbl_rows (domains (w_db w))).
       dom_Name d \<in> set names \<and> dom_DefaultTTL d = ttl \<and> dom_Enabled d \<and> dom_Wildcard d = wild) \<and>
    (r = Inr () \<longrightarrow> (\<forall>n \<in> set names. \<exists>d \<in> set (tbl_rows (domains (w_db w'))). dom_Name d = n))"
  using assms
proof (induction names arbitrary: w)
  case Nil
  then show ?case by (auto intro: exI [of _ id])
next
  case (Cons name names)
  let ?D = "tbl_rows (domains (w_db w))"
  let ?row = "\<lparr>dom_ID = Suc (tbl_seq (domains (w_db w))), dom_Name = name, dom_DefaultTTL = ttl, dom_Enabled = True, dom_Wildcard = wild\<rparr>"
  consider (fault) e v where "r = Inl e" "w' = v" "w_db v = w_db w" "w_dns v = w_dns w"
    | (seen) d where "d \<in> set ?D" "dom_Name d = name" "EnsureDomains env names ttl wild (tick w) = (r, w')"
    | (new) "\<forall>d \<in> set ?D. dom_Name d \<noteq> name"
        "EnsureDomains env names ttl wild ((tick (tick w))\<lparr>w_db := domains_update (ins_row ?row) (w_db w)\<rparr>) = (r, w')"
    using Cons.prems(1)
    by (auto simp: bindE_first bindE_create Let_def list_ex_iff find_None_iff
        dest: find_SomeD split: if_splits option.splits)
  then show ?case
  proof cases
    case fault
    then show ?thesis using Cons.prems(2) by (auto intro: exI [of _ id])
  next
    case seen
    from Cons.IH [OF seen(3)] Cons.prems(2) seen(1,2) show ?thesis by auto
  next
    case new
    have ok: "domains_ok (domains_update (ins_row ?row) (w_db w))"
      using Cons.prems(2) new(1) by (auto simp: domains_ok_def dom_rows.wf_ins)
    from Cons.IH [OF new(2)] ok obtain f where f: "w_db w' = domains_update f (domains_update (ins_row ?row) (w_db w))"
      by auto
    then have "\<exists>f. w_db w' = domains_update f (w_db w)" by (auto intro: exI [of _ "f \<circ> ins_row ?row"])
    moreover have "?row \<in> set (tbl_rows (domains (w_db w')))" using Cons.IH [OF new(2)] ok by simp
    then have "\<exists>d \<in> set (tbl_rows (domains (w_db w'))). dom_Name d = name" by (rule rev_bexI) simp
    ultimately show ?thesis using Cons.IH [OF new(2)] ok by auto
  qed
qed


definition demo_getenv :: getenv where
  "demo_getenv key =
     (if key = ''HERMES_DOMAINS'' then ''Example.org., dyn.example.net''
      else if key = ''HERMES_ADMIN_LOGIN'' then ''admin:x'' else [])"

definition demo_config :: hermes_config where "demo_config = fst (Load demo_getenv)"

lemma demo_load: "Load demo_getenv = (demo_config, None)" "cf_AllowedDomains demo_config = [''example.org'', ''dyn.example.net'']"
  by code_simp+


text \<open>
  A trailing dot is removed only where it is the last character of the item before the white
  space is: a zone written as \<open>example.com. ,\<close> is stored with its dot, under a name that the
  DDNS service, which trims the white space first, never asks for.
\<close>

lemma splitCSV_keeps_dot: "splitCSV ''example.com. ,example.org'' = [''example.com.'', ''example.org'']"
  by code_simp

lemma seeded_zone_never_used:
  "splitManagedFQDN (demo_service\<lparr>sv_AllowedDomains := splitCSV ''example.com. ''\<rparr>) ''nas.example.com'' = Some (''nas'', ''example.com'')"
  by code_simp

end
