(* ===== verification/Hermes_Credential.thy ===== *)
theory Hermes_Credential
  imports Hermes_Security
begin

text \<open>
  \<open>internal/credential/service.go\<close>: the rotation of DDNS credentials. Each operation is
  one definition with the guards, statements and early returns of the method of the
  same name; \<open>Service.DB\<close> is the world, \<open>Service.Now\<close> the environment's clock.
\<close>

section \<open>Operations\<close>

definition MinGraceMinutes :: int where "MinGraceMinutes = 1"
definition MaxGraceMinutes :: int where "MaxGraceMinutes = 1440"

definition openRotationStatuses :: "rot_status list" where
  "openRotationStatuses = [RRequested, RStaged, RValidating, RGrace]"

definition RequestRotation :: "env \<Rightarrow> nat \<Rightarrow> int \<Rightarrow> rotation dbop" where
  "RequestRotation env deviceID graceMinutes =
     failIf (graceMinutes < MinGraceMinutes \<or> graceMinutes > MaxGraceMinutes)
       (ErrCredential CErrInvalidGracePeriod)
     (transaction env
       (bindE (first env devices (\<lambda>d. dev_ID d = deviceID \<and> dev_Status d = ''active'')) (\<lambda>found.
        bindE (orFail (ErrCredential CErrDeviceNotFound) found) (\<lambda>device.
        bindE (count_rows env rotations
                (\<lambda>r. rot_DeviceID r = deviceID \<and> rot_Status r \<in> set openRotationStatuses)) (\<lambda>openCount.
        failIf (openCount \<noteq> 0) (ErrCredential CErrRotationInProgress)
       (bindE (select env creds (\<lambda>c. cr_DeviceID c = deviceID \<and> cr_Status c = CActive)) (\<lambda>rows.
        (case take 2 (rev rows) of
           [] \<Rightarrow> raise (ErrCredential CErrNoActiveCredential)
         | [active] \<Rightarrow>
             bindE (now env) (\<lambda>t.
             create env rotations rotations_update (\<lambda>_ _. False) (\<lambda>i ct.
               \<lparr>rot_ID = i, rot_CreatedAt = ct, rot_DeviceID = deviceID,
                rot_PreviousCredentialID = cr_ID active, rot_NewCredentialID = None,
                rot_Status = RRequested, rot_GraceMinutes = graceMinutes, rot_RequestedAt = t,
                rot_StagedAt = None, rot_ValidationStartedAt = None, rot_ConfirmedAt = None,
                rot_GraceUntil = None, rot_CompletedAt = None, rot_RolledBackAt = None,
                rot_LastError = []\<rparr>))
         | _ \<Rightarrow> raise (ErrCredential CErrMultipleActive)))))))))"

definition CurrentRotation :: "env \<Rightarrow> nat \<Rightarrow> rotation option dbop" where
  "CurrentRotation env deviceID =
     bindE (select env rotations
             (\<lambda>r. rot_DeviceID r = deviceID \<and> rot_Status r \<in> set openRotationStatuses)) (\<lambda>rows.
     ret (case newest_first rot_CreatedAt rows of [] \<Rightarrow> None | r # _ \<Rightarrow> Some r))"

definition loadRotation :: "env \<Rightarrow> nat \<Rightarrow> nat \<Rightarrow> rotation dbop" where
  "loadRotation env rotationID deviceID =
     bindE (first env rotations (\<lambda>r. rot_ID r = rotationID \<and> rot_DeviceID r = deviceID))
       (orFail (ErrCredential CErrRotationNotFound))"

definition validHexBytes :: "string \<Rightarrow> nat \<Rightarrow> bool" where
  "validHexBytes value byteCount =
     (if length value \<noteq> byteCount * 2 then False
      else (case hex_decode value of None \<Rightarrow> False | Some decoded \<Rightarrow> length decoded = byteCount))"

definition StageCandidate :: "env \<Rightarrow> nat \<Rightarrow> nat \<Rightarrow> string \<Rightarrow> string \<Rightarrow> ddns_credential dbop" where
  "StageCandidate env rotationID deviceID keyID0 secretHash0 =
     (let keyID = ToLower (TrimSpace keyID0); secretHash = ToLower (TrimSpace secretHash0) in
     failIf (\<not> validHexBytes keyID 8) (ErrCredential CErrInvalidCandidateKeyID)
    (failIf (\<not> validHexBytes secretHash 32) (ErrCredential CErrInvalidCandidateHash)
    (transaction env
      (bindE (loadRotation env rotationID deviceID) (\<lambda>rotation.
       failIf (rot_Status rotation \<noteq> RRequested \<or> rot_NewCredentialID rotation \<noteq> None)
         (ErrCredential CErrInvalidRotationState)
      (bindE (first env creds (\<lambda>c. cr_ID c = rot_PreviousCredentialID rotation \<and>
                cr_DeviceID c = deviceID \<and> cr_Status c = CActive)) (\<lambda>found.
       bindE (orFail (ErrCredential CErrInvalidRotationState) found) (\<lambda>previous.
       bindE (now env) (\<lambda>t.
       bindE (create env creds creds_update (\<lambda>c c'. cr_KeyID c = cr_KeyID c') (\<lambda>i ct.
               \<lparr>cr_ID = i, cr_CreatedAt = ct, cr_DeviceID = deviceID, cr_KeyID = keyID,
                cr_SecretHash = secretHash, cr_Status = CPending, cr_ActivatedAt = None,
                cr_ConfirmedAt = None, cr_ExpiresAt = None, cr_RevokedAt = None,
                cr_GraceUntil = None, cr_LastUsedAt = None, cr_LastUsedIP = [],
                cr_ReplacesCredentialID = Some (cr_ID previous)\<rparr>)) (\<lambda>candidate.
       bindE (updates env rotations rotations_update (\<lambda>r. rot_ID r = rot_ID rotation)
               (\<lambda>r. r\<lparr>rot_NewCredentialID := Some (cr_ID candidate), rot_Status := RStaged,
                      rot_StagedAt := Some t\<rparr>)) (\<lambda>_.
       ret candidate)))))))))))"

definition StartValidation :: "env \<Rightarrow> nat \<Rightarrow> nat \<Rightarrow> rotation dbop" where
  "StartValidation env rotationID deviceID =
     transaction env
      (bindE (loadRotation env rotationID deviceID) (\<lambda>rotation.
       (case (rot_Status rotation, rot_NewCredentialID rotation) of
          (RStaged, Some newID) \<Rightarrow>
            bindE (now env) (\<lambda>t.
            bindE (updates env creds creds_update
                    (\<lambda>c. cr_ID c = newID \<and> cr_DeviceID c = deviceID \<and> cr_Status c = CPending)
                    (\<lambda>c. c\<lparr>cr_Status := CActive, cr_ActivatedAt := Some t\<rparr>)) (\<lambda>affected.
            failIf (affected \<noteq> 1) (ErrCredential CErrInvalidRotationState)
           (bindE (updates env rotations rotations_update (\<lambda>r. rot_ID r = rot_ID rotation)
                    (\<lambda>r. r\<lparr>rot_Status := RValidating, rot_ValidationStartedAt := Some t\<rparr>)) (\<lambda>_.
            bindE (first env rotations (\<lambda>r. rot_ID r = rot_ID rotation)) (\<lambda>result.
            orFail DBError result)))))
        | _ \<Rightarrow> raise (ErrCredential CErrInvalidRotationState))))"

definition ConfirmCredentialUse :: "env \<Rightarrow> nat \<Rightarrow> bool dbop" where
  "ConfirmCredentialUse env credentialID =
     transaction env
      (bindE (first env rotations
               (\<lambda>r. rot_NewCredentialID r = Some credentialID \<and> rot_Status r = RValidating)) (\<lambda>found.
       (case found of
          None \<Rightarrow> ret False
        | Some rotation \<Rightarrow>
            bindE (first env creds (\<lambda>c. cr_ID c = credentialID \<and>
                     cr_DeviceID c = rot_DeviceID rotation \<and> cr_Status c = CActive)) (\<lambda>found.
            bindE (orFail (ErrCredential CErrInvalidRotationState) found) (\<lambda>replacement.
            bindE (now env) (\<lambda>t.
            (let graceUntil = t + duration_minutes (rot_GraceMinutes rotation) in
            bindE (updates env creds creds_update (\<lambda>c. cr_ID c = cr_ID replacement)
                    (\<lambda>c. c\<lparr>cr_ConfirmedAt := Some t\<rparr>)) (\<lambda>_.
            bindE (updates env creds creds_update
                    (\<lambda>c. cr_ID c = rot_PreviousCredentialID rotation \<and>
                         cr_DeviceID c = rot_DeviceID rotation \<and> cr_Status c = CActive)
                    (\<lambda>c. c\<lparr>cr_Status := CGrace, cr_GraceUntil := Some graceUntil\<rparr>)) (\<lambda>affected.
            failIf (affected \<noteq> 1) (ErrCredential CErrInvalidRotationState)
           (bindE (updates env rotations rotations_update (\<lambda>r. rot_ID r = rot_ID rotation)
                    (\<lambda>r. r\<lparr>rot_Status := RGrace, rot_ConfirmedAt := Some t,
                           rot_GraceUntil := Some graceUntil\<rparr>)) (\<lambda>_.
            ret True)))))))))))"

text \<open>The body of the loop of \<open>ReconcileExpiredGrace\<close>: one transaction per rotation.\<close>

definition reconcile_one :: "env \<Rightarrow> time \<Rightarrow> rotation \<Rightarrow> bool dbop" where
  "reconcile_one env t item =
     transaction env
      (bindE (first env rotations (\<lambda>r. rot_ID r = rot_ID item \<and> rot_Status r = RGrace)) (\<lambda>found.
       (case found of
          None \<Rightarrow> ret False
        | Some rotation \<Rightarrow>
            (case rot_GraceUntil rotation of
               None \<Rightarrow> ret False
             | Some deadline \<Rightarrow>
                 if deadline > t then ret False
                 else
                 bindE (updates env creds creds_update
                         (\<lambda>c. cr_ID c = rot_PreviousCredentialID rotation \<and>
                              cr_DeviceID c = rot_DeviceID rotation \<and> cr_Status c = CGrace)
                         (\<lambda>c. c\<lparr>cr_Status := CRevoked, cr_RevokedAt := Some t\<rparr>)) (\<lambda>affected.
                 failIf (affected \<noteq> 1) (ErrCredential CErrInvalidRotationState)
                (bindE (updates env rotations rotations_update (\<lambda>r. rot_ID r = rot_ID rotation)
                         (\<lambda>r. r\<lparr>rot_Status := RCompleted, rot_CompletedAt := Some t\<rparr>)) (\<lambda>_.
                 ret True)))))))"

fun reconcile_loop :: "env \<Rightarrow> time \<Rightarrow> rotation list \<Rightarrow> nat \<Rightarrow> world \<Rightarrow> (nat \<times> err option) \<times> world" where
  "reconcile_loop env t [] completed w = ((completed, None), w)"
| "reconcile_loop env t (item # items) completed w =
     (case reconcile_one env t item w of
        (Inl e, w') \<Rightarrow> ((completed, Some e), w')
      | (Inr didComplete, w') \<Rightarrow>
          reconcile_loop env t items (if didComplete then completed + 1 else completed) w')"

definition expired_grace :: "time \<Rightarrow> rotation \<Rightarrow> bool" where
  "expired_grace t r \<longleftrightarrow>
     rot_Status r = RGrace \<and> (case rot_GraceUntil r of None \<Rightarrow> False | Some u \<Rightarrow> u \<le> t)"

definition ReconcileExpiredGrace :: "env \<Rightarrow> world \<Rightarrow> (nat \<times> err option) \<times> world" where
  "ReconcileExpiredGrace env w =
     (let t = clock env (w_ticks w) in
      case select env rotations (expired_grace t) (tick w) of
        (Inl e, w') \<Rightarrow> ((0, Some e), w')
      | (Inr rows, w') \<Rightarrow> reconcile_loop env t rows 0 w')"

text \<open>
  \<open>RunReconciler\<close> reconciles once at the start and once per tick of its timer until the
  context is done; a run is driven by how often the timer fires before that. Its value
  is the list of calls of \<open>report\<close>, made when something was completed or failed.
\<close>

definition reported :: "nat \<times> err option \<Rightarrow> bool" where
  "reported outcome \<longleftrightarrow> snd outcome \<noteq> None \<or> fst outcome > 0"

fun reconciler_ticks :: "env \<Rightarrow> nat \<Rightarrow> world \<Rightarrow> (nat \<times> err option) list \<times> world" where
  "reconciler_ticks env 0 w = ([], w)"
| "reconciler_ticks env (Suc n) w =
     (case ReconcileExpiredGrace env w of (outcome, w') \<Rightarrow>
      case reconciler_ticks env n w' of (reports, w'') \<Rightarrow>
        ((if reported outcome then outcome # reports else reports), w''))"

definition RunReconciler :: "env \<Rightarrow> nat \<Rightarrow> world \<Rightarrow> (nat \<times> err option) list \<times> world" where
  "RunReconciler env fired w = reconciler_ticks env (Suc fired) w"

definition revokeReplacement :: "env \<Rightarrow> nat \<Rightarrow> nat \<Rightarrow> cred_status \<Rightarrow> time \<Rightarrow> unit dbop" where
  "revokeReplacement env credentialID deviceID expectedStatus t =
     bindE (updates env creds creds_update
             (\<lambda>c. cr_ID c = credentialID \<and> cr_DeviceID c = deviceID \<and> cr_Status c = expectedStatus)
             (\<lambda>c. c\<lparr>cr_Status := CRevoked, cr_RevokedAt := Some t\<rparr>)) (\<lambda>affected.
     failIf (affected \<noteq> 1) (ErrCredential CErrInvalidRotationState) (ret ()))"

definition rollback_credentials :: "env \<Rightarrow> nat \<Rightarrow> rotation \<Rightarrow> unit dbop" where
  "rollback_credentials env deviceID rotation =
     (case rot_Status rotation of
        RRequested \<Rightarrow> ret ()
      | RStaged \<Rightarrow>
          bindE (orFail (ErrCredential CErrInvalidRotationState) (rot_NewCredentialID rotation)) (\<lambda>newID.
          bindE (now env) (\<lambda>t. revokeReplacement env newID deviceID CPending t))
      | RValidating \<Rightarrow>
          bindE (orFail (ErrCredential CErrInvalidRotationState) (rot_NewCredentialID rotation)) (\<lambda>newID.
          bindE (now env) (\<lambda>t. revokeReplacement env newID deviceID CActive t))
      | RGrace \<Rightarrow>
          bindE (orFail (ErrCredential CErrInvalidRotationState) (rot_NewCredentialID rotation)) (\<lambda>newID.
          bindE (now env) (\<lambda>t.
          failIf (case rot_GraceUntil rotation of None \<Rightarrow> True | Some u \<Rightarrow> \<not> u > t)
            (ErrCredential CErrInvalidRotationState)
         (bindE (updates env creds creds_update
                  (\<lambda>c. cr_ID c = rot_PreviousCredentialID rotation \<and>
                       cr_DeviceID c = deviceID \<and> cr_Status c = CGrace)
                  (\<lambda>c. c\<lparr>cr_Status := CActive, cr_GraceUntil := None\<rparr>)) (\<lambda>affected.
          failIf (affected \<noteq> 1) (ErrCredential CErrInvalidRotationState)
            (revokeReplacement env newID deviceID CActive t)))))
      | _ \<Rightarrow> raise (ErrCredential CErrInvalidRotationState))"

definition Rollback :: "env \<Rightarrow> nat \<Rightarrow> nat \<Rightarrow> string \<Rightarrow> unit dbop" where
  "Rollback env rotationID deviceID reason =
     transaction env
      (bindE (loadRotation env rotationID deviceID) (\<lambda>rotation.
       bindE (rollback_credentials env deviceID rotation) (\<lambda>_.
       bindE (now env) (\<lambda>t.
       bindE (updates env rotations rotations_update (\<lambda>r. rot_ID r = rot_ID rotation)
               (\<lambda>r. r\<lparr>rot_Status := RRolledBack, rot_RolledBackAt := Some t,
                      rot_LastError := reason\<rparr>)) (\<lambda>_.
       ret ())))))"

text \<open>
  The creation of a device with its first credential (\<open>createDevice\<close> of
  \<open>internal/api/server.go\<close>, after the request is validated), the only other place where a
  DDNS credential is made.
\<close>

definition create_device_rows ::
  "env \<Rightarrow> string \<Rightarrow> string \<Rightarrow> string \<Rightarrow> (device \<times> generated_key) dbop" where
  "create_device_rows env name display_name type =
     bindE (GenerateDDNSKey env) (\<lambda>key.
     bindE (now env) (\<lambda>t.
     transaction env
      (bindE (create env devices devices_update (\<lambda>d d'. dev_Name d = dev_Name d') (\<lambda>i ct.
               \<lparr>dev_ID = i, dev_Name = name, dev_DisplayName = display_name, dev_Type = type,
                dev_Status = ''active'', dev_LastSeenAt = None, dev_LastIP = [],
                dev_AgentVersion = []\<rparr>)) (\<lambda>dev.
       bindE (create env creds creds_update (\<lambda>c c'. cr_KeyID c = cr_KeyID c') (\<lambda>i ct.
               \<lparr>cr_ID = i, cr_CreatedAt = ct, cr_DeviceID = dev_ID dev, cr_KeyID = gk_ID key,
                cr_SecretHash = gk_Hash key, cr_Status = CActive, cr_ActivatedAt = Some t,
                cr_ConfirmedAt = None, cr_ExpiresAt = None, cr_RevokedAt = None,
                cr_GraceUntil = None, cr_LastUsedAt = None, cr_LastUsedIP = [],
                cr_ReplacesCredentialID = None\<rparr>)) (\<lambda>_.
       ret (dev, key))))))"

end
