(* ===== verification/Hermes_AgentAuth.thy ===== *)
theory Hermes_AgentAuth
  imports Hermes_Demo
begin

text \<open>
  \<open>internal/agentauth/service.go\<close>: the identity credentials of the agents. A method that
  takes a transaction of its caller (\<open>IssueCredentialTx\<close>, \<open>RevokeCredentialTx\<close>) is a
  computation without a \<open>transaction\<close> of its own.
\<close>

section \<open>Operations\<close>

definition IssueCredentialTx :: "env \<Rightarrow> nat \<Rightarrow> (identity_credential \<times> generated_key) dbop" where
  "IssueCredentialTx env deviceID =
     bindE (first env devices (\<lambda>d. dev_ID d = deviceID \<and> dev_Status d = ''active'')) (\<lambda>found.
     bindE (orFail (ErrAgentAuth AErrDeviceNotFound) found) (\<lambda>device.
     bindE (count_rows env identities (\<lambda>c. idc_DeviceID c = deviceID \<and> idc_Status c = CActive)) (\<lambda>activeCount.
     failIf (activeCount \<noteq> 0) (ErrAgentAuth AErrActiveCredentialExists)
    (bindE (GenerateAgentKey env) (\<lambda>key.
     bindE (now env) (\<lambda>t.
     bindE (create env identities identities_update
             (\<lambda>c c'. idc_CredentialID c = idc_CredentialID c') (\<lambda>i ct.
             \<lparr>idc_ID = i, idc_CreatedAt = ct, idc_DeviceID = deviceID, idc_CredentialID = gk_ID key,
              idc_SecretHash = gk_Hash key, idc_Status = CActive, idc_ActivatedAt = Some t,
              idc_ExpiresAt = None, idc_RevokedAt = None, idc_LastUsedAt = None,
              idc_LastUsedIP = []\<rparr>)) (\<lambda>credential.
     ret (credential, key))))))))"

definition IssueCredential :: "env \<Rightarrow> nat \<Rightarrow> (identity_credential \<times> generated_key) dbop" where
  "IssueCredential env deviceID = transaction env (IssueCredentialTx env deviceID)"

text \<open>\<open>agentauth.Context\<close>: the device and its credential.\<close>

definition AuthenticateAgent ::
  "env \<Rightarrow> string \<Rightarrow> string \<Rightarrow> (device \<times> identity_credential) dbop" where
  "AuthenticateAgent env apiKey callerIP =
     bindE (orFail (ErrAgentAuth AErrBadAuth) (ParseAgentKeyID apiKey)) (\<lambda>credentialID.
     bindE (errTo (ErrAgentAuth AErrBadAuth)
             (first env identities (\<lambda>c. idc_CredentialID c = credentialID \<and> idc_Status c = CActive))) (\<lambda>found.
     bindE (orFail (ErrAgentAuth AErrBadAuth) found) (\<lambda>credential.
     bindE (now env) (\<lambda>t.
     failIf (has_expired (idc_ExpiresAt credential) t) (ErrAgentAuth AErrBadAuth)
    (failIf (\<not> VerifyAPIKey env apiKey (idc_SecretHash credential)) (ErrAgentAuth AErrBadAuth)
    (bindE (errTo (ErrAgentAuth AErrBadAuth)
             (first env devices (\<lambda>d. dev_ID d = idc_DeviceID credential \<and> dev_Status d = ''active''))) (\<lambda>found.
     bindE (orFail (ErrAgentAuth AErrBadAuth) found) (\<lambda>device.
     bindE (updates env identities identities_update (\<lambda>c. idc_ID c = idc_ID credential)
             (\<lambda>c. c\<lparr>idc_LastUsedAt := Some t, idc_LastUsedIP := callerIP\<rparr>)) (\<lambda>_.
     ret (device, credential\<lparr>idc_LastUsedAt := Some t, idc_LastUsedIP := callerIP\<rparr>))))))))))"

definition RevokeCredentialTx :: "env \<Rightarrow> nat \<Rightarrow> nat \<Rightarrow> unit dbop" where
  "RevokeCredentialTx env deviceID credentialID =
     bindE (now env) (\<lambda>t.
     bindE (updates env identities identities_update
             (\<lambda>c. idc_ID c = credentialID \<and> idc_DeviceID c = deviceID \<and> idc_Status c = CActive)
             (\<lambda>c. c\<lparr>idc_Status := CRevoked, idc_RevokedAt := Some t\<rparr>)) (\<lambda>affected.
     failIf (affected \<noteq> 1) (ErrAgentAuth AErrCredentialNotFound) (ret ())))"

definition RevokeCredential :: "env \<Rightarrow> nat \<Rightarrow> nat \<Rightarrow> unit dbop" where
  "RevokeCredential env deviceID credentialID = transaction env (RevokeCredentialTx env deviceID credentialID)"

section \<open>The identities of a device\<close>

text \<open>
  The well-formed tables of identities: unique primary keys and credential identifiers, and
  at most one active credential per device.
\<close>

definition ident_ok :: "database \<Rightarrow> bool" where
  "ident_ok d \<longleftrightarrow> wf_table idc_ID (identities d) \<and>
     (\<forall>i j c c'. ident_map d i = Some c \<longrightarrow> ident_map d j = Some c' \<longrightarrow>
        idc_CredentialID c = idc_CredentialID c' \<longrightarrow> i = j) \<and>
     (\<forall>i j c c'. ident_map d i = Some c \<longrightarrow> ident_map d j = Some c' \<longrightarrow>
        idc_DeviceID c = idc_DeviceID c' \<longrightarrow> idc_Status c = CActive \<longrightarrow> idc_Status c' = CActive \<longrightarrow> i = j)"

definition active_identity :: "database \<Rightarrow> nat \<Rightarrow> bool" where
  "active_identity d dv \<longleftrightarrow> (\<exists>i c. ident_map d i = Some c \<and> idc_DeviceID c = dv \<and> idc_Status c = CActive)"

lemma ident_okD:
  assumes "ident_ok d"
  shows "wf_table idc_ID (identities d)"
    and "\<And>i j c c'. ident_map d i = Some c \<Longrightarrow> ident_map d j = Some c' \<Longrightarrow>
      idc_CredentialID c = idc_CredentialID c' \<Longrightarrow> i = j"
    and "\<And>i j c c'. ident_map d i = Some c \<Longrightarrow> ident_map d j = Some c' \<Longrightarrow> idc_DeviceID c = idc_DeviceID c' \<Longrightarrow>
      idc_Status c = CActive \<Longrightarrow> idc_Status c' = CActive \<Longrightarrow> i = j"
  using assms unfolding ident_ok_def by blast+

lemma ident_ok_same: "identities d' = identities d \<Longrightarrow> ident_ok d \<Longrightarrow> ident_ok d'"
  by (simp add: ident_ok_def)

text \<open>A change of rows that keeps key, identifier and device and activates nothing.\<close>

lemma ident_ok_upd:
  assumes ok: "ident_ok d"
    and f: "\<And>c. idc_ID (f c) = idc_ID c" "\<And>c. idc_CredentialID (f c) = idc_CredentialID c"
      "\<And>c. idc_DeviceID (f c) = idc_DeviceID c" "\<And>c. idc_Status (f c) = CActive \<Longrightarrow> idc_Status c = CActive"
    and d': "identities d' = upd_rows P f (identities d)"
  shows "ident_ok d'"
proof -
  note o = ident_okD [OF ok]
  have m: "ident_map d' i = Some c' \<Longrightarrow> \<exists>c. ident_map d i = Some c \<and> idc_CredentialID c' = idc_CredentialID c \<and>
      idc_DeviceID c' = idc_DeviceID c \<and> (idc_Status c' = CActive \<longrightarrow> idc_Status c = CActive)" for i c'
    unfolding d' ident_rows.tmap_upd [where f = f, OF f(1)] using f by (auto split: if_splits)
  show ?thesis
    unfolding ident_ok_def
  proof (intro conjI allI impI)
    show "wf_table idc_ID (identities d')" unfolding d' by (rule ident_rows.wf_upd [OF o(1) f(1)])
  next
    fix i j c c'
    assume c: "ident_map d' i = Some c" "ident_map d' j = Some c'"
    show "i = j" if "idc_CredentialID c = idc_CredentialID c'"
      using m [OF c(1)] m [OF c(2)] that o(2) by metis
    show "i = j" if "idc_DeviceID c = idc_DeviceID c'" "idc_Status c = CActive" "idc_Status c' = CActive"
      using m [OF c(1)] m [OF c(2)] that o(3) by metis
  qed
qed

lemma IssueCredentialTx_success:
  assumes "IssueCredentialTx env dv w = (Inr (c, k), w')"
  shows "w_db w' = identities_update (ins_row c) (w_db w)"
    "idc_ID c = Suc (tbl_seq (identities (w_db w)))" "idc_DeviceID c = dv" "idc_Status c = CActive"
    "idc_CredentialID c = gk_ID k" "idc_SecretHash c = gk_Hash k" "idc_ExpiresAt c = None"
    "find (\<lambda>d. dev_ID d = dv \<and> dev_Status d = ''active'') (tbl_rows (devices (w_db w))) \<noteq> None"
    "filter (\<lambda>c. idc_DeviceID c = dv \<and> idc_Status c = CActive) (tbl_rows (identities (w_db w))) = []"
    "\<forall>c' \<in> set (tbl_rows (identities (w_db w))). idc_CredentialID c \<noteq> idc_CredentialID c'"
  using assms by (auto simp: IssueCredentialTx_def GenerateAgentKey_def op_simps list_ex_iff dest!: generateKey_db)

lemma RevokeCredentialTx_success:
  assumes "wf_table idc_ID (identities (w_db w))" "RevokeCredentialTx env dv i w = (Inr u, w')"
  obtains c t where "ident_map (w_db w) i = Some c" "idc_DeviceID c = dv" "idc_Status c = CActive"
    "w_db w' = identities_update (upd_rows (\<lambda>c. idc_ID c = i \<and> idc_DeviceID c = dv \<and> idc_Status c = CActive)
       (\<lambda>c. c\<lparr>idc_Status := CRevoked, idc_RevokedAt := Some t\<rparr>)) (w_db w)"
proof -
  from assms(2) have "length (filter (\<lambda>c. idc_ID c = i \<and> idc_DeviceID c = dv \<and> idc_Status c = CActive)
      (tbl_rows (identities (w_db w)))) = Suc 0" and
    w': "w_db w' = identities_update (upd_rows (\<lambda>c. idc_ID c = i \<and> idc_DeviceID c = dv \<and> idc_Status c = CActive)
       (\<lambda>c. c\<lparr>idc_Status := CRevoked, idc_RevokedAt := Some (clock env (w_ticks w))\<rparr>)) (w_db w)"
    by (auto simp: RevokeCredentialTx_def op_simps)
  with ident_rows.affected_one [OF assms(1), of i "\<lambda>c. idc_DeviceID c = dv \<and> idc_Status c = CActive"] that
  show thesis by blast
qed

text \<open>A revocation that finds no active credential changes no table.\<close>

lemma RevokeCredentialTx_not_found:
  assumes "RevokeCredentialTx env dv i w = (Inl (ErrAgentAuth AErrCredentialNotFound), w')"
    and "wf_table idc_ID (identities (w_db w))"
  shows "w_db w' = w_db w" "\<And>c. ident_map (w_db w) i = Some c \<Longrightarrow> idc_DeviceID c = dv \<Longrightarrow> idc_Status c \<noteq> CActive"
proof -
  let ?P = "\<lambda>c. idc_ID c = i \<and> idc_DeviceID c = dv \<and> idc_Status c = CActive"
  let ?n = "length (filter ?P (tbl_rows (identities (w_db w))))"
  have n: "?n \<noteq> 1" and w': "w_db w' = identities_update (upd_rows ?P
      (\<lambda>c. c\<lparr>idc_Status := CRevoked, idc_RevokedAt := Some (clock env (w_ticks w))\<rparr>)) (w_db w)"
    using assms(1) by (auto simp: RevokeCredentialTx_def bindE_def now_def updates_def stmt_def failIf_def split: if_splits)
  have cnt: "?n = (case ident_map (w_db w) i of None \<Rightarrow> 0 | Some r \<Rightarrow> if idc_DeviceID r = dv \<and> idc_Status r = CActive then 1 else 0)"
    by (rule ident_rows.affected_key [OF assms(2)])
  show none: "idc_Status c \<noteq> CActive" if "ident_map (w_db w) i = Some c" "idc_DeviceID c = dv" for c
    using n cnt that by auto
  have "?n = 0" using n cnt by (auto split: option.splits if_splits)
  then have "\<forall>c \<in> set (tbl_rows (identities (w_db w))). \<not> ?P c" unfolding length_filter_0 .
  then have "map (\<lambda>c. if ?P c then f c else c) (tbl_rows (identities (w_db w))) = tbl_rows (identities (w_db w))" for f
    by (intro map_idI) auto
  then have "upd_rows ?P f (identities (w_db w)) = identities (w_db w)" for f
    by (simp add: upd_rows_def)
  then show "w_db w' = w_db w" unfolding w' by simp
qed

section \<open>The interface to the enrollment service\<close>

text \<open>
  What the enrollment service relies on: an issue adds one active identity to a device
  that had none and changes nothing else; a revocation leaves the device without one.
\<close>

locale identity_issuer =
  fixes issue :: "nat \<Rightarrow> (identity_credential \<times> generated_key) dbop"
    and revoke :: "nat \<Rightarrow> nat \<Rightarrow> unit dbop"
  assumes issue_adds: "ident_ok (w_db w) \<Longrightarrow> issue dv w = (Inr (c, k), w') \<Longrightarrow>
      w_db w' = identities_update (ins_row c) (w_db w) \<and> idc_ID c = Suc (tbl_seq (identities (w_db w))) \<and>
      idc_DeviceID c = dv \<and> idc_Status c = CActive \<and> \<not> active_identity (w_db w) dv \<and>
      (\<forall>c' \<in> set (tbl_rows (identities (w_db w))). idc_CredentialID c \<noteq> idc_CredentialID c')"
    and revoke_removes: "ident_ok (w_db w) \<Longrightarrow> revoke dv i w = (Inr u, w') \<Longrightarrow>
      (\<exists>c t. ident_map (w_db w) i = Some c \<and> idc_DeviceID c = dv \<and> idc_Status c = CActive \<and>
         w_db w' = identities_update (upd_rows (\<lambda>c. idc_ID c = i \<and> idc_DeviceID c = dv \<and> idc_Status c = CActive)
           (\<lambda>c. c\<lparr>idc_Status := CRevoked, idc_RevokedAt := Some t\<rparr>)) (w_db w))"
begin

lemma issue_map:
  assumes "ident_ok (w_db w)" "issue dv w = (Inr (c, k), w')"
  shows "ident_map (w_db w) (idc_ID c) = None" "ident_map (w_db w') = (ident_map (w_db w))(idc_ID c \<mapsto> c)"
  using issue_adds [OF assms] ident_okD(1) [OF assms(1)]
    ident_rows.fresh_key [of "identities (w_db w)"] ident_rows.tmap_ins [of "identities (w_db w)" c] by auto

lemma issue_keeps_ok:
  assumes ok: "ident_ok (w_db w)" and run: "issue dv w = (Inr (c, k), w')"
  shows "ident_ok (w_db w')"
proof -
  note o = ident_okD [OF ok] and m = issue_map [OF assms] and a = issue_adds [OF assms]
  have u: "idc_CredentialID c \<noteq> idc_CredentialID c'" if "ident_map (w_db w) i = Some c'" for i c'
    using a ident_rows.tmap_row [OF that] by blast
  have na: "\<not> (idc_DeviceID c' = dv \<and> idc_Status c' = CActive)" if "ident_map (w_db w) i = Some c'" for i c'
    using a that by (auto simp: active_identity_def)
  show ?thesis
    unfolding ident_ok_def m(2)
  proof (intro conjI allI impI)
    show "wf_table idc_ID (identities (w_db w'))" using a ident_rows.wf_ins [OF o(1), of c] by simp
  next
    fix i j x y
    assume x: "((ident_map (w_db w))(idc_ID c \<mapsto> c)) i = Some x" and y: "((ident_map (w_db w))(idc_ID c \<mapsto> c)) j = Some y"
    show "i = j" if "idc_CredentialID x = idc_CredentialID y"
      using x y that u o(2) by (auto split: if_splits; metis)
    show "i = j" if "idc_DeviceID x = idc_DeviceID y" "idc_Status x = CActive" "idc_Status y = CActive"
      using x y that na o(3) a by (auto split: if_splits; metis)
  qed
qed

lemma revoke_keeps_ok:
  assumes "ident_ok (w_db w)" "revoke dv i w = (Inr u, w')"
  shows "ident_ok (w_db w')" "\<not> active_identity (w_db w') dv"
proof -
  from revoke_removes [OF assms] obtain c t where c: "ident_map (w_db w) i = Some c" "idc_DeviceID c = dv" "idc_Status c = CActive"
    and w': "w_db w' = identities_update (upd_rows (\<lambda>c. idc_ID c = i \<and> idc_DeviceID c = dv \<and> idc_Status c = CActive)
           (\<lambda>c. c\<lparr>idc_Status := CRevoked, idc_RevokedAt := Some t\<rparr>)) (w_db w)" (is "_ = identities_update (upd_rows _ ?f) _")
    by blast
  show "ident_ok (w_db w')" by (rule ident_ok_upd [where f = ?f, OF assms(1)]) (simp_all add: w')
  have "ident_map (w_db w') = (ident_map (w_db w))(i \<mapsto> ?f c)"
    using ident_rows.tmap_upd_key [where f = ?f and Q = "\<lambda>c. idc_DeviceID c = dv \<and> idc_Status c = CActive", OF _ c(1)] c w'
    by simp
  then have m: "ident_map (w_db w') j = (if j = i then Some (?f c) else ident_map (w_db w) j)" for j by simp
  show "\<not> active_identity (w_db w') dv"
  proof
    assume "active_identity (w_db w') dv"
    then obtain j x where x: "ident_map (w_db w') j = Some x" "idc_DeviceID x = dv" "idc_Status x = CActive"
      unfolding active_identity_def by blast
    then have "j \<noteq> i" using m [of j] by auto
    with x m [of j] have "ident_map (w_db w) j = Some x" by simp
    from ident_okD(3) [OF assms(1) c(1) this] c x \<open>j \<noteq> i\<close> show False by simp
  qed
qed

text \<open>A device that was just given an identity is refused a second one.\<close>

lemma issue_once:
  assumes ok: "ident_ok (w_db w)" and "issue dv w = (Inr (c, k), w')"
  shows "issue dv w' \<noteq> (Inr (c', k'), w'')"
proof
  assume again: "issue dv w' = (Inr (c', k'), w'')"
  have "active_identity (w_db w') dv"
    using issue_map(2) [OF assms] issue_adds [OF assms] by (auto simp: active_identity_def)
  with issue_adds [OF issue_keeps_ok [OF assms] again] show False by blast
qed

end

interpretation aa: identity_issuer "IssueCredentialTx env" "RevokeCredentialTx env" for env
proof
  fix w dv c k w'
  assume ok: "ident_ok (w_db w)" and run: "IssueCredentialTx env dv w = (Inr (c, k), w')"
  note s = IssueCredentialTx_success [OF run]
  have "\<not> active_identity (w_db w) dv"
    using s(9) ident_rows.tmap_row by (fastforce simp: active_identity_def filter_empty_conv)
  with s show "w_db w' = identities_update (ins_row c) (w_db w) \<and> idc_ID c = Suc (tbl_seq (identities (w_db w))) \<and>
      idc_DeviceID c = dv \<and> idc_Status c = CActive \<and> \<not> active_identity (w_db w) dv \<and>
      (\<forall>c' \<in> set (tbl_rows (identities (w_db w))). idc_CredentialID c \<noteq> idc_CredentialID c')" by simp
next
  fix w dv i u w'
  assume ok: "ident_ok (w_db w)" and run: "RevokeCredentialTx env dv i w = (Inr u, w')"
  from ident_okD(1) [OF ok] run
  show "\<exists>c t. ident_map (w_db w) i = Some c \<and> idc_DeviceID c = dv \<and> idc_Status c = CActive \<and>
         w_db w' = identities_update (upd_rows (\<lambda>c. idc_ID c = i \<and> idc_DeviceID c = dv \<and> idc_Status c = CActive)
           (\<lambda>c. c\<lparr>idc_Status := CRevoked, idc_RevokedAt := Some t\<rparr>)) (w_db w)"
    by (rule RevokeCredentialTx_success) blast
qed

section \<open>Authentication\<close>

text \<open>What the checks of an authentication ask of a key, a credential and a device.\<close>

definition accepts_key :: "env \<Rightarrow> database \<Rightarrow> time \<Rightarrow> string \<Rightarrow> identity_credential \<Rightarrow> device \<Rightarrow> bool" where
  "accepts_key env d t key c x \<longleftrightarrow>
     ParseAgentKeyID key = Some (idc_CredentialID c) \<and> ident_map d (idc_ID c) = Some c \<and>
     idc_Status c = CActive \<and> \<not> has_expired (idc_ExpiresAt c) t \<and>
     HashAPIKey env key = idc_SecretHash c \<and>
     dev_map d (idc_DeviceID c) = Some x \<and> dev_Status x = ''active''"

lemma AuthenticateAgent_success:
  assumes wf: "wf_table idc_ID (identities (w_db w))" "wf_table dev_ID (devices (w_db w))"
    and run: "AuthenticateAgent env key ip w = (Inr (x, c'), w')"
  obtains c t where "accepts_key env (w_db w) t key c x" "t = clock env (Suc (w_ticks w))"
    "c' = c\<lparr>idc_LastUsedAt := Some t, idc_LastUsedIP := ip\<rparr>"
    "w_db w' = identities_update (upd_rows (\<lambda>y. idc_ID y = idc_ID c)
       (\<lambda>y. y\<lparr>idc_LastUsedAt := Some t, idc_LastUsedIP := ip\<rparr>)) (w_db w)"
proof -
  let ?t = "clock env (Suc (w_ticks w))"
  from run obtain i c where f: "ParseAgentKeyID key = Some i"
    "find (\<lambda>c. idc_CredentialID c = i \<and> idc_Status c = CActive) (tbl_rows (identities (w_db w))) = Some c"
    "find (\<lambda>d. dev_ID d = idc_DeviceID c \<and> dev_Status d = ''active'') (tbl_rows (devices (w_db w))) = Some x"
    "\<not> has_expired (idc_ExpiresAt c) ?t" "HashAPIKey env key = idc_SecretHash c"
    "c' = c\<lparr>idc_LastUsedAt := Some ?t, idc_LastUsedIP := ip\<rparr>"
    "w_db w' = identities_update (upd_rows (\<lambda>y. idc_ID y = idc_ID c)
       (\<lambda>y. y\<lparr>idc_LastUsedAt := Some ?t, idc_LastUsedIP := ip\<rparr>)) (w_db w)"
    by (auto simp: AuthenticateAgent_def op_simps VerifyAPIKey_iff)
  have "accepts_key env (w_db w) ?t key c x"
    using f ident_rows.find_row [OF wf(1) f(2)]
    by (auto simp: accepts_key_def device_rows.find_key [OF wf(2)] split: option.splits)
  with f show thesis by (intro that [where c = c and t = ?t]) simp_all
qed

text \<open>With the unique identifiers of the table the checks decide the result.\<close>

lemma AuthenticateAgent_accepts:
  assumes ok: "ident_ok (w_db w)" and wf: "wf_table dev_ID (devices (w_db w))" and nf: "no_faults env"
    and acc: "accepts_key env (w_db w) (clock env (Suc (w_ticks w))) key c x"
  shows "fst (AuthenticateAgent env key ip w) =
    Inr (x, c\<lparr>idc_LastUsedAt := Some (clock env (Suc (w_ticks w))), idc_LastUsedIP := ip\<rparr>)"
proof -
  note o = ident_okD [OF ok] and a = acc [unfolded accepts_key_def]
  have "find (\<lambda>y. idc_CredentialID y = idc_CredentialID c \<and> idc_Status y = CActive) (tbl_rows (identities (w_db w))) = Some c"
    (is "find ?P _ = _")
  proof (cases "find ?P (tbl_rows (identities (w_db w)))")
    case None
    then show ?thesis using a ident_rows.tmap_row [of "identities (w_db w)"] by (auto simp: find_None_iff)
  next
    case (Some y)
    note y = ident_rows.find_row [OF o(1) Some]
    from a have c: "ident_map (w_db w) (idc_ID c) = Some c" by blast
    have "idc_ID y = idc_ID c" by (rule o(2) [OF conjunct1 [OF y] c]) (use y in blast)
    with y have "ident_map (w_db w) (idc_ID c) = Some y" by metis
    with c have "y = c" by simp
    then show ?thesis using Some by simp
  qed
  then show ?thesis
    using a by (auto simp: AuthenticateAgent_def run_simps nf VerifyAPIKey_iff
        device_rows.find_key_case [OF wf] split: option.splits)
qed

lemma AuthenticateAgent_refuses:
  assumes ok: "ident_ok (w_db w)" and wf: "wf_table dev_ID (devices (w_db w))" and nf: "no_faults env"
    and no: "\<And>c x. \<not> accepts_key env (w_db w) (clock env (Suc (w_ticks w))) key c x"
  shows "fst (AuthenticateAgent env key ip w) = Inl (ErrAgentAuth AErrBadAuth)"
proof (cases "AuthenticateAgent env key ip w")
  case (Pair r w')
  show ?thesis
  proof (cases r)
    case (Inr p)
    obtain x c' where p: "p = (x, c')" by fastforce
    from AuthenticateAgent_success [OF ident_okD(1) [OF ok] wf Pair [unfolded Inr p]] no show ?thesis by metis
  next
    case (Inl e)
    then have "e = ErrAgentAuth AErrBadAuth"
      using Pair by (auto simp: AuthenticateAgent_def run_simps nf split: option.splits if_splits)
    then show ?thesis using Pair Inl by simp
  qed
qed

text \<open>C13. Authentication of an agent decides exactly whether the key names, hashes to and is not too
  old for an active credential of an active device. Every refusal is the same error, and an accepted
  request changes nothing but the last use of that credential.\<close>

theorem AuthenticateAgent_decides:
  assumes "ident_ok (w_db w)" "wf_table dev_ID (devices (w_db w))" "no_faults env"
  shows "(\<forall>x c'. fst (AuthenticateAgent env key ip w) = Inr (x, c') \<longleftrightarrow>
      (\<exists>c. accepts_key env (w_db w) (clock env (Suc (w_ticks w))) key c x \<and>
        c' = c\<lparr>idc_LastUsedAt := Some (clock env (Suc (w_ticks w))), idc_LastUsedIP := ip\<rparr>)) \<and>
    (\<forall>e. fst (AuthenticateAgent env key ip w) = Inl e \<longrightarrow> e = ErrAgentAuth AErrBadAuth)"
proof (cases "\<exists>c x. accepts_key env (w_db w) (clock env (Suc (w_ticks w))) key c x")
  case True
  then obtain c x where cx: "accepts_key env (w_db w) (clock env (Suc (w_ticks w))) key c x" by blast
  have unique: "c = c1 \<and> x = x1" if "accepts_key env (w_db w) (clock env (Suc (w_ticks w))) key c1 x1" for c1 x1
  proof -
    note a = cx [unfolded accepts_key_def] that [unfolded accepts_key_def]
    then have m: "ident_map (w_db w) (idc_ID c) = Some c" "ident_map (w_db w) (idc_ID c1) = Some c1"
      and d: "dev_map (w_db w) (idc_DeviceID c) = Some x" "dev_map (w_db w) (idc_DeviceID c1) = Some x1" by blast+
    have "idc_CredentialID c = idc_CredentialID c1" using a by (metis option.inject)
    from ident_okD(2) [OF assms(1) m this] m have "c = c1" by (metis option.inject)
    with d show ?thesis by simp
  qed
  note acc = AuthenticateAgent_accepts [OF assms cx, of ip]
  show ?thesis
    unfolding acc
  proof (intro conjI allI iffI impI)
    fix x1 c'
    let ?f = "\<lambda>c. c\<lparr>idc_LastUsedAt := Some (clock env (Suc (w_ticks w))), idc_LastUsedIP := ip\<rparr>"
    assume "(Inr (x, ?f c) :: err + device \<times> identity_credential) = Inr (x1, c')"
    then have "x1 = x" "c' = ?f c" by simp_all
    with cx show "\<exists>c. accepts_key env (w_db w) (clock env (Suc (w_ticks w))) key c x1 \<and> c' = ?f c" by blast
  next
    fix x1 c'
    let ?f = "\<lambda>c. c\<lparr>idc_LastUsedAt := Some (clock env (Suc (w_ticks w))), idc_LastUsedIP := ip\<rparr>"
    assume "\<exists>c. accepts_key env (w_db w) (clock env (Suc (w_ticks w))) key c x1 \<and> c' = ?f c"
    then obtain c1 where "accepts_key env (w_db w) (clock env (Suc (w_ticks w))) key c1 x1" "c' = ?f c1" by blast
    with unique [of c1 x1] show "(Inr (x, ?f c) :: err + device \<times> identity_credential) = Inr (x1, c')" by simp
  qed simp
next
  case False
  then show ?thesis using AuthenticateAgent_refuses [OF assms, of key ip] by auto
qed

section \<open>The life of an issued key\<close>

lemma IssueCredentialTx_key:
  "IssueCredentialTx env dv w = (Inr (c, k), w') \<Longrightarrow> \<exists>wa wb. generateKey env agentKeyPrefix wa = (Inr k, wb)"
  by (auto simp: IssueCredentialTx_def GenerateAgentKey_def op_simps)

lemma IssueCredential_Inr:
  "IssueCredential env dv w = (Inr x, w') \<Longrightarrow>
   \<exists>w1. IssueCredentialTx env dv (tick w) = (Inr x, w1) \<and> w_db w' = w_db w1"
  by (auto simp: IssueCredential_def op_simps)

lemma RevokeCredential_Inr:
  "RevokeCredential env dv i w = (Inr u, w') \<Longrightarrow>
   \<exists>w1. RevokeCredentialTx env dv i (tick w) = (Inr u, w1) \<and> w_db w' = w_db w1"
  by (auto simp: RevokeCredential_def op_simps)

lemma issued_key_accepted:
  assumes ok: "ident_ok (w_db w)" and wf: "wf_table dev_ID (devices (w_db w))"
    and nf: "no_faults env" and fills: "rand_fills env"
    and issue: "IssueCredential env dv w = (Inr (c, k), w1)"
  shows "\<exists>x c'. fst (AuthenticateAgent env (gk_Plaintext k) ip w1) = Inr (x, c') \<and> dev_ID x = dv \<and> idc_ID c' = idc_ID c"
    "ident_ok (w_db w1)" "wf_table dev_ID (devices (w_db w1))" "ident_map (w_db w1) (idc_ID c) = Some c"
    "ParseAgentKeyID (gk_Plaintext k) = Some (idc_CredentialID c)"
proof -
  obtain w0 where tx: "IssueCredentialTx env dv (tick w) = (Inr (c, k), w0)" and w1: "w_db w1 = w_db w0"
    using IssueCredential_Inr [OF issue] by blast
  have ok0: "ident_ok (w_db (tick w))" using ok by simp
  note s = IssueCredentialTx_success [OF tx] and m = aa.issue_map [OF ok0 tx]
  show ok1: "ident_ok (w_db w1)" using aa.issue_keeps_ok [OF ok0 tx] w1 by simp
  show wf1: "wf_table dev_ID (devices (w_db w1))" using wf s(1) w1 by simp
  obtain wa wb where gen: "generateKey env agentKeyPrefix wa = (Inr k, wb)" using IssueCredentialTx_key [OF tx] by blast
  note key = generated_key_parses [OF fills gen]
  show map: "ident_map (w_db w1) (idc_ID c) = Some c" using m(2) w1 by simp
  show parse: "ParseAgentKeyID (gk_Plaintext k) = Some (idc_CredentialID c)" using key(1) s(5) by (simp add: ParseAgentKeyID_def)
  obtain x where x: "dev_map (w_db w1) dv = Some x" "dev_Status x = ''active''"
    using s(8) wf w1 s(1) by (auto simp: device_rows.find_key_case split: option.splits if_splits)
  have "accepts_key env (w_db w1) (clock env (Suc (w_ticks w1))) (gk_Plaintext k) c x"
    unfolding accepts_key_def using key s x map by (simp add: ParseAgentKeyID_def VerifyAPIKey_iff has_expired_def)
  from AuthenticateAgent_accepts [OF ok1 wf1 nf this, of ip] device_rows.tmap_key [OF x(1)]
  show "\<exists>x c'. fst (AuthenticateAgent env (gk_Plaintext k) ip w1) = Inr (x, c') \<and> dev_ID x = dv \<and> idc_ID c' = idc_ID c"
    by fastforce
qed

lemma revoked_key_refused:
  assumes ok: "ident_ok (w_db w)" and wf: "wf_table dev_ID (devices (w_db w))" and nf: "no_faults env"
    and c: "ident_map (w_db w) (idc_ID c) = Some c" and parse: "ParseAgentKeyID key = Some (idc_CredentialID c)"
    and revoke: "RevokeCredential env dv (idc_ID c) w = (Inr u, w')"
  shows "fst (AuthenticateAgent env key ip w') = Inl (ErrAgentAuth AErrBadAuth)"
proof -
  obtain w3 where tx: "RevokeCredentialTx env dv (idc_ID c) (tick w) = (Inr u, w3)" and w': "w_db w' = w_db w3"
    using RevokeCredential_Inr [OF revoke] by blast
  have ok0: "ident_ok (w_db (tick w))" using ok by simp
  from RevokeCredentialTx_success [OF ident_okD(1) [OF ok0] tx] obtain c1 t where
    c1: "ident_map (w_db (tick w)) (idc_ID c) = Some c1" "idc_DeviceID c1 = dv" "idc_Status c1 = CActive" and
    w3: "w_db w3 = identities_update (upd_rows (\<lambda>y. idc_ID y = idc_ID c \<and> idc_DeviceID y = dv \<and> idc_Status y = CActive)
       (\<lambda>y. y\<lparr>idc_Status := CRevoked, idc_RevokedAt := Some t\<rparr>)) (w_db (tick w))" (is "_ = identities_update (upd_rows _ ?f) _")
    by blast
  have ok': "ident_ok (w_db w')" using aa.revoke_keeps_ok(1) [OF ok0 tx] w' by simp
  have wf': "wf_table dev_ID (devices (w_db w'))" using wf w' w3 by simp
  have m: "ident_map (w_db w') = (ident_map (w_db w))(idc_ID c \<mapsto> ?f c)"
    using ident_rows.tmap_upd_key [where f = ?f and Q = "\<lambda>y. idc_DeviceID y = dv \<and> idc_Status y = CActive", OF _ c1(1)]
      c1 w' w3 c by simp
  have "\<not> accepts_key env (w_db w') t' key y x" for t' y x
  proof
    assume "accepts_key env (w_db w') t' key y x"
    then have y: "idc_CredentialID y = idc_CredentialID c" "ident_map (w_db w') (idc_ID y) = Some y" "idc_Status y = CActive"
      using parse by (auto simp: accepts_key_def)
    have "ident_map (w_db w') (idc_ID c) = Some (?f c)" using m by simp
    from ident_okD(2) [OF ok' y(2) this] y(1) have "idc_ID y = idc_ID c" by simp
    with m y(2) have "y = ?f c" by (metis fun_upd_same option.inject)
    with y(3) show False by simp
  qed
  from AuthenticateAgent_refuses [OF ok' wf' nf this] show ?thesis .
qed


section \<open>Instances\<close>

lemma demo_ident_ok: "ident_ok (w_db demo_base)" "wf_table dev_ID (devices (w_db demo_base))"
  by (simp add: ident_ok_def) (simp add: wf_table_def demo_device_def)

lemma demo_generate:
  obtains k w' where "generateKey demo_env p w = (Inr k, w')" "w_db w' = w_db w"
  by (simp add: generateKey_def bindE_def read_random_def Let_def demo_env_def)

lemma demo_issue:
  obtains c k w1 where "IssueCredential demo_env 1 demo_base = (Inr (c, k), w1)"
    "identities (w_db w1) = \<lparr>tbl_rows = [c], tbl_seq = 1\<rparr>"
proof -
  obtain k w' where k: "GenerateAgentKey demo_env (tick (tick (tick demo_base))) = (Inr k, w')"
    "w_db w' = w_db (tick (tick (tick demo_base)))"
    unfolding GenerateAgentKey_def by (rule demo_generate)
  then have "\<exists>c w1. IssueCredential demo_env 1 demo_base = (Inr (c, k), w1)"
    by (simp add: IssueCredential_def IssueCredentialTx_def run_simps demo_no_faults demo_device_def empty_table_def Let_def)
  then obtain c w1 where run: "IssueCredential demo_env 1 demo_base = (Inr (c, k), w1)" by blast
  then have "identities (w_db w1) = \<lparr>tbl_rows = [c], tbl_seq = 1\<rparr>"
    using IssueCredential_Inr [OF run] IssueCredentialTx_success(1) by (fastforce simp: ins_row_def empty_table_def)
  with run show thesis by (rule that)
qed

theorem AuthenticateAgent_decides_witness:
  "\<forall>x c'. fst (AuthenticateAgent demo_env ''hddns_key'' ''192.0.2.1'' demo_base) \<noteq> Inr (x, c')"
  using AuthenticateAgent_decides [OF demo_ident_ok demo_no_faults, of "''hddns_key''" "''192.0.2.1''"]
  by (simp add: accepts_key_def)


end
