(* ===== verification/Hermes_Enrollment.thy ===== *)
theory Hermes_Enrollment
  imports Hermes_AgentAuth
begin

text \<open>
  \<open>internal/enrollment/service.go\<close>: the one-time tokens with which an agent obtains its
  identity credential. The two ways out of \<open>Exchange\<close>'s transaction are kept apart: an
  error rolls it back, a result error (\<open>resultErr\<close>) is a value of the committed
  transaction.
\<close>

section \<open>Operations\<close>

definition MinTTLMinutes :: int where "MinTTLMinutes = 1"
definition MaxTTLMinutes :: int where "MaxTTLMinutes = 1440"

definition openStatuses :: "enr_status list" where
  "openStatuses = [EPending, EIssued]"

record exchange_result =
  ex_Enrollment :: enrollment
  ex_Device :: device
  ex_Credential :: identity_credential
  ex_AgentKey :: generated_key

definition expirePending :: "env \<Rightarrow> nat \<Rightarrow> time \<Rightarrow> unit dbop" where
  "expirePending env deviceID t =
     bindE (updates env enrollments enrollments_update
             (\<lambda>e. enr_Status e = EPending \<and> enr_ExpiresAt e \<le> t \<and> (deviceID \<noteq> 0 \<longrightarrow> enr_DeviceID e = deviceID))
             (\<lambda>e. e\<lparr>enr_Status := EExpired\<rparr>)) (\<lambda>_.
     ret ())"

definition reconcileExpired :: "env \<Rightarrow> nat \<Rightarrow> unit dbop" where
  "reconcileExpired env deviceID =
     transaction env (bindE (now env) (\<lambda>t. expirePending env deviceID t))"

definition ensureDevice :: "env \<Rightarrow> nat \<Rightarrow> unit dbop" where
  "ensureDevice env deviceID =
     bindE (count_rows env devices (\<lambda>d. dev_ID d = deviceID)) (\<lambda>n.
     failIf (n = 0) (ErrEnrollment EErrDeviceNotFound) (ret ()))"

definition CreateEnrollment :: "env \<Rightarrow> nat \<Rightarrow> int \<Rightarrow> (enrollment \<times> generated_key) dbop" where
  "CreateEnrollment env deviceID ttlMinutes =
     failIf (ttlMinutes < MinTTLMinutes \<or> ttlMinutes > MaxTTLMinutes) (ErrEnrollment EErrInvalidTTL)
     (transaction env
       (bindE (now env) (\<lambda>t.
        bindE (expirePending env deviceID t) (\<lambda>_.
        bindE (first env devices (\<lambda>d. dev_ID d = deviceID \<and> dev_Status d = ''active'')) (\<lambda>found.
        bindE (orFail (ErrEnrollment EErrDeviceNotFound) found) (\<lambda>device.
        bindE (count_rows env enrollments
                (\<lambda>e. enr_DeviceID e = deviceID \<and> enr_Status e \<in> set openStatuses)) (\<lambda>openCount.
        failIf (openCount \<noteq> 0) (ErrEnrollment EErrEnrollmentInProgress)
       (bindE (count_rows env identities
                (\<lambda>c. idc_DeviceID c = deviceID \<and> idc_Status c = CActive)) (\<lambda>activeCredentials.
        failIf (activeCredentials \<noteq> 0) (ErrAgentAuth AErrActiveCredentialExists)
       (bindE (GenerateEnrollmentKey env) (\<lambda>key.
        bindE (create env enrollments enrollments_update
                (\<lambda>e e'. enr_TokenID e = enr_TokenID e') (\<lambda>i ct.
                \<lparr>enr_ID = i, enr_CreatedAt = ct, enr_DeviceID = deviceID, enr_TokenID = gk_ID key,
                 enr_SecretHash = gk_Hash key, enr_Status = EPending,
                 enr_ExpiresAt = t + duration_minutes ttlMinutes, enr_IssuedAt = None,
                 enr_CompletedAt = None, enr_RevokedAt = None, enr_UsedIP = [],
                 enr_AgentCredentialID = None\<rparr>)) (\<lambda>enrollment.
        ret (enrollment, key)))))))))))))"

text \<open>The transaction of \<open>Exchange\<close>: \<open>Inl\<close> inside the value is \<open>resultErr\<close>.\<close>

definition exchange_tx :: "env \<Rightarrow> string \<Rightarrow> string \<Rightarrow> string \<Rightarrow> (err + exchange_result) dbop" where
  "exchange_tx env token tokenID callerIP =
     bindE (first env enrollments (\<lambda>e. enr_TokenID e = tokenID)) (\<lambda>found.
     (case found of
        None \<Rightarrow> ret (Inl (ErrEnrollment EErrBadAuth))
      | Some enrollment \<Rightarrow>
          if enr_Status enrollment \<noteq> EPending \<or> \<not> VerifyAPIKey env token (enr_SecretHash enrollment)
          then ret (Inl (ErrEnrollment EErrBadAuth))
          else
          bindE (now env) (\<lambda>t.
          if \<not> enr_ExpiresAt enrollment > t then
            bindE (updates env enrollments enrollments_update
                    (\<lambda>e. enr_ID e = enr_ID enrollment \<and> enr_Status e = EPending)
                    (\<lambda>e. e\<lparr>enr_Status := EExpired\<rparr>)) (\<lambda>_.
            ret (Inl (ErrEnrollment EErrBadAuth)))
          else
          bindE (updates env enrollments enrollments_update
                  (\<lambda>e. enr_ID e = enr_ID enrollment \<and> enr_Status e = EPending)
                  (\<lambda>e. e\<lparr>enr_Status := EIssued, enr_IssuedAt := Some t, enr_UsedIP := callerIP\<rparr>)) (\<lambda>claimed.
          failIf (claimed \<noteq> 1) (ErrEnrollment EErrBadAuth)
         (bindE (IssueCredentialTx env (enr_DeviceID enrollment)) (\<lambda>(credential, agentKey).
          bindE (updates env enrollments enrollments_update (\<lambda>e. enr_ID e = enr_ID enrollment)
                  (\<lambda>e. e\<lparr>enr_AgentCredentialID := Some (idc_ID credential)\<rparr>)) (\<lambda>_.
          bindE (first env devices (\<lambda>d. dev_ID d = enr_DeviceID enrollment)) (\<lambda>found.
          bindE (orFail DBError found) (\<lambda>device.
          ret (Inr \<lparr>ex_Enrollment = enrollment\<lparr>enr_Status := EIssued, enr_IssuedAt := Some t,
                       enr_UsedIP := callerIP, enr_AgentCredentialID := Some (idc_ID credential)\<rparr>,
                    ex_Device = device, ex_Credential = credential, ex_AgentKey = agentKey\<rparr>))))))))))"

definition Exchange :: "env \<Rightarrow> string \<Rightarrow> string \<Rightarrow> exchange_result dbop" where
  "Exchange env token callerIP =
     bindE (orFail (ErrEnrollment EErrBadAuth) (ParseEnrollmentKeyID token)) (\<lambda>tokenID.
     bindE (transaction env (exchange_tx env token tokenID callerIP)) (\<lambda>result.
     (case result of Inl e \<Rightarrow> raise e | Inr r \<Rightarrow> ret r)))"

definition ConfirmEnrollment :: "env \<Rightarrow> nat \<Rightarrow> nat \<Rightarrow> string \<Rightarrow> string \<Rightarrow> enrollment dbop" where
  "ConfirmEnrollment env deviceID agentCredentialID callerIP agentVersion =
     transaction env
      (bindE (select env enrollments (\<lambda>e. enr_DeviceID e = deviceID \<and>
               enr_AgentCredentialID e = Some agentCredentialID \<and> enr_Status e \<in> {EIssued, ECompleted})) (\<lambda>rows.
       (case newest_first enr_CreatedAt rows of
          [] \<Rightarrow> raise (ErrEnrollment EErrEnrollmentNotFound)
        | enrollment # _ \<Rightarrow>
            bindE (now env) (\<lambda>t.
            bindE (if enr_Status enrollment = EIssued then
                     bindE (updates env enrollments enrollments_update
                             (\<lambda>e. enr_ID e = enr_ID enrollment \<and> enr_Status e = EIssued)
                             (\<lambda>e. e\<lparr>enr_Status := ECompleted, enr_CompletedAt := Some t\<rparr>)) (\<lambda>affected.
                     failIf (affected \<noteq> 1) (ErrEnrollment EErrInvalidState)
                       (ret (enrollment\<lparr>enr_Status := ECompleted, enr_CompletedAt := Some t\<rparr>)))
                   else ret enrollment) (\<lambda>result.
            bindE (updates env devices devices_update (\<lambda>d. dev_ID d = deviceID)
                    (\<lambda>d. d\<lparr>dev_LastSeenAt := Some t, dev_LastIP := callerIP,
                           dev_AgentVersion := (if agentVersion \<noteq> [] then agentVersion else dev_AgentVersion d)\<rparr>)) (\<lambda>_.
            ret result))))))"

definition ListEnrollments :: "env \<Rightarrow> nat \<Rightarrow> enrollment list dbop" where
  "ListEnrollments env deviceID =
     bindE (ensureDevice env deviceID) (\<lambda>_.
     bindE (reconcileExpired env deviceID) (\<lambda>_.
     bindE (select env enrollments (\<lambda>e. enr_DeviceID e = deviceID)) (\<lambda>rows.
     ret (newest_first enr_CreatedAt rows))))"

definition GetEnrollment :: "env \<Rightarrow> nat \<Rightarrow> nat \<Rightarrow> enrollment dbop" where
  "GetEnrollment env deviceID enrollmentID =
     bindE (reconcileExpired env deviceID) (\<lambda>_.
     bindE (first env enrollments (\<lambda>e. enr_ID e = enrollmentID \<and> enr_DeviceID e = deviceID))
       (orFail (ErrEnrollment EErrEnrollmentNotFound)))"

text \<open>
  The revocation of an issued credential inside \<open>Revoke\<close>: a credential that is not
  active any more is accepted when it was revoked before.
\<close>

definition revoke_issued :: "env \<Rightarrow> nat \<Rightarrow> nat \<Rightarrow> unit dbop" where
  "revoke_issued env deviceID credentialID =
     catchE (RevokeCredentialTx env deviceID credentialID) (\<lambda>e.
       if e \<noteq> ErrAgentAuth AErrCredentialNotFound then raise e
       else
         bindE (errTo (ErrEnrollment EErrInvalidState)
                 (first env identities (\<lambda>c. idc_ID c = credentialID \<and> idc_DeviceID c = deviceID \<and>
                    idc_Status c = CRevoked))) (\<lambda>found.
         bindE (orFail (ErrEnrollment EErrInvalidState) found) (\<lambda>_.
         ret ())))"

definition revoke_tx :: "env \<Rightarrow> nat \<Rightarrow> nat \<Rightarrow> enrollment dbop" where
  "revoke_tx env deviceID enrollmentID =
      (bindE (first env enrollments (\<lambda>e. enr_ID e = enrollmentID \<and> enr_DeviceID e = deviceID)) (\<lambda>found.
       bindE (orFail (ErrEnrollment EErrEnrollmentNotFound) found) (\<lambda>enrollment.
       bindE (now env) (\<lambda>t.
       if enr_Status enrollment = ERevoked then ret enrollment
       else
       bindE (case enr_Status enrollment of
                EPending \<Rightarrow> ret ()
              | EIssued \<Rightarrow>
                  bindE (orFail (ErrEnrollment EErrInvalidState) (enr_AgentCredentialID enrollment)) (\<lambda>credentialID.
                  revoke_issued env deviceID credentialID)
              | _ \<Rightarrow> raise (ErrEnrollment EErrInvalidState)) (\<lambda>_.
       bindE (updates env enrollments enrollments_update
               (\<lambda>e. enr_ID e = enr_ID enrollment \<and> enr_Status e \<in> set openStatuses)
               (\<lambda>e. e\<lparr>enr_Status := ERevoked, enr_RevokedAt := Some t\<rparr>)) (\<lambda>affected.
       failIf (affected \<noteq> 1) (ErrEnrollment EErrInvalidState)
         (ret (enrollment\<lparr>enr_Status := ERevoked, enr_RevokedAt := Some t\<rparr>))))))))"

definition RevokeEnrollment :: "env \<Rightarrow> nat \<Rightarrow> nat \<Rightarrow> enrollment dbop" where
  "RevokeEnrollment env deviceID enrollmentID =
     bindE (reconcileExpired env deviceID) (\<lambda>_. transaction env (revoke_tx env deviceID enrollmentID))"

section \<open>The life of a token\<close>

inductive enr_next :: "enr_status \<Rightarrow> enr_status \<Rightarrow> bool" where
  issued: "enr_next EPending EIssued"
| expired: "enr_next EPending EExpired"
| revoked_unused: "enr_next EPending ERevoked"
| completed: "enr_next EIssued ECompleted"
| revoked_issued: "enr_next EIssued ERevoked"

inductive_simps enr_next_from [simp]: "enr_next EPending st" "enr_next EIssued st" "enr_next ECompleted st"
  "enr_next ERevoked st" "enr_next EExpired st"

inductive_cases enr_next_pending: "enr_next st EPending"

lemma enr_next_irreversible: "enr_next\<^sup>*\<^sup>* st EPending \<Longrightarrow> st = EPending"
  by (induction rule: converse_rtranclp_induct) (auto elim: enr_next_pending)

lemma enr_next_rtranclp_final: "enr_next\<^sup>*\<^sup>* st st' \<Longrightarrow> st \<in> {ECompleted, ERevoked, EExpired} \<Longrightarrow> st' = st"
  by (induction rule: rtranclp_induct) auto

definition open_status :: "enr_status \<Rightarrow> bool" where
  "open_status st \<longleftrightarrow> st = EPending \<or> st = EIssued"

lemma openStatuses_iff [simp]: "st \<in> set openStatuses \<longleftrightarrow> open_status st"
  by (auto simp: openStatuses_def open_status_def)

lemma enr_next_open: "enr_next st st' \<Longrightarrow> open_status st' \<Longrightarrow> open_status st"
  by (cases rule: enr_next.cases) (auto simp: open_status_def)

section \<open>The invariant of the enrollment tables\<close>

text \<open>
  A pending enrollment has no identity yet; an issued or completed one refers to an
  identity credential of its own device.
\<close>

definition enr_row_ok :: "database \<Rightarrow> enrollment \<Rightarrow> bool" where
  "enr_row_ok d e \<longleftrightarrow>
     (enr_Status e = EPending \<longrightarrow> enr_AgentCredentialID e = None) \<and>
     (enr_Status e = EIssued \<or> enr_Status e = ECompleted \<longrightarrow>
        (\<exists>n c. enr_AgentCredentialID e = Some n \<and> ident_map d n = Some c \<and> idc_DeviceID c = enr_DeviceID e))"

definition enr_ok :: "database \<Rightarrow> bool" where
  "enr_ok d \<longleftrightarrow> wf_table enr_ID (enrollments d) \<and> ident_ok d \<and>
     (\<forall>i j e e'. enr_map d i = Some e \<longrightarrow> enr_map d j = Some e' \<longrightarrow> enr_TokenID e = enr_TokenID e' \<longrightarrow> i = j) \<and>
     (\<forall>i j e e'. enr_map d i = Some e \<longrightarrow> enr_map d j = Some e' \<longrightarrow> enr_DeviceID e = enr_DeviceID e' \<longrightarrow>
        open_status (enr_Status e) \<longrightarrow> open_status (enr_Status e') \<longrightarrow> i = j) \<and>
     (\<forall>i e. enr_map d i = Some e \<longrightarrow> enr_row_ok d e)"

lemma enr_okD:
  assumes "enr_ok d"
  shows "wf_table enr_ID (enrollments d)" "ident_ok d"
    and "\<And>i j e e'. enr_map d i = Some e \<Longrightarrow> enr_map d j = Some e' \<Longrightarrow> enr_TokenID e = enr_TokenID e' \<Longrightarrow> i = j"
    and "\<And>i j e e'. enr_map d i = Some e \<Longrightarrow> enr_map d j = Some e' \<Longrightarrow> enr_DeviceID e = enr_DeviceID e' \<Longrightarrow>
      open_status (enr_Status e) \<Longrightarrow> open_status (enr_Status e') \<Longrightarrow> i = j"
    and "\<And>i e. enr_map d i = Some e \<Longrightarrow> enr_row_ok d e"
  using assms unfolding enr_ok_def by blast+

text \<open>How rows may change over time: nothing is deleted, identifiers, secrets and owners are fixed,
  the status of a token only moves forward and an identity can only be revoked.\<close>

definition same_token :: "enrollment \<Rightarrow> enrollment \<Rightarrow> bool" where
  "same_token e e' \<longleftrightarrow> enr_TokenID e' = enr_TokenID e \<and> enr_SecretHash e' = enr_SecretHash e \<and>
     enr_DeviceID e' = enr_DeviceID e \<and> enr_ExpiresAt e' = enr_ExpiresAt e"

definition same_identity :: "identity_credential \<Rightarrow> identity_credential \<Rightarrow> bool" where
  "same_identity c c' \<longleftrightarrow> idc_CredentialID c' = idc_CredentialID c \<and> idc_SecretHash c' = idc_SecretHash c \<and>
     idc_DeviceID c' = idc_DeviceID c \<and>
     (idc_Status c' = idc_Status c \<or> idc_Status c = CActive \<and> idc_Status c' = CRevoked)"

definition evolves :: "database \<Rightarrow> database \<Rightarrow> bool" where
  "evolves d d' \<longleftrightarrow>
     (\<forall>i e. enr_map d i = Some e \<longrightarrow>
        (\<exists>e'. enr_map d' i = Some e' \<and> same_token e e' \<and> enr_next\<^sup>*\<^sup>* (enr_Status e) (enr_Status e'))) \<and>
     (\<forall>n c. ident_map d n = Some c \<longrightarrow> (\<exists>c'. ident_map d' n = Some c' \<and> same_identity c c'))"

lemma same_refl [simp]: "same_token e e" "same_identity c c"
  by (simp_all add: same_token_def same_identity_def)

lemma same_trans:
  "same_token a b \<Longrightarrow> same_token b c \<Longrightarrow> same_token a c"
  "same_identity x y \<Longrightarrow> same_identity y z \<Longrightarrow> same_identity x z"
  by (auto simp: same_token_def same_identity_def)

lemma evolves_refl [simp]: "evolves d d"
  by (simp add: evolves_def)

lemma evolvesD:
  assumes "evolves d d'"
  shows "enr_map d i = Some e \<Longrightarrow>
      \<exists>e'. enr_map d' i = Some e' \<and> same_token e e' \<and> enr_next\<^sup>*\<^sup>* (enr_Status e) (enr_Status e')"
    and "ident_map d n = Some c \<Longrightarrow> \<exists>c'. ident_map d' n = Some c' \<and> same_identity c c'"
  using assms unfolding evolves_def by blast+

lemma evolves_trans:
  assumes "evolves a b" "evolves b c"
  shows "evolves a c"
  unfolding evolves_def
proof (intro conjI allI impI)
  fix i e assume "enr_map a i = Some e"
  from evolvesD(1) [OF assms(1) this] obtain e1 where
    1: "enr_map b i = Some e1" "same_token e e1" "enr_next\<^sup>*\<^sup>* (enr_Status e) (enr_Status e1)" by blast
  from evolvesD(1) [OF assms(2) 1(1)] 1
  show "\<exists>e'. enr_map c i = Some e' \<and> same_token e e' \<and> enr_next\<^sup>*\<^sup>* (enr_Status e) (enr_Status e')"
    by (blast intro: same_trans rtranclp_trans)
next
  fix n x assume "ident_map a n = Some x"
  from evolvesD(2) [OF assms(1) this] obtain y where 1: "ident_map b n = Some y" "same_identity x y" by blast
  from evolvesD(2) [OF assms(2) 1(1)] 1(2) show "\<exists>c'. ident_map c n = Some c' \<and> same_identity x c'"
    by (blast intro: same_trans)
qed

lemma enr_row_ok_transfer:
  assumes "enr_row_ok d e" "evolves d d'"
  shows "enr_row_ok d' e"
proof -
  have "\<exists>c'. ident_map d' n = Some c' \<and> idc_DeviceID c' = idc_DeviceID c" if "ident_map d n = Some c" for n c
    using evolvesD(2) [OF assms(2) that] by (auto simp: same_identity_def)
  then show ?thesis using assms(1) unfolding enr_row_ok_def by metis
qed

text \<open>Steps that change rows without adding any keep the invariant.\<close>

lemma enr_ok_change:
  assumes ok: "enr_ok d" and wf: "wf_table enr_ID (enrollments d')" and id: "ident_ok d'"
    and ev: "evolves d d'" and dom: "\<And>i. enr_map d' i \<noteq> None \<Longrightarrow> enr_map d i \<noteq> None"
    and rows: "\<And>i e. enr_map d' i = Some e \<Longrightarrow> enr_row_ok d' e"
  shows "enr_ok d'"
proof -
  have was: "\<exists>e. enr_map d i = Some e \<and> same_token e e' \<and> enr_next\<^sup>*\<^sup>* (enr_Status e) (enr_Status e')"
    if "enr_map d' i = Some e'" for i e'
  proof -
    from that have "enr_map d' i \<noteq> None" by simp
    then have "enr_map d i \<noteq> None" by (rule dom)
    then obtain e where e: "enr_map d i = Some e" by auto
    from evolvesD(1) [OF ev e] e that show ?thesis by auto
  qed
  have "open_status a" if "enr_next\<^sup>*\<^sup>* a b" "open_status b" for a b
    using that by (induction rule: converse_rtranclp_induct) (auto dest: enr_next_open)
  note o = enr_okD [OF ok] and op = this
  show ?thesis
    unfolding enr_ok_def
  proof (intro conjI allI impI)
    fix i j e e'
    assume e: "enr_map d' i = Some e" "enr_map d' j = Some e'"
    from was [OF e(1)] was [OF e(2)] obtain x x' where
      x: "enr_map d i = Some x" "same_token x e" "enr_next\<^sup>*\<^sup>* (enr_Status x) (enr_Status e)"
      "enr_map d j = Some x'" "same_token x' e'" "enr_next\<^sup>*\<^sup>* (enr_Status x') (enr_Status e')" by blast
    show "i = j" if "enr_TokenID e = enr_TokenID e'"
      by (rule o(3) [OF x(1,4)]) (use x that in \<open>simp add: same_token_def\<close>)
    show "i = j" if "enr_DeviceID e = enr_DeviceID e'" "open_status (enr_Status e)" "open_status (enr_Status e')"
      by (rule o(4) [OF x(1,4)]) (use x that op in \<open>auto simp: same_token_def\<close>)
  qed (use wf id rows in auto)
qed

section \<open>Effects of the statements\<close>

lemma ident_evolves:
  "identities d' = identities d \<Longrightarrow> ident_map d n = Some c \<Longrightarrow> \<exists>c'. ident_map d' n = Some c' \<and> same_identity c c'"
  by simp

lemma enr_ok_row:
  assumes ok: "enr_ok d" and e: "enr_map d i = Some e" "same_token e e'" "enr_next\<^sup>*\<^sup>* (enr_Status e) (enr_Status e')"
    and m: "enr_map d' = (enr_map d)(i \<mapsto> e')" and wf: "wf_table enr_ID (enrollments d')" and id: "ident_ok d'"
    and ids: "\<And>n c. ident_map d n = Some c \<Longrightarrow> \<exists>c'. ident_map d' n = Some c' \<and> same_identity c c'"
    and row: "enr_row_ok d' e'"
  shows "enr_ok d' \<and> evolves d d'"
proof -
  have ev: "evolves d d'"
    unfolding evolves_def m using e ids by auto
  moreover have "enr_ok d'"
  proof (rule enr_ok_change [OF ok wf id ev])
    show "enr_map d j \<noteq> None" if "enr_map d' j \<noteq> None" for j using that e(1) by (auto simp: m split: if_splits)
    show "enr_row_ok d' x" if "enr_map d' j = Some x" for j x
      using that row enr_row_ok_transfer [OF enr_okD(5) [OF ok] ev] by (auto simp: m split: if_splits)
  qed
  ultimately show ?thesis by simp
qed

lemma expire_effect:
  assumes ok: "enr_ok d" and d': "d' = enrollments_update (upd_rows P (\<lambda>e. e\<lparr>enr_Status := EExpired\<rparr>)) d"
    and P: "\<And>e. P e \<Longrightarrow> enr_Status e = EPending"
  shows "enr_ok d' \<and> evolves d d'"
proof -
  let ?f = "\<lambda>e. e\<lparr>enr_Status := EExpired\<rparr>"
  have m: "enr_map d' i = map_option (\<lambda>e. if P e then ?f e else e) (enr_map d i)" for i
    by (simp add: d' enr_rows.tmap_upd)
  have row: "same_token e (if P e then ?f e else e) \<and>
      enr_next\<^sup>*\<^sup>* (enr_Status e) (enr_Status (if P e then ?f e else e))" for e
    using P [of e] by (auto simp: same_token_def intro: r_into_rtranclp)
  have id: "identities d' = identities d" by (simp add: d')
  have ev: "evolves d d'"
    unfolding evolves_def m id using row by simp
  moreover have "enr_ok d'"
  proof (rule enr_ok_change [OF ok _ _ ev])
    show "wf_table enr_ID (enrollments d')"
      unfolding d' by (simp add: enr_rows.wf_upd enr_okD(1) [OF ok])
    show "ident_ok d'" using enr_okD(2) [OF ok] id ident_ok_same by blast
    show "enr_map d i \<noteq> None" if "enr_map d' i \<noteq> None" for i using that by (simp add: m)
    show "enr_row_ok d' e" if e: "enr_map d' i = Some e" for i e
    proof -
      from e obtain x where x: "enr_map d i = Some x" "e = (if P x then ?f x else x)" by (auto simp: m)
      show ?thesis
      proof (cases "P x")
        case True
        then show ?thesis using x by (simp add: enr_row_ok_def)
      next
        case False
        then show ?thesis using x enr_row_ok_transfer [OF enr_okD(5) [OF ok x(1)] ev] by simp
      qed
    qed
  qed
  ultimately show ?thesis by simp
qed

lemma reconcileExpired_effect:
  assumes ok: "enr_ok (w_db w)" and run: "reconcileExpired env dv w = (r, w')"
  shows "enr_ok (w_db w') \<and> evolves (w_db w) (w_db w')"
proof (cases r)
  case (Inl e)
  then show ?thesis using run ok by (auto simp: reconcileExpired_def dest: transaction_Inl_db)
next
  case (Inr u)
  then have "w_db w' = enrollments_update (upd_rows (\<lambda>e. enr_Status e = EPending \<and> enr_ExpiresAt e \<le> clock env (Suc (w_ticks w))
      \<and> (dv \<noteq> 0 \<longrightarrow> enr_DeviceID e = dv)) (\<lambda>e. e\<lparr>enr_Status := EExpired\<rparr>)) (w_db w)"
    using run by (auto simp: reconcileExpired_def expirePending_def op_simps)
  then show ?thesis by (rule expire_effect [OF ok]) simp
qed

lemma CreateEnrollment_success:
  assumes run: "CreateEnrollment env dv ttl w = (Inr (e, k), w')"
  obtains d1 t where
    "1 \<le> ttl" "ttl \<le> 1440"
    "d1 = enrollments_update (upd_rows (\<lambda>e. enr_Status e = EPending \<and> enr_ExpiresAt e \<le> t
      \<and> (dv \<noteq> 0 \<longrightarrow> enr_DeviceID e = dv)) (\<lambda>e. e\<lparr>enr_Status := EExpired\<rparr>)) (w_db w)"
    "enr_ID e = Suc (tbl_seq (enrollments d1))" "enr_DeviceID e = dv" "enr_Status e = EPending"
    "enr_TokenID e = gk_ID k" "enr_SecretHash e = gk_Hash k" "enr_ExpiresAt e = t + duration_minutes ttl"
    "enr_AgentCredentialID e = None"
    "\<forall>x \<in> set (tbl_rows (enrollments d1)). enr_TokenID e \<noteq> enr_TokenID x"
    "\<forall>x \<in> set (tbl_rows (enrollments d1)). enr_DeviceID x = dv \<longrightarrow> \<not> open_status (enr_Status x)"
    "find (\<lambda>d. dev_ID d = dv \<and> dev_Status d = ''active'') (tbl_rows (devices (w_db w))) \<noteq> None"
    "filter (\<lambda>c. idc_DeviceID c = dv \<and> idc_Status c = CActive) (tbl_rows (identities (w_db w))) = []"
    "w_db w' = enrollments_update (ins_row e) d1"
proof -
  let ?t = "clock env (Suc (w_ticks w))"
  let ?d1 = "enrollments_update (upd_rows (\<lambda>e. enr_Status e = EPending \<and> enr_ExpiresAt e \<le> ?t
      \<and> (dv \<noteq> 0 \<longrightarrow> enr_DeviceID e = dv)) (\<lambda>e. e\<lparr>enr_Status := EExpired\<rparr>)) (w_db w)"
  show thesis
    by (rule that [of ?d1 ?t])
      (use run in \<open>auto simp: CreateEnrollment_def MinTTLMinutes_def MaxTTLMinutes_def expirePending_def GenerateEnrollmentKey_def op_simps list_ex_iff comp_def
          filter_empty_conv simp del: table_simps dest!: generateKey_db\<close>)
qed

lemma CreateEnrollment_key:
  "CreateEnrollment env dv ttl w = (Inr (e, k), w') \<Longrightarrow> \<exists>wa wb. generateKey env enrollmentKeyPrefix wa = (Inr k, wb)"
  by (auto simp: CreateEnrollment_def GenerateEnrollmentKey_def op_simps)

lemma enr_ok_insert:
  assumes ok: "enr_ok d" and e: "enr_ID e = Suc (tbl_seq (enrollments d))" "enr_Status e = EPending"
      "enr_AgentCredentialID e = None"
    and tok: "\<forall>x \<in> set (tbl_rows (enrollments d)). enr_TokenID e \<noteq> enr_TokenID x"
    and op: "\<forall>x \<in> set (tbl_rows (enrollments d)). enr_DeviceID x = enr_DeviceID e \<longrightarrow> \<not> open_status (enr_Status x)"
    and d': "d' = enrollments_update (ins_row e) d"
  shows "enr_ok d' \<and> evolves d d'"
proof -
  note o = enr_okD [OF ok]
  have m: "enr_map d' = (enr_map d)(enr_ID e \<mapsto> e)"
    using enr_rows.tmap_ins [OF o(1) e(1)] by (simp add: d')
  have fresh: "enr_map d (enr_ID e) = None" using enr_rows.fresh_key [OF o(1)] e(1) by simp
  have ev: "evolves d d'" unfolding evolves_def m using fresh by (auto simp: d')
  have tok': "enr_TokenID e \<noteq> enr_TokenID x" and op': "enr_DeviceID x = enr_DeviceID e \<Longrightarrow> \<not> open_status (enr_Status x)"
    if "enr_map d j = Some x" for j x
    using tok op enr_rows.tmap_row [OF that] by blast+
  have "enr_ok d'"
    unfolding enr_ok_def
  proof (intro conjI allI impI)
    show "wf_table enr_ID (enrollments d')" using enr_rows.wf_ins [OF o(1) e(1)] by (simp add: d')
    show "ident_ok d'" using o(2) by (rule ident_ok_same [rotated]) (simp add: d')
  next
    fix i j x y
    assume x: "enr_map d' i = Some x" and y: "enr_map d' j = Some y"
    show "i = j" if "enr_TokenID x = enr_TokenID y"
      using x y that tok' o(3) unfolding m by (auto split: if_splits; metis)
    show "i = j" if "enr_DeviceID x = enr_DeviceID y" "open_status (enr_Status x)" "open_status (enr_Status y)"
      using x y that op' o(4) unfolding m by (auto split: if_splits; metis)
  next
    fix i x assume "enr_map d' i = Some x"
    then show "enr_row_ok d' x"
      using e enr_row_ok_transfer [OF o(5) ev] by (auto simp: m enr_row_ok_def split: if_splits)
  qed
  with ev show ?thesis by simp
qed

lemma CreateEnrollment_effect:
  assumes ok: "enr_ok (w_db w)" and run: "CreateEnrollment env dv ttl w = (r, w')"
  shows "enr_ok (w_db w') \<and> evolves (w_db w) (w_db w')"
proof (cases r)
  case (Inl e)
  then show ?thesis
    using run ok by (auto simp: CreateEnrollment_def failIf_apply split: if_splits dest: transaction_Inl_db)
next
  case (Inr x)
  obtain e k where x: "x = (e, k)" by fastforce
  from run [unfolded Inr x] show ?thesis
  proof (rule CreateEnrollment_success)
    fix d1 t
    assume d1: "d1 = enrollments_update (upd_rows (\<lambda>e. enr_Status e = EPending \<and> enr_ExpiresAt e \<le> t
      \<and> (dv \<noteq> 0 \<longrightarrow> enr_DeviceID e = dv)) (\<lambda>e. e\<lparr>enr_Status := EExpired\<rparr>)) (w_db w)"
      and e: "enr_ID e = Suc (tbl_seq (enrollments d1))" "enr_DeviceID e = dv" "enr_Status e = EPending"
        "enr_AgentCredentialID e = None"
        "\<forall>x \<in> set (tbl_rows (enrollments d1)). enr_TokenID e \<noteq> enr_TokenID x"
        "\<forall>x \<in> set (tbl_rows (enrollments d1)). enr_DeviceID x = dv \<longrightarrow> \<not> open_status (enr_Status x)"
      and w': "w_db w' = enrollments_update (ins_row e) d1"
    have 1: "enr_ok d1 \<and> evolves (w_db w) d1" by (rule expire_effect [OF ok d1]) simp
    have "enr_ok (w_db w') \<and> evolves d1 (w_db w')"
      by (rule enr_ok_insert [OF conjunct1 [OF 1] e(1,3,4,5) _ w']) (use e in simp)
    with 1 show ?thesis by (blast intro: evolves_trans)
  qed
qed

lemma exchange_tx_success:
  assumes ok: "enr_ok (w_db w)" and run: "exchange_tx env token tokenID ip w = (Inr (Inr r), w')"
  obtains e t w1 w2 where
    "enr_map (w_db w) (enr_ID e) = Some e" "enr_TokenID e = tokenID" "enr_Status e = EPending"
    "HashAPIKey env token = enr_SecretHash e" "t < enr_ExpiresAt e"
    "w_db w1 = enrollments_update (upd_rows (\<lambda>x. enr_ID x = enr_ID e \<and> enr_Status x = EPending)
       (\<lambda>x. x\<lparr>enr_Status := EIssued, enr_IssuedAt := Some t, enr_UsedIP := ip\<rparr>)) (w_db w)"
    "IssueCredentialTx env (enr_DeviceID e) w1 = (Inr (ex_Credential r, ex_AgentKey r), w2)"
    "w_db w' = enrollments_update (upd_rows (\<lambda>x. enr_ID x = enr_ID e)
       (\<lambda>x. x\<lparr>enr_AgentCredentialID := Some (idc_ID (ex_Credential r))\<rparr>)) (w_db w2)"
    "find (\<lambda>d. dev_ID d = enr_DeviceID e) (tbl_rows (devices (w_db w2))) = Some (ex_Device r)"
    "ex_Enrollment r = e\<lparr>enr_Status := EIssued, enr_IssuedAt := Some t, enr_UsedIP := ip,
        enr_AgentCredentialID := Some (idc_ID (ex_Credential r))\<rparr>"
proof -
  note o = enr_okD [OF ok]
  let ?P = "\<lambda>e. enr_TokenID e = tokenID"
  obtain e where f: "find ?P (tbl_rows (enrollments (w_db w))) = Some e"
    using run by (cases "find ?P (tbl_rows (enrollments (w_db w)))") (simp_all add: exchange_tx_def op_simps)
  note e = enr_rows.find_row [OF o(1) f]
  have st: "enr_Status e = EPending" "HashAPIKey env token = enr_SecretHash e"
    using run f by (auto simp: exchange_tx_def op_simps VerifyAPIKey_iff split: if_splits)
  let ?t = "clock env (Suc (w_ticks w))"
  have ex: "?t < enr_ExpiresAt e"
    using run f st by (cases "?t < enr_ExpiresAt e") (auto simp: exchange_tx_def op_simps VerifyAPIKey_iff)
  let ?w1 = "tick (tick (tick w))\<lparr>w_db := enrollments_update (upd_rows (\<lambda>x. enr_ID x = enr_ID e \<and> enr_Status x = EPending)
       (\<lambda>x. x\<lparr>enr_Status := EIssued, enr_IssuedAt := Some ?t, enr_UsedIP := ip\<rparr>)) (w_db w)\<rparr>"
  from run f st ex obtain c k w2 where
    issue: "IssueCredentialTx env (enr_DeviceID e) ?w1 = (Inr (c, k), w2)" and
    rest: "w_db w' = enrollments_update (upd_rows (\<lambda>x. enr_ID x = enr_ID e)
       (\<lambda>x. x\<lparr>enr_AgentCredentialID := Some (idc_ID c)\<rparr>)) (w_db w2)"
    "find (\<lambda>d. dev_ID d = enr_DeviceID e) (tbl_rows (devices (w_db w2))) = Some (ex_Device r)"
    "r = \<lparr>ex_Enrollment = e\<lparr>enr_Status := EIssued, enr_IssuedAt := Some ?t, enr_UsedIP := ip,
        enr_AgentCredentialID := Some (idc_ID c)\<rparr>, ex_Device = ex_Device r, ex_Credential = c, ex_AgentKey = k\<rparr>"
    by (auto simp: exchange_tx_def op_simps VerifyAPIKey_iff simp del: table_simps)
  have r: "ex_Credential r = c" "ex_AgentKey r = k"
    "ex_Enrollment r = e\<lparr>enr_Status := EIssued, enr_IssuedAt := Some ?t, enr_UsedIP := ip,
        enr_AgentCredentialID := Some (idc_ID c)\<rparr>" by (subst rest(3), simp)+
  show thesis
    by (rule that [of e ?t ?w1 w2]) (use e st ex issue rest(1,2) r in simp_all)
qed

text \<open>A successful exchange as one change of the maps: the token is issued and linked to a new
  identity of its device.\<close>

lemma exchange_tx_writes:
  assumes ok: "enr_ok (w_db w)" and run: "exchange_tx env token tokenID ip w = (Inr (Inr r), w')"
  obtains e t where
    "enr_map (w_db w) (enr_ID e) = Some e" "enr_TokenID e = tokenID" "enr_Status e = EPending"
    "HashAPIKey env token = enr_SecretHash e" "t < enr_ExpiresAt e"
    "ex_Enrollment r = e\<lparr>enr_Status := EIssued, enr_IssuedAt := Some t, enr_UsedIP := ip,
        enr_AgentCredentialID := Some (idc_ID (ex_Credential r))\<rparr>"
    "enr_map (w_db w') = (enr_map (w_db w))(enr_ID e \<mapsto> ex_Enrollment r)"
    "ident_map (w_db w) (idc_ID (ex_Credential r)) = None"
    "ident_map (w_db w') = (ident_map (w_db w))(idc_ID (ex_Credential r) \<mapsto> ex_Credential r)"
    "idc_DeviceID (ex_Credential r) = enr_DeviceID e" "idc_Status (ex_Credential r) = CActive"
    "\<not> active_identity (w_db w) (enr_DeviceID e)"
    "dev_map (w_db w') = dev_map (w_db w)" "dev_map (w_db w) (enr_DeviceID e) = Some (ex_Device r)"
    "ident_ok (w_db w')" "wf_table enr_ID (enrollments (w_db w'))" "devices (w_db w') = devices (w_db w)"
    "\<exists>wx wy. IssueCredentialTx env (enr_DeviceID e) wx = (Inr (ex_Credential r, ex_AgentKey r), wy)"
  using ok run
proof (rule exchange_tx_success)
  fix e t w1 w2
  let ?f = "\<lambda>x. x\<lparr>enr_Status := EIssued, enr_IssuedAt := Some t, enr_UsedIP := ip\<rparr>"
  let ?g = "\<lambda>x. x\<lparr>enr_AgentCredentialID := Some (idc_ID (ex_Credential r))\<rparr>"
  assume e: "enr_map (w_db w) (enr_ID e) = Some e" "enr_TokenID e = tokenID" "enr_Status e = EPending"
    "HashAPIKey env token = enr_SecretHash e" "t < enr_ExpiresAt e"
    and w1: "w_db w1 = enrollments_update (upd_rows (\<lambda>x. enr_ID x = enr_ID e \<and> enr_Status x = EPending) ?f) (w_db w)"
    and issue: "IssueCredentialTx env (enr_DeviceID e) w1 = (Inr (ex_Credential r, ex_AgentKey r), w2)"
    and w': "w_db w' = enrollments_update (upd_rows (\<lambda>x. enr_ID x = enr_ID e) ?g) (w_db w2)"
    and dev: "find (\<lambda>d. dev_ID d = enr_DeviceID e) (tbl_rows (devices (w_db w2))) = Some (ex_Device r)"
    and exr: "ex_Enrollment r = e\<lparr>enr_Status := EIssued, enr_IssuedAt := Some t, enr_UsedIP := ip,
        enr_AgentCredentialID := Some (idc_ID (ex_Credential r))\<rparr>"
  note o = enr_okD [OF ok]
  have ok1: "ident_ok (w_db w1)" using o(2) w1 ident_ok_same by force
  note a = aa.issue_adds [OF ok1 issue] and m = aa.issue_map [OF ok1 issue]
  have m1: "enr_map (w_db w1) = (enr_map (w_db w))(enr_ID e \<mapsto> ?f e)"
    using enr_rows.tmap_upd_key [where f = ?f and Q = "\<lambda>x. enr_Status x = EPending", OF _ e(1,3)] w1 by simp
  have e1: "enr_map (w_db w2) (enr_ID e) = Some (?f e)" using m1 a by simp
  have "enr_map (w_db w') = (enr_map (w_db w2))(enr_ID e \<mapsto> ?g (?f e))"
    using enr_rows.tmap_upd_id [where f = ?g, OF _ e1] w' by simp
  then have "enr_map (w_db w') = (enr_map (w_db w))(enr_ID e \<mapsto> ex_Enrollment r)" using m1 a exr by simp
  moreover have "wf_table enr_ID (enrollments (w_db w'))" using o(1) w1 a w' by (simp add: enr_rows.wf_upd)
  moreover have "ident_ok (w_db w')" using aa.issue_keeps_ok [OF ok1 issue] w' ident_ok_same by force
  moreover have "dev_map (w_db w) (enr_DeviceID e) = Some (ex_Device r)"
    using dev a w1 by (simp add: device_rows.find_id)
  moreover have "\<not> active_identity (w_db w) (enr_DeviceID e)" using a w1 by (simp add: active_identity_def)
  moreover have "\<exists>wx wy. IssueCredentialTx env (enr_DeviceID e) wx = (Inr (ex_Credential r, ex_AgentKey r), wy)"
    using issue by blast
  ultimately show thesis
    using e exr a m w1 w' by (intro that [of e t]) simp_all
qed

lemma exchange_tx_effect:
  assumes ok: "enr_ok (w_db w)" and run: "exchange_tx env token tokenID ip w = (Inr (Inr r), w')"
  shows "enr_ok (w_db w') \<and> evolves (w_db w) (w_db w')"
  using assms
proof (rule exchange_tx_writes)
  fix e t
  assume e: "enr_map (w_db w) (enr_ID e) = Some e" "enr_Status e = EPending"
    and exr: "ex_Enrollment r = e\<lparr>enr_Status := EIssued, enr_IssuedAt := Some t, enr_UsedIP := ip,
        enr_AgentCredentialID := Some (idc_ID (ex_Credential r))\<rparr>"
    and m: "enr_map (w_db w') = (enr_map (w_db w))(enr_ID e \<mapsto> ex_Enrollment r)"
      "ident_map (w_db w) (idc_ID (ex_Credential r)) = None"
      "ident_map (w_db w') = (ident_map (w_db w))(idc_ID (ex_Credential r) \<mapsto> ex_Credential r)"
    and c: "idc_DeviceID (ex_Credential r) = enr_DeviceID e"
    and wf: "ident_ok (w_db w')" "wf_table enr_ID (enrollments (w_db w'))"
  show ?thesis
  proof (rule enr_ok_row [OF ok e(1) _ _ m(1) wf(2,1)])
    show "same_token e (ex_Enrollment r)" by (simp add: exr same_token_def)
    show "enr_next\<^sup>*\<^sup>* (enr_Status e) (enr_Status (ex_Enrollment r))" by (auto simp: exr e(2) intro: r_into_rtranclp)
    show "\<exists>c'. ident_map (w_db w') n = Some c' \<and> same_identity c c'" if "ident_map (w_db w) n = Some c" for n c
      using that m(2,3) by auto
    show "enr_row_ok (w_db w') (ex_Enrollment r)" using m(3) c by (auto simp: enr_row_ok_def exr)
  qed
qed

text \<open>A result error of the transaction at most marks the token as expired.\<close>

lemma exchange_tx_refused:
  assumes ok: "enr_ok (w_db w)" and run: "exchange_tx env token tokenID ip w = (Inr (Inl e), w')"
  shows "e = ErrEnrollment EErrBadAuth" "enr_ok (w_db w') \<and> evolves (w_db w) (w_db w')"
    "identities (w_db w') = identities (w_db w)" "devices (w_db w') = devices (w_db w)"
proof -
  have "w_db w' = w_db w \<or> (\<exists>i. w_db w' = enrollments_update (upd_rows (\<lambda>x. enr_ID x = i \<and> enr_Status x = EPending)
      (\<lambda>x. x\<lparr>enr_Status := EExpired\<rparr>)) (w_db w))" and "e = ErrEnrollment EErrBadAuth"
    using run by (auto simp: exchange_tx_def op_simps split: option.splits if_splits)
  then show "e = ErrEnrollment EErrBadAuth" "enr_ok (w_db w') \<and> evolves (w_db w) (w_db w')"
    "identities (w_db w') = identities (w_db w)" "devices (w_db w') = devices (w_db w)"
    using expire_effect [OF ok] ok by auto
qed

lemma Exchange_cases:
  assumes run: "Exchange env token ip w = (res, w')"
  obtains (failed) e where "res = Inl e" "w_db w' = w_db w"
  | (refused) e w0 w1 tokenID where "res = Inl e" "ParseEnrollmentKeyID token = Some tokenID" "w_db w0 = w_db w"
      "exchange_tx env token tokenID ip w0 = (Inr (Inl e), w1)" "w_db w' = w_db w1"
  | (issued) r w0 w1 tokenID where "res = Inr r" "ParseEnrollmentKeyID token = Some tokenID" "w_db w0 = w_db w"
      "exchange_tx env token tokenID ip w0 = (Inr (Inr r), w1)" "w_db w' = w_db w1"
proof (cases "ParseEnrollmentKeyID token")
  case None
  with run show thesis by (intro failed [of "ErrEnrollment EErrBadAuth"]) (auto simp: Exchange_def)
next
  case (Some tokenID)
  obtain x w2 where tx: "transaction env (exchange_tx env token tokenID ip) w = (x, w2)" by fastforce
  show thesis
  proof (cases x)
    case (Inl e)
    have "w_db w2 = w_db w" by (rule transaction_Inl_db [OF tx [unfolded Inl]])
    with run Some tx Inl show thesis by (intro failed [of e]) (auto simp: Exchange_def bindE_def)
  next
    case (Inr y)
    then obtain w1 where w1: "exchange_tx env token tokenID ip (tick w) = (Inr y, w1)" "w_db w2 = w_db w1"
      using tx by (auto simp: transaction_Inr)
    have res: "(case y of Inl e \<Rightarrow> raise e | Inr r \<Rightarrow> ret r) w2 = (res, w')"
      using run Some tx Inr by (simp add: Exchange_def bindE_def)
    show thesis
    proof (cases y)
      case (Inl e)
      with res w1 Some show thesis by (intro refused [of e tokenID "tick w" w1]) auto
    next
      case (Inr r)
      with res w1 Some show thesis by (intro issued [of r tokenID "tick w" w1]) auto
    qed
  qed
qed

lemma Exchange_effect:
  assumes ok: "enr_ok (w_db w)" and run: "Exchange env token ip w = (res, w')"
  shows "enr_ok (w_db w') \<and> evolves (w_db w) (w_db w')"
  using run
proof (cases rule: Exchange_cases)
  case failed
  then show ?thesis using ok by simp
next
  case (refused e w0 w1 tokenID)
  then show ?thesis using exchange_tx_refused(2) [of w0] ok by simp
next
  case (issued r w0 w1 tokenID)
  then show ?thesis using exchange_tx_effect [of w0] ok by simp
qed

lemma newest_first_hd: "newest_first c rows = r # rs \<Longrightarrow> r \<in> set rows"
  by (metis list.set_intros(1) set_newest_first)

lemma ConfirmEnrollment_success:
  assumes ok: "enr_ok (w_db w)" and run: "ConfirmEnrollment env dv cid ip ver w = (Inr r, w')"
  obtains e t where
    "enr_map (w_db w) (enr_ID e) = Some e" "enr_DeviceID e = dv" "enr_AgentCredentialID e = Some cid"
    "enr_Status e = EIssued \<and> r = e\<lparr>enr_Status := ECompleted, enr_CompletedAt := Some t\<rparr> \<or>
     enr_Status e = ECompleted \<and> r = e"
    "enr_map (w_db w') = (enr_map (w_db w))(enr_ID e \<mapsto> r)"
    "identities (w_db w') = identities (w_db w)" "wf_table enr_ID (enrollments (w_db w'))"
    "devices (w_db w') = upd_rows (\<lambda>d. dev_ID d = dv) (\<lambda>d. d\<lparr>dev_LastSeenAt := Some t, dev_LastIP := ip,
       dev_AgentVersion := (if ver \<noteq> [] then ver else dev_AgentVersion d)\<rparr>) (devices (w_db w))"
proof -
  note o = enr_okD [OF ok]
  let ?P = "\<lambda>e. enr_DeviceID e = dv \<and> enr_AgentCredentialID e = Some cid \<and> enr_Status e \<in> {EIssued, ECompleted}"
  let ?rows = "filter ?P (tbl_rows (enrollments (w_db w)))"
  obtain e es where n: "newest_first enr_CreatedAt ?rows = e # es"
    using run by (cases "newest_first enr_CreatedAt ?rows") (simp_all add: ConfirmEnrollment_def op_simps)
  have e: "e \<in> set (tbl_rows (enrollments (w_db w)))" "?P e" using newest_first_hd [OF n] by auto
  have em: "enr_map (w_db w) (enr_ID e) = Some e" by (rule enr_rows.row_tmap [OF o(1) e(1)])
  let ?t = "clock env (Suc (Suc (w_ticks w)))"
  let ?f = "\<lambda>x. x\<lparr>enr_Status := ECompleted, enr_CompletedAt := Some ?t\<rparr>"
  let ?D = "\<lambda>d. d\<lparr>dev_LastSeenAt := Some ?t, dev_LastIP := ip,
       dev_AgentVersion := (if ver \<noteq> [] then ver else dev_AgentVersion d)\<rparr>"
  show thesis
  proof (cases "enr_Status e = EIssued")
    case True
    from run n True have r: "r = ?f e" and w': "w_db w' = devices_update (upd_rows (\<lambda>d. dev_ID d = dv) ?D)
        (enrollments_update (upd_rows (\<lambda>x. enr_ID x = enr_ID e \<and> enr_Status x = EIssued) ?f) (w_db w))"
      by (auto simp: ConfirmEnrollment_def op_simps simp del: table_simps)
    have "enr_map (w_db w') = (enr_map (w_db w))(enr_ID e \<mapsto> ?f e)"
      using enr_rows.tmap_upd_key [where f = ?f and Q = "\<lambda>x. enr_Status x = EIssued", OF _ em True] w' by simp
    with True e em r w' o(1) show thesis by (intro that [of e ?t]) (simp_all add: enr_rows.wf_upd)
  next
    case False
    then have st: "enr_Status e = ECompleted" using e by simp
    from run n False have "r = e" and w': "w_db w' = devices_update (upd_rows (\<lambda>d. dev_ID d = dv) ?D) (w_db w)"
      by (auto simp: ConfirmEnrollment_def op_simps simp del: table_simps)
    with st e em o(1) show thesis by (intro that [of e ?t]) (auto simp: fun_eq_iff)
  qed
qed

lemma ConfirmEnrollment_effect:
  assumes ok: "enr_ok (w_db w)" and run: "ConfirmEnrollment env dv cid ip ver w = (r, w')"
  shows "enr_ok (w_db w') \<and> evolves (w_db w) (w_db w')"
proof (cases r)
  case (Inl e)
  then show ?thesis using run ok by (auto simp: ConfirmEnrollment_def dest: transaction_Inl_db)
next
  case (Inr x)
  note o = enr_okD [OF ok]
  from ok run [unfolded Inr] show ?thesis
  proof (rule ConfirmEnrollment_success)
    fix e t
    assume e: "enr_map (w_db w) (enr_ID e) = Some e" "enr_AgentCredentialID e = Some cid"
      and st: "enr_Status e = EIssued \<and> x = e\<lparr>enr_Status := ECompleted, enr_CompletedAt := Some t\<rparr> \<or>
        enr_Status e = ECompleted \<and> x = e"
      and m: "enr_map (w_db w') = (enr_map (w_db w))(enr_ID e \<mapsto> x)"
      and id: "identities (w_db w') = identities (w_db w)" and wf: "wf_table enr_ID (enrollments (w_db w'))"
    show ?thesis
    proof (rule enr_ok_row [OF ok e(1) _ _ m wf ident_ok_same [OF id o(2)] ident_evolves [OF id]])
      show "same_token e x" using st by (auto simp: same_token_def)
      show "enr_next\<^sup>*\<^sup>* (enr_Status e) (enr_Status x)" using st by (auto intro: r_into_rtranclp)
      show "enr_row_ok (w_db w') x" using st o(5) [OF e(1)] id by (auto simp: enr_row_ok_def)
    qed
  qed
qed

text \<open>The identity a revocation leaves behind is not active any more.\<close>

lemma revoke_issued_success:
  assumes ok: "ident_ok (w_db w)" and run: "revoke_issued env dv n w = (Inr u, w')"
  shows "ident_ok (w_db w')" "\<exists>c. ident_map (w_db w') n = Some c \<and> idc_DeviceID c = dv \<and> idc_Status c = CRevoked"
    "\<And>j c. ident_map (w_db w) j = Some c \<Longrightarrow> \<exists>c'. ident_map (w_db w') j = Some c' \<and> same_identity c c' \<and> (j \<noteq> n \<longrightarrow> c' = c)"
    "enrollments (w_db w') = enrollments (w_db w)" "devices (w_db w') = devices (w_db w)"
proof -
  have wf: "wf_table idc_ID (identities (w_db w))" by (rule ident_okD(1) [OF ok])
  from run consider (revoked) "RevokeCredentialTx env dv n w = (Inr u, w')"
    | (earlier) w1 where "RevokeCredentialTx env dv n w = (Inl (ErrAgentAuth AErrCredentialNotFound), w1)"
      "find (\<lambda>c. idc_ID c = n \<and> idc_DeviceID c = dv \<and> idc_Status c = CRevoked) (tbl_rows (identities (w_db w1))) \<noteq> None"
      "w_db w' = w_db w1"
    by (auto simp: revoke_issued_def op_simps split: if_splits)
  then have "ident_ok (w_db w') \<and> (\<exists>c. ident_map (w_db w') n = Some c \<and> idc_DeviceID c = dv \<and> idc_Status c = CRevoked) \<and>
    (\<forall>j c. ident_map (w_db w) j = Some c \<longrightarrow> (\<exists>c'. ident_map (w_db w') j = Some c' \<and> same_identity c c' \<and> (j \<noteq> n \<longrightarrow> c' = c))) \<and>
    enrollments (w_db w') = enrollments (w_db w) \<and> devices (w_db w') = devices (w_db w)"
  proof cases
    case revoked
    from RevokeCredentialTx_success [OF wf revoked] obtain c t where
      c: "ident_map (w_db w) n = Some c" "idc_DeviceID c = dv" "idc_Status c = CActive" and
      w': "w_db w' = identities_update (upd_rows (\<lambda>c. idc_ID c = n \<and> idc_DeviceID c = dv \<and> idc_Status c = CActive)
       (\<lambda>c. c\<lparr>idc_Status := CRevoked, idc_RevokedAt := Some t\<rparr>)) (w_db w)" (is "_ = identities_update (upd_rows _ ?f) _")
      by blast
    have m: "ident_map (w_db w') = (ident_map (w_db w))(n \<mapsto> ?f c)"
      using ident_rows.tmap_upd_key [where f = ?f and Q = "\<lambda>c. idc_DeviceID c = dv \<and> idc_Status c = CActive", OF _ c(1)] c w'
      by simp
    show ?thesis
      using aa.revoke_keeps_ok(1) [OF ok revoked] c m by (auto simp: w' same_identity_def)
  next
    case earlier
    have "w_db w1 = w_db w" by (rule RevokeCredentialTx_not_found(1) [OF earlier(1) wf])
    with earlier ok show ?thesis
      by (auto simp: ident_rows.find_key_case [OF wf] split: option.splits if_splits)
  qed
  then show "ident_ok (w_db w')" "\<exists>c. ident_map (w_db w') n = Some c \<and> idc_DeviceID c = dv \<and> idc_Status c = CRevoked"
    "\<And>j c. ident_map (w_db w) j = Some c \<Longrightarrow> \<exists>c'. ident_map (w_db w') j = Some c' \<and> same_identity c c' \<and> (j \<noteq> n \<longrightarrow> c' = c)"
    "enrollments (w_db w') = enrollments (w_db w)" "devices (w_db w') = devices (w_db w)" by blast+
qed

lemma revoke_tx_success:
  assumes ok: "enr_ok (w_db w)" and run: "revoke_tx env dv i w = (Inr r, w')"
  obtains e where "enr_map (w_db w) i = Some e" "enr_DeviceID e = dv" "enr_Status r = ERevoked"
    "enr_map (w_db w') = (enr_map (w_db w))(i \<mapsto> r)" "enr_Status e \<in> {EPending, EIssued, ERevoked}"
    "enr_Status e = ERevoked \<Longrightarrow> r = e \<and> w_db w' = w_db w"
    "same_token e r" "enr_AgentCredentialID r = enr_AgentCredentialID e"
    "ident_ok (w_db w')" "wf_table enr_ID (enrollments (w_db w'))" "devices (w_db w') = devices (w_db w)"
    "\<And>j c. ident_map (w_db w) j = Some c \<Longrightarrow> \<exists>c'. ident_map (w_db w') j = Some c' \<and> same_identity c c'"
    "enr_Status e = EIssued \<Longrightarrow> \<exists>n c. enr_AgentCredentialID e = Some n \<and> ident_map (w_db w') n = Some c \<and>
       idc_DeviceID c = dv \<and> idc_Status c = CRevoked"
proof -
  note o = enr_okD [OF ok]
  let ?P = "\<lambda>e. enr_ID e = i \<and> enr_DeviceID e = dv"
  obtain e where f: "find ?P (tbl_rows (enrollments (w_db w))) = Some e"
    using run by (cases "find ?P (tbl_rows (enrollments (w_db w)))") (simp_all add: revoke_tx_def op_simps)
  then have e: "enr_map (w_db w) i = Some e" "enr_DeviceID e = dv"
    using enr_rows.find_key [OF o(1), of i "\<lambda>e. enr_DeviceID e = dv"] by simp_all
  have k: "enr_ID e = i" using e(1) by (rule enr_rows.tmap_key)
  let ?t = "clock env (Suc (w_ticks w))"
  let ?f = "\<lambda>e. e\<lparr>enr_Status := ERevoked, enr_RevokedAt := Some ?t\<rparr>"
  consider (gone) "enr_Status e = ERevoked" | (pending) "enr_Status e = EPending"
    | (issued) n where "enr_Status e = EIssued" "enr_AgentCredentialID e = Some n"
    using run f by (cases "enr_Status e"; cases "enr_AgentCredentialID e") (auto simp: revoke_tx_def op_simps)
  then show thesis
  proof cases
    case gone
    with run f have "r = e" "w_db w' = w_db w" by (auto simp: revoke_tx_def op_simps)
    with gone e o show thesis by (intro that [of e]) auto
  next
    case pending
    with run f have r: "r = ?f e" and w': "w_db w' = enrollments_update (upd_rows
        (\<lambda>x. enr_ID x = enr_ID e \<and> open_status (enr_Status x)) ?f) (w_db w)"
      by (auto simp: revoke_tx_def op_simps simp del: table_simps)
    have "enr_map (w_db w') = (enr_map (w_db w))(i \<mapsto> ?f e)"
      using enr_rows.tmap_upd_key [where f = ?f and Q = "\<lambda>x. open_status (enr_Status x)", OF _ e(1)] pending k w'
      by (simp add: open_status_def)
    moreover have "ident_ok (w_db w')" using o(2) w' ident_ok_same by force
    ultimately show thesis using pending e k r w' o(1)
      by (intro that [of e]) (auto simp: same_token_def enr_rows.wf_upd)
  next
    case (issued n)
    from run f issued obtain w0 w1 where rev: "revoke_issued env dv n w0 = (Inr (), w1)" "w_db w0 = w_db w"
      and r: "r = ?f e" and w': "w_db w' = enrollments_update (upd_rows
        (\<lambda>x. enr_ID x = enr_ID e \<and> open_status (enr_Status x)) ?f) (w_db w1)"
      by (auto simp: revoke_tx_def op_simps simp del: table_simps)
    note s = revoke_issued_success [OF _ rev(1), unfolded rev(2), OF o(2)]
    have "enr_map (w_db w') = (enr_map (w_db w))(i \<mapsto> ?f e)"
      using enr_rows.tmap_upd_key [where f = ?f and Q = "\<lambda>x. open_status (enr_Status x)", OF _ e(1)] issued k w' s(4)
      by (simp add: open_status_def)
    moreover have "ident_ok (w_db w')" using s(1) w' ident_ok_same by force
    moreover have "wf_table enr_ID (enrollments (w_db w'))" using o(1) w' s(4) by (simp add: enr_rows.wf_upd)
    moreover have "\<exists>c'. ident_map (w_db w') j = Some c' \<and> same_identity c c'" if "ident_map (w_db w) j = Some c" for j c
      using s(3) [OF that] w' by auto
    moreover have "\<exists>c. ident_map (w_db w') n = Some c \<and> idc_DeviceID c = dv \<and> idc_Status c = CRevoked"
      using s(2) w' by simp
    ultimately show thesis using issued e r w' s(5)
      by (intro that [of e]) (auto simp: same_token_def)
  qed
qed

lemma reconcileExpired_keeps_others:
  assumes run: "reconcileExpired env dv w = (r, w')" and x: "enr_map (w_db w) j = Some x" "enr_Status x \<noteq> EPending"
  shows "enr_map (w_db w') j = Some x"
proof (cases r)
  case (Inl e)
  then show ?thesis using run x by (auto simp: reconcileExpired_def dest: transaction_Inl_db)
next
  case (Inr u)
  then have "w_db w' = enrollments_update (upd_rows (\<lambda>e. enr_Status e = EPending \<and> enr_ExpiresAt e \<le> clock env (Suc (w_ticks w))
      \<and> (dv \<noteq> 0 \<longrightarrow> enr_DeviceID e = dv)) (\<lambda>e. e\<lparr>enr_Status := EExpired\<rparr>)) (w_db w)"
    using run by (auto simp: reconcileExpired_def expirePending_def op_simps)
  then show ?thesis using x by (simp add: enr_rows.tmap_upd)
qed

lemma RevokeEnrollment_cases:
  fixes w w' :: world
  assumes ok: "enr_ok (w_db w)" and run: "RevokeEnrollment env dv i w = (res, w')"
  obtains (failed) e :: err and w1 :: world where "res = Inl e" "w_db w' = w_db w1" "enr_ok (w_db w1) \<and> evolves (w_db w) (w_db w1)"
  | (revoked) r and w1 w2 :: world where "res = Inr r" "enr_ok (w_db w1) \<and> evolves (w_db w) (w_db w1)"
      "revoke_tx env dv i w1 = (Inr r, w2)" "w_db w' = w_db w2"
      "\<And>j x. enr_map (w_db w) j = Some x \<Longrightarrow> enr_Status x \<noteq> EPending \<Longrightarrow> enr_map (w_db w1) j = Some x"
proof -
  obtain x w1 where rec: "reconcileExpired env dv w = (x, w1)" by fastforce
  note e = reconcileExpired_effect [OF ok rec]
  show thesis
  proof (cases x)
    case (Inl err)
    with run rec e show thesis by (intro failed [of err w1]) (auto simp: RevokeEnrollment_def bindE_def)
  next
    case (Inr u)
    with run rec have tx: "transaction env (revoke_tx env dv i) w1 = (res, w')"
      by (simp add: RevokeEnrollment_def bindE_def)
    show thesis
    proof (cases res)
      case (Inl err)
      have "w_db w' = w_db w1" by (rule transaction_Inl_db [OF tx [unfolded Inl]])
      with Inl e show thesis by (intro failed)
    next
      case (Inr r)
      then obtain w2 where "revoke_tx env dv i (tick w1) = (Inr r, w2)" "w_db w' = w_db w2"
        using tx by (auto simp: transaction_Inr)
      with Inr e reconcileExpired_keeps_others [OF rec] show thesis by (intro revoked [of r "tick w1" w2]) auto
    qed
  qed
qed

lemma RevokeEnrollment_effect:
  assumes ok: "enr_ok (w_db w)" and run: "RevokeEnrollment env dv i w = (res, w')"
  shows "enr_ok (w_db w') \<and> evolves (w_db w) (w_db w')"
  using assms
proof (cases rule: RevokeEnrollment_cases)
  case (failed e w1)
  then show ?thesis by simp
next
  case (revoked r w1 w2)
  have ok1: "enr_ok (w_db w1)" using revoked(2) by simp
  from ok1 revoked(3) have "enr_ok (w_db w2) \<and> evolves (w_db w1) (w_db w2)"
  proof (rule revoke_tx_success)
    fix e
    assume e: "enr_map (w_db w1) i = Some e" "enr_Status r = ERevoked" "enr_Status e \<in> {EPending, EIssued, ERevoked}"
      and m: "enr_map (w_db w2) = (enr_map (w_db w1))(i \<mapsto> r)" and st: "same_token e r"
      and wf: "ident_ok (w_db w2)" "wf_table enr_ID (enrollments (w_db w2))"
      and ids: "\<And>j c. ident_map (w_db w1) j = Some c \<Longrightarrow> \<exists>c'. ident_map (w_db w2) j = Some c' \<and> same_identity c c'"
    show ?thesis
    proof (rule enr_ok_row [OF ok1 e(1) st _ m wf(2,1) ids])
      show "enr_next\<^sup>*\<^sup>* (enr_Status e) (enr_Status r)" using e(2,3) by (auto intro: r_into_rtranclp)
      show "enr_row_ok (w_db w2) r" using e(2) by (simp add: enr_row_ok_def)
    qed
  qed
  with revoked show ?thesis by (auto intro: evolves_trans)
qed

lemma IssueCredential_effect:
  assumes ok: "enr_ok (w_db w)" and run: "IssueCredential env dv w = (res, w')"
  shows "enr_ok (w_db w') \<and> evolves (w_db w) (w_db w')"
proof (cases res)
  case (Inl e)
  then show ?thesis using run ok by (auto simp: IssueCredential_def dest: transaction_Inl_db)
next
  case (Inr x)
  note o = enr_okD [OF ok]
  obtain c k where x: "x = (c, k)" by fastforce
  obtain w1 where tx: "IssueCredentialTx env dv (tick w) = (Inr (c, k), w1)" "w_db w' = w_db w1"
    using IssueCredential_Inr [OF run [unfolded Inr x]] by blast
  have ok0: "ident_ok (w_db (tick w))" using o(2) by simp
  note a = aa.issue_adds [OF ok0 tx(1)] and m = aa.issue_map [OF ok0 tx(1)]
  have ev: "evolves (w_db w) (w_db w')" using m a tx(2) by (auto simp: evolves_def)
  moreover have "enr_ok (w_db w')"
  proof (rule enr_ok_change [OF ok _ _ ev])
    show "wf_table enr_ID (enrollments (w_db w'))" using o(1) a tx(2) by simp
    show "ident_ok (w_db w')" using aa.issue_keeps_ok [OF ok0 tx(1)] tx(2) by simp
    show "enr_map (w_db w) i \<noteq> None" if "enr_map (w_db w') i \<noteq> None" for i using that a tx(2) by simp
    show "enr_row_ok (w_db w') e" if "enr_map (w_db w') i = Some e" for i e
      using that enr_row_ok_transfer [OF o(5) ev] a tx(2) by simp
  qed
  ultimately show ?thesis by simp
qed

lemma identity_change_effect:
  assumes ok: "enr_ok d" and d': "d' = identities_update (upd_rows P f) d"
    and f: "\<And>c. idc_ID (f c) = idc_ID c" "\<And>c. P c \<Longrightarrow> same_identity c (f c)"
    and st: "\<And>c. idc_Status (f c) = CActive \<Longrightarrow> idc_Status c = CActive"
      "\<And>c. idc_CredentialID (f c) = idc_CredentialID c" "\<And>c. idc_DeviceID (f c) = idc_DeviceID c"
  shows "enr_ok d' \<and> evolves d d'"
proof -
  note o = enr_okD [OF ok]
  have m: "ident_map d' i = map_option (\<lambda>c. if P c then f c else c) (ident_map d i)" for i
    by (simp add: d' ident_rows.tmap_upd f)
  have ev: "evolves d d'" unfolding evolves_def m using f(2) by (auto simp: d')
  moreover have "enr_ok d'"
  proof (rule enr_ok_change [OF ok _ _ ev])
    show "wf_table enr_ID (enrollments d')" using o(1) by (simp add: d')
    show "ident_ok d'" by (rule ident_ok_upd [where f = f and P = P, OF o(2) f(1) st(2,3,1)]) (simp_all add: d')
    show "enr_map d i \<noteq> None" if "enr_map d' i \<noteq> None" for i using that by (simp add: d')
    show "enr_row_ok d' e" if "enr_map d' i = Some e" for i e
      using that enr_row_ok_transfer [OF o(5) ev] by (simp add: d')
  qed
  ultimately show ?thesis by simp
qed

lemma RevokeCredential_effect:
  assumes ok: "enr_ok (w_db w)" and run: "RevokeCredential env dv i w = (res, w')"
  shows "enr_ok (w_db w') \<and> evolves (w_db w) (w_db w')"
proof (cases res)
  case (Inl e)
  then show ?thesis using run ok by (auto simp: RevokeCredential_def dest: transaction_Inl_db)
next
  case (Inr u)
  then obtain w1 where tx: "RevokeCredentialTx env dv i (tick w) = (Inr u, w1)" "w_db w' = w_db w1"
    using RevokeCredential_Inr run by blast
  have "wf_table idc_ID (identities (w_db (tick w)))" using enr_okD(2) [OF ok] ident_okD(1) by simp
  from this tx(1) show ?thesis
  proof (rule RevokeCredentialTx_success)
    fix c t
    assume d': "w_db w1 = identities_update (upd_rows (\<lambda>c. idc_ID c = i \<and> idc_DeviceID c = dv \<and> idc_Status c = CActive)
       (\<lambda>c. c\<lparr>idc_Status := CRevoked, idc_RevokedAt := Some t\<rparr>)) (w_db (tick w))"
    show ?thesis unfolding tx(2)
      by (rule identity_change_effect [OF ok d' [unfolded tick_simps]]) (auto simp: same_identity_def)
  qed
qed

lemma AuthenticateAgent_failed: "AuthenticateAgent env key ip w = (Inl e, w') \<Longrightarrow> w_db w' = w_db w"
  by (auto simp: AuthenticateAgent_def bindE_def errTo_def orFail_def failIf_def now_def first_def updates_def stmt_def
      split: option.splits if_splits)

lemma AuthenticateAgent_effect:
  assumes ok: "enr_ok (w_db w)" and run: "AuthenticateAgent env key ip w = (res, w')"
  shows "enr_ok (w_db w') \<and> evolves (w_db w) (w_db w')"
proof (cases res)
  case (Inl e)
  then show ?thesis using run AuthenticateAgent_failed ok by simp
next
  case (Inr x)
  obtain y c' where x: "x = (y, c')" by fastforce
  let ?f = "\<lambda>t y. y\<lparr>idc_LastUsedAt := Some t, idc_LastUsedIP := ip\<rparr>"
  have "\<exists>(c :: identity_credential) t. w_db w' = identities_update (upd_rows (\<lambda>y. idc_ID y = idc_ID c) (?f t)) (w_db w)"
    using run unfolding Inr x by (clarsimp simp: AuthenticateAgent_def op_simps) (intro exI, rule refl)
  then obtain c :: identity_credential and t where w': "w_db w' = identities_update (upd_rows (\<lambda>y. idc_ID y = idc_ID c) (?f t)) (w_db w)"
    by blast
  show ?thesis by (rule identity_change_effect [OF ok w']) (simp_all add: same_identity_def)
qed

end
