(* ===== verification/Hermes_Telemetry.thy ===== *)
theory Hermes_Telemetry
  imports Hermes_Demo "HOL-Library.Char_ord" "HOL-Library.List_Lexorder"
begin

text \<open>
  \<open>internal/telemetry/service.go\<close>: the heartbeats of an agent, one snapshot row per device,
  and the presence computed from them. An absent field of a heartbeat (a nil pointer) is
  \<open>None\<close>. The unsigned counters are 64-bit words; a \<open>float64\<close> may be any special value.
\<close>

section \<open>Operations\<close>

definition DefaultHeartbeatIntervalSeconds :: int where "DefaultHeartbeatIntervalSeconds = 60"
definition DefaultOnlineThresholdSeconds :: int where "DefaultOnlineThresholdSeconds = 180"

datatype agent_state = AgentStateNeverSeen | AgentStateOnline | AgentStateOffline

record heartbeat_input =
  hb_AgentVersion :: "string option"
  hb_SystemHostname :: "string option"
  hb_Platform :: "string option"
  hb_Architecture :: "string option"
  hb_OSVersion :: "string option"
  hb_KernelVersion :: "string option"
  hb_FirmwareVersion :: "string option"
  hb_BootID :: "string option"
  hb_UptimeSeconds :: "64 word option"
  hb_CPUCount :: "int option"
  hb_Load1 :: "float64 option"
  hb_Load5 :: "float64 option"
  hb_Load15 :: "float64 option"
  hb_MemoryTotalBytes :: "64 word option"
  hb_MemoryAvailableBytes :: "64 word option"
  hb_DiskTotalBytes :: "64 word option"
  hb_DiskAvailableBytes :: "64 word option"

record agent_status =
  as_Device :: device
  as_State :: agent_state
  as_Online :: bool
  as_HeartbeatAgeSeconds :: "int option"
  as_Telemetry :: "telemetry_snapshot option"

definition bad_load :: "float64 \<Rightarrow> bool" where
  "bad_load x \<longleftrightarrow> x = F_NaN \<or> x = F_PosInf \<or> x = F_NegInf \<or> f_less_const x 0 \<or> f_greater_const x 1000000"

definition MaxInt64 :: "64 word" where "MaxInt64 = 9223372036854775807"

definition validateInput :: "heartbeat_input \<Rightarrow> telemetry_err option" where
  "validateInput input =
     (if (case hb_CPUCount input of None \<Rightarrow> False | Some n \<Rightarrow> n < 1 \<or> n > 4096) then Some TErrInvalidCPUCount
      else if list_ex (\<lambda>load. case load of None \<Rightarrow> False | Some x \<Rightarrow> bad_load x)
                [hb_Load1 input, hb_Load5 input, hb_Load15 input] then Some TErrInvalidLoad
      else if list_ex (\<lambda>counter. case counter of None \<Rightarrow> False | Some x \<Rightarrow> x > MaxInt64)
                [hb_UptimeSeconds input, hb_MemoryTotalBytes input, hb_MemoryAvailableBytes input,
                 hb_DiskTotalBytes input, hb_DiskAvailableBytes input] then Some TErrInvalidCounter
      else None)"

definition validateSnapshot :: "telemetry_snapshot \<Rightarrow> telemetry_err option" where
  "validateSnapshot snapshot =
     (if tel_CPUCount snapshot < 0 \<or> tel_CPUCount snapshot > 4096 then Some TErrInvalidCPUCount
      else if f_less_const (tel_Load1 snapshot) 0 \<or> f_less_const (tel_Load5 snapshot) 0 \<or>
              f_less_const (tel_Load15 snapshot) 0 \<or> f_greater_const (tel_Load1 snapshot) 1000000 \<or>
              f_greater_const (tel_Load5 snapshot) 1000000 \<or> f_greater_const (tel_Load15 snapshot) 1000000
           then Some TErrInvalidLoad
      else if tel_MemoryTotalBytes snapshot > 0 \<and>
              tel_MemoryAvailableBytes snapshot > tel_MemoryTotalBytes snapshot then Some TErrInvalidMemoryMetrics
      else if tel_DiskTotalBytes snapshot > 0 \<and>
              tel_DiskAvailableBytes snapshot > tel_DiskTotalBytes snapshot then Some TErrInvalidDiskMetrics
      else None)"

text \<open>\<open>applyString\<close> and the assignments of \<open>applyHeartbeat\<close>: a field that is present replaces the old one.\<close>

definition applyString :: "string \<Rightarrow> string option \<Rightarrow> string" where
  "applyString dst src = (case src of None \<Rightarrow> dst | Some s \<Rightarrow> TrimSpace s)"

definition apply_value :: "'a \<Rightarrow> 'a option \<Rightarrow> 'a" where
  "apply_value dst src = (case src of None \<Rightarrow> dst | Some x \<Rightarrow> x)"

definition applyHeartbeat :: "telemetry_snapshot \<Rightarrow> heartbeat_input \<Rightarrow> telemetry_snapshot" where
  "applyHeartbeat s input = s
     \<lparr>tel_AgentVersion := applyString (tel_AgentVersion s) (hb_AgentVersion input),
      tel_SystemHostname := applyString (tel_SystemHostname s) (hb_SystemHostname input),
      tel_Platform := applyString (tel_Platform s) (hb_Platform input),
      tel_Architecture := applyString (tel_Architecture s) (hb_Architecture input),
      tel_OSVersion := applyString (tel_OSVersion s) (hb_OSVersion input),
      tel_KernelVersion := applyString (tel_KernelVersion s) (hb_KernelVersion input),
      tel_FirmwareVersion := applyString (tel_FirmwareVersion s) (hb_FirmwareVersion input),
      tel_BootID := applyString (tel_BootID s) (hb_BootID input),
      tel_UptimeSeconds := apply_value (tel_UptimeSeconds s) (hb_UptimeSeconds input),
      tel_CPUCount := apply_value (tel_CPUCount s) (hb_CPUCount input),
      tel_Load1 := apply_value (tel_Load1 s) (hb_Load1 input),
      tel_Load5 := apply_value (tel_Load5 s) (hb_Load5 input),
      tel_Load15 := apply_value (tel_Load15 s) (hb_Load15 input),
      tel_MemoryTotalBytes := apply_value (tel_MemoryTotalBytes s) (hb_MemoryTotalBytes input),
      tel_MemoryAvailableBytes := apply_value (tel_MemoryAvailableBytes s) (hb_MemoryAvailableBytes input),
      tel_DiskTotalBytes := apply_value (tel_DiskTotalBytes s) (hb_DiskTotalBytes input),
      tel_DiskAvailableBytes := apply_value (tel_DiskAvailableBytes s) (hb_DiskAvailableBytes input)\<rparr>"

text \<open>The zero value of the snapshot model, with the two fields \<open>Report\<close> sets.\<close>

definition new_snapshot :: "nat \<Rightarrow> string \<Rightarrow> telemetry_snapshot" where
  "new_snapshot deviceID version =
     \<lparr>tel_ID = 0, tel_DeviceID = deviceID, tel_LastHeartbeatAt = 0, tel_LastIP = [], tel_AgentVersion = version,
      tel_SystemHostname = [], tel_Platform = [], tel_Architecture = [], tel_OSVersion = [], tel_KernelVersion = [],
      tel_FirmwareVersion = [], tel_BootID = [], tel_UptimeSeconds = 0, tel_CPUCount = 0, tel_Load1 = F_Fin 0,
      tel_Load5 = F_Fin 0, tel_Load15 = F_Fin 0, tel_MemoryTotalBytes = 0, tel_MemoryAvailableBytes = 0,
      tel_DiskTotalBytes = 0, tel_DiskAvailableBytes = 0\<rparr>"

definition ReportHeartbeat :: "env \<Rightarrow> nat \<Rightarrow> string \<Rightarrow> heartbeat_input \<Rightarrow> telemetry_snapshot dbop" where
  "ReportHeartbeat env deviceID callerIP input =
     (case validateInput input of Some e \<Rightarrow> raise (ErrTelemetry e) | None \<Rightarrow>
      transaction env
       (bindE (first env devices (\<lambda>d. dev_ID d = deviceID \<and> dev_Status d = ''active'')) (\<lambda>found.
        bindE (orFail (ErrTelemetry TErrDeviceNotFound) found) (\<lambda>device.
        bindE (first env telemetries (\<lambda>s. tel_DeviceID s = deviceID)) (\<lambda>existing.
        bindE (now env) (\<lambda>t.
        (let old = (case existing of Some s \<Rightarrow> s | None \<Rightarrow> new_snapshot deviceID (dev_AgentVersion device));
             snapshot = applyHeartbeat (old\<lparr>tel_LastHeartbeatAt := t, tel_LastIP := TrimSpace callerIP\<rparr>) input
         in
        (case validateSnapshot snapshot of Some e \<Rightarrow> raise (ErrTelemetry e) | None \<Rightarrow>
        bindE (if existing = None
               then create env telemetries telemetries_update (\<lambda>s s'. tel_DeviceID s = tel_DeviceID s')
                      (\<lambda>i _. snapshot\<lparr>tel_ID := i\<rparr>)
               else bindE (updates env telemetries telemetries_update (\<lambda>s. tel_ID s = tel_ID snapshot) (\<lambda>_. snapshot))
                      (\<lambda>_. ret snapshot)) (\<lambda>result.
        bindE (updates env devices devices_update (\<lambda>d. dev_ID d = deviceID) (\<lambda>d. d
                 \<lparr>dev_LastSeenAt := Some t, dev_LastIP := tel_LastIP snapshot,
                  dev_AgentVersion := (case hb_AgentVersion input of None \<Rightarrow> dev_AgentVersion d
                    | Some v \<Rightarrow> if TrimSpace v \<noteq> [] then TrimSpace v else dev_AgentVersion d)\<rparr>)) (\<lambda>_.
        ret result))))))))))"

definition statusFrom :: "env \<Rightarrow> device \<Rightarrow> telemetry_snapshot option \<Rightarrow> agent_status dbop" where
  "statusFrom env device snapshot =
     (case snapshot of
        None \<Rightarrow> ret \<lparr>as_Device = device, as_State = AgentStateNeverSeen, as_Online = False,
                   as_HeartbeatAgeSeconds = None, as_Telemetry = None\<rparr>
      | Some s \<Rightarrow>
          bindE (now env) (\<lambda>t.
          (let age0 = time_sub t (tel_LastHeartbeatAt s);
               age = (if age0 < 0 then 0 else age0);
               online = (age \<le> DefaultOnlineThresholdSeconds * 1000000000)
           in ret \<lparr>as_Device = device, as_State = (if online then AgentStateOnline else AgentStateOffline),
                   as_Online = online, as_HeartbeatAgeSeconds = Some (age div 1000000000), as_Telemetry = Some s\<rparr>)))"

definition Status :: "env \<Rightarrow> nat \<Rightarrow> agent_status dbop" where
  "Status env deviceID =
     bindE (first env devices (\<lambda>d. dev_ID d = deviceID)) (\<lambda>found.
     bindE (orFail (ErrTelemetry TErrDeviceNotFound) found) (\<lambda>device.
     bindE (first env telemetries (\<lambda>s. tel_DeviceID s = deviceID)) (\<lambda>snapshot.
     (case snapshot of
        None \<Rightarrow> ret \<lparr>as_Device = device, as_State = AgentStateNeverSeen, as_Online = False,
                   as_HeartbeatAgeSeconds = None, as_Telemetry = None\<rparr>
      | Some s \<Rightarrow> statusFrom env device (Some s)))))"

definition by_device :: "telemetry_snapshot list \<Rightarrow> nat \<rightharpoonup> telemetry_snapshot" where
  "by_device snapshots = foldl (\<lambda>m s. m(tel_DeviceID s \<mapsto> s)) Map.empty snapshots"

fun status_loop :: "env \<Rightarrow> (nat \<rightharpoonup> telemetry_snapshot) \<Rightarrow> device list \<Rightarrow> agent_status list dbop" where
  "status_loop env byDevice [] = ret []"
| "status_loop env byDevice (device # ds) =
     bindE (statusFrom env device (byDevice (dev_ID device))) (\<lambda>st.
     bindE (status_loop env byDevice ds) (\<lambda>sts.
     ret (st # sts)))"

text \<open>\<open>Order("name asc")\<close> compares names byte by byte.\<close>

definition ListStatuses :: "env \<Rightarrow> agent_status list dbop" where
  "ListStatuses env =
     bindE (select env devices (\<lambda>_. True)) (\<lambda>rows.
     bindE (select env telemetries (\<lambda>_. True)) (\<lambda>snapshots.
     status_loop env (by_device snapshots) (sort_key dev_Name rows)))"

section \<open>The invariant of the stored snapshots\<close>

definition load_ok :: "float64 \<Rightarrow> bool" where
  "load_ok x \<longleftrightarrow> (case x of F_Fin q \<Rightarrow> 0 \<le> q \<and> q \<le> 1000000 | _ \<Rightarrow> False)"

definition fits :: "64 word \<Rightarrow> bool" where
  "fits x \<longleftrightarrow> unat x < 2 ^ 63"

definition snapshot_ok :: "telemetry_snapshot \<Rightarrow> bool" where
  "snapshot_ok s \<longleftrightarrow> 0 \<le> tel_CPUCount s \<and> tel_CPUCount s \<le> 4096 \<and>
     load_ok (tel_Load1 s) \<and> load_ok (tel_Load5 s) \<and> load_ok (tel_Load15 s) \<and>
     (\<forall>x \<in> {tel_UptimeSeconds s, tel_MemoryTotalBytes s, tel_MemoryAvailableBytes s, tel_DiskTotalBytes s,
            tel_DiskAvailableBytes s}. fits x) \<and>
     (0 < tel_MemoryTotalBytes s \<longrightarrow> tel_MemoryAvailableBytes s \<le> tel_MemoryTotalBytes s) \<and>
     (0 < tel_DiskTotalBytes s \<longrightarrow> tel_DiskAvailableBytes s \<le> tel_DiskTotalBytes s)"

definition tel_ok :: "database \<Rightarrow> bool" where
  "tel_ok d \<longleftrightarrow> wf_table tel_ID (telemetries d) \<and>
     distinct (map tel_DeviceID (tbl_rows (telemetries d))) \<and>
     (\<forall>s \<in> set (tbl_rows (telemetries d)). snapshot_ok s)"

lemma not_bad_load: "\<not> bad_load x \<longleftrightarrow> load_ok x"
  by (cases x) (auto simp: bad_load_def load_ok_def)

lemma counter_ok: "\<not> x > MaxInt64 \<longleftrightarrow> unat x < 2 ^ 63"
  by (auto simp: MaxInt64_def word_less_nat_alt)

lemma fits_iff: "x > MaxInt64 \<longleftrightarrow> \<not> fits x"
  using counter_ok by (auto simp: fits_def)

definition opt_all :: "('a \<Rightarrow> bool) \<Rightarrow> 'a option \<Rightarrow> bool" where
  "opt_all P v \<longleftrightarrow> (case v of None \<Rightarrow> True | Some x \<Rightarrow> P x)"

lemma apply_value_ok: "P a \<Longrightarrow> opt_all P v \<Longrightarrow> P (apply_value a v)"
  by (cases v) (simp_all add: apply_value_def opt_all_def)

lemma case_not_all: "(case v of None \<Rightarrow> False | Some x \<Rightarrow> Q x) \<longleftrightarrow> \<not> opt_all (\<lambda>x. \<not> Q x) v"
  by (cases v) (simp_all add: opt_all_def)

lemma validateInput_None:
  "validateInput input = None \<longleftrightarrow> opt_all (\<lambda>n. 1 \<le> n \<and> n \<le> 4096) (hb_CPUCount input) \<and>
     opt_all load_ok (hb_Load1 input) \<and> opt_all load_ok (hb_Load5 input) \<and> opt_all load_ok (hb_Load15 input) \<and>
     opt_all fits (hb_UptimeSeconds input) \<and> opt_all fits (hb_MemoryTotalBytes input) \<and>
     opt_all fits (hb_MemoryAvailableBytes input) \<and> opt_all fits (hb_DiskTotalBytes input) \<and>
     opt_all fits (hb_DiskAvailableBytes input)"
  by (auto simp: validateInput_def case_not_all fits_iff not_bad_load not_less)

lemma apply_heartbeat_ok:
  assumes "snapshot_ok s" "validateInput input = None" "validateSnapshot (applyHeartbeat s input) = None"
  shows "snapshot_ok (applyHeartbeat s input)"
  using assms unfolding validateInput_None
  by (simp add: snapshot_ok_def validateSnapshot_def applyHeartbeat_def not_less apply_value_ok [where P = load_ok]
      apply_value_ok [where P = fits] split: if_splits) (auto simp: word_gt_0)?

lemma new_snapshot_ok: "snapshot_ok (new_snapshot i v)"
  by (simp add: snapshot_ok_def new_snapshot_def load_ok_def fits_def)

section \<open>What a heartbeat writes\<close>

definition snapshot_of :: "database \<Rightarrow> nat \<Rightarrow> telemetry_snapshot option" where
  "snapshot_of d dv = find (\<lambda>s. tel_DeviceID s = dv) (tbl_rows (telemetries d))"

definition heartbeat_merge :: "database \<Rightarrow> device \<Rightarrow> time \<Rightarrow> string \<Rightarrow> heartbeat_input \<Rightarrow> telemetry_snapshot" where
  "heartbeat_merge d device t callerIP input =
     applyHeartbeat ((case snapshot_of d (dev_ID device) of Some s \<Rightarrow> s
         | None \<Rightarrow> new_snapshot (dev_ID device) (dev_AgentVersion device))
       \<lparr>tel_LastHeartbeatAt := t, tel_LastIP := TrimSpace callerIP\<rparr>) input"

lemma heartbeat_fields [simp]:
  "tel_ID (applyHeartbeat s input) = tel_ID s" "tel_DeviceID (applyHeartbeat s input) = tel_DeviceID s"
  "tel_LastHeartbeatAt (applyHeartbeat s input) = tel_LastHeartbeatAt s" "tel_LastIP (applyHeartbeat s input) = tel_LastIP s"
  by (simp_all add: applyHeartbeat_def)

lemma snapshot_of_row:
  "snapshot_of d dv = Some s \<Longrightarrow> s \<in> set (tbl_rows (telemetries d)) \<and> tel_DeviceID s = dv"
  unfolding snapshot_of_def by (drule find_SomeD) simp

lemma snapshot_of_iff:
  "tel_ok d \<Longrightarrow> snapshot_of d dv = Some s \<longleftrightarrow> s \<in> set (tbl_rows (telemetries d)) \<and> tel_DeviceID s = dv"
  by (simp add: snapshot_of_def tel_ok_def map_of_id_key)

lemma tel_rows_unique:
  assumes "tel_ok d" "s \<in> set (tbl_rows (telemetries d))" "s' \<in> set (tbl_rows (telemetries d))"
  shows "tel_ID s = tel_ID s' \<longleftrightarrow> s = s'" and "tel_DeviceID s = tel_DeviceID s' \<longleftrightarrow> s = s'"
  using assms by (auto simp: tel_ok_def wf_table_def distinct_map inj_on_def)

lemma heartbeat_merge_keys:
  "tel_DeviceID (heartbeat_merge d x t ip input) = dev_ID x"
  "tel_LastHeartbeatAt (heartbeat_merge d x t ip input) = t"
  "tel_LastIP (heartbeat_merge d x t ip input) = TrimSpace ip"
  "snapshot_of d (dev_ID x) = Some s \<Longrightarrow> tel_ID (heartbeat_merge d x t ip input) = tel_ID s"
  by (auto simp: heartbeat_merge_def new_snapshot_def dest: snapshot_of_row split: option.split)

lemma heartbeat_merge_ok:
  assumes "tel_ok d" "validateInput input = None" "validateSnapshot (heartbeat_merge d x t ip input) = None"
  shows "snapshot_ok (heartbeat_merge d x t ip input)"
proof -
  have "snapshot_ok (s\<lparr>tel_LastHeartbeatAt := a, tel_LastIP := b\<rparr>) = snapshot_ok s" for s :: telemetry_snapshot and a b
    by (simp add: snapshot_ok_def)
  moreover have "snapshot_ok (case snapshot_of d (dev_ID x) of Some s \<Rightarrow> s | None \<Rightarrow> new_snapshot (dev_ID x) (dev_AgentVersion x))"
    using assms(1) by (auto simp: tel_ok_def new_snapshot_ok dest: snapshot_of_row split: option.split)
  ultimately show ?thesis
    using assms(2,3) unfolding heartbeat_merge_def by (intro apply_heartbeat_ok) simp_all
qed

lemma ReportHeartbeat_success:
  assumes "ReportHeartbeat env dv ip input w = (Inr s, w')"
  obtains x t where "validateInput input = None" "validateSnapshot (heartbeat_merge (w_db w) x t ip input) = None"
    "find (\<lambda>d. dev_ID d = dv \<and> dev_Status d = ''active'') (tbl_rows (devices (w_db w))) = Some x" "dev_ID x = dv"
    "devices (w_db w') = upd_rows (\<lambda>d. dev_ID d = dv) (\<lambda>d. d
       \<lparr>dev_LastSeenAt := Some t, dev_LastIP := TrimSpace ip,
        dev_AgentVersion := (case hb_AgentVersion input of None \<Rightarrow> dev_AgentVersion d
          | Some v \<Rightarrow> if TrimSpace v \<noteq> [] then TrimSpace v else dev_AgentVersion d)\<rparr>) (devices (w_db w))"
    "(case snapshot_of (w_db w) dv of
        Some _ \<Rightarrow> s = heartbeat_merge (w_db w) x t ip input \<and>
          telemetries (w_db w') = upd_rows (\<lambda>r. tel_ID r = tel_ID s) (\<lambda>_. s) (telemetries (w_db w))
      | None \<Rightarrow> s = (heartbeat_merge (w_db w) x t ip input)\<lparr>tel_ID := Suc (tbl_seq (telemetries (w_db w)))\<rparr> \<and>
          telemetries (w_db w') = ins_row s (telemetries (w_db w)))"
proof -
  from assms obtain x where
    v: "validateInput input = None" and
    x: "find (\<lambda>d. dev_ID d = dv \<and> dev_Status d = ''active'') (tbl_rows (devices (w_db w))) = Some x"
    by (auto simp: ReportHeartbeat_def op_simps split: option.splits)
  from x have id: "dev_ID x = dv" by (auto dest: find_SomeD)
  show thesis
  proof (rule that [of x "clock env (w_ticks w + 3)"])
  qed (use assms v x id in \<open>auto simp: ReportHeartbeat_def op_simps Let_def heartbeat_merge_def snapshot_of_def eval_nat_numeral
      simp del: table_simps split: option.splits if_splits\<close>)
qed

lemma tel_map_upd:
  assumes ok: "tel_ok d" and s: "snapshot_of d dv = Some old" "tel_ID s = tel_ID old" "tel_DeviceID s = dv" "snapshot_ok s"
    and d': "telemetries d' = upd_rows (\<lambda>r. tel_ID r = tel_ID s) (\<lambda>_. s) (telemetries d)"
  shows "tel_ok d'" and "snapshot_of d' = (snapshot_of d)(dv \<mapsto> s)"
proof -
  note old = snapshot_of_row [OF s(1)]
  have same: "(if tel_ID r = tel_ID s then s else r) = (if r = old then s else r)"
    if "r \<in> set (tbl_rows (telemetries d))" for r
    using tel_rows_unique(1) [OF ok that conjunct1 [OF old]] s(2) by simp
  have rows: "tbl_rows (telemetries d') = map (\<lambda>r. if r = old then s else r) (tbl_rows (telemetries d))"
    using same by (simp add: d')
  have keys: "map tel_ID (tbl_rows (telemetries d')) = map tel_ID (tbl_rows (telemetries d))"
    "map tel_DeviceID (tbl_rows (telemetries d')) = map tel_DeviceID (tbl_rows (telemetries d))"
    using s old by (auto simp: rows)
  have "tbl_seq (telemetries d') = tbl_seq (telemetries d)" by (simp add: d')
  moreover have "\<forall>r \<in> set (tbl_rows (telemetries d')). snapshot_ok r \<and> 1 \<le> tel_ID r \<and> tel_ID r \<le> tbl_seq (telemetries d)"
    using ok s(2,4) old by (auto simp: tel_ok_def wf_table_def rows)
  ultimately show ok': "tel_ok d'" using keys ok by (simp add: tel_ok_def wf_table_def)
  have only: "r = old" if "r \<in> set (tbl_rows (telemetries d))" "tel_DeviceID r = dv" for r
    using tel_rows_unique(2) [OF ok that(1) conjunct1 [OF old]] that(2) old by simp
  show "snapshot_of d' = (snapshot_of d)(dv \<mapsto> s)"
  proof
    fix j show "snapshot_of d' j = ((snapshot_of d)(dv \<mapsto> s)) j"
      by (rule option_eqI) (use s old only in
        \<open>auto simp: snapshot_of_iff [OF ok'] snapshot_of_iff [OF ok] rows image_iff\<close>)
  qed
qed

lemma tel_map_ins:
  assumes ok: "tel_ok d" and s: "snapshot_of d dv = None" "tel_ID s = Suc (tbl_seq (telemetries d))"
      "tel_DeviceID s = dv" "snapshot_ok s"
    and d': "telemetries d' = ins_row s (telemetries d)"
  shows "tel_ok d'" and "snapshot_of d' = (snapshot_of d)(dv \<mapsto> s)"
proof -
  have new: "\<forall>r \<in> set (tbl_rows (telemetries d)). tel_DeviceID r \<noteq> dv"
    using s(1) by (simp add: snapshot_of_def find_None_iff)
  with ok s show ok': "tel_ok d'"
    by (auto simp: tel_ok_def d' tel_rows.wf_ins)
  show "snapshot_of d' = (snapshot_of d)(dv \<mapsto> s)"
  proof
    fix j show "snapshot_of d' j = ((snapshot_of d)(dv \<mapsto> s)) j"
      by (rule option_eqI) (use s new in \<open>auto simp: snapshot_of_iff [OF ok'] snapshot_of_iff [OF ok] d'\<close>)
  qed
qed

lemma ReportHeartbeat_effect:
  assumes ok: "tel_ok (w_db w)" and run: "ReportHeartbeat env dv ip input w = (Inr s, w')"
  shows "tel_ok (w_db w')" and "snapshot_of (w_db w') = (snapshot_of (w_db w))(dv \<mapsto> s)"
proof -
  from run obtain x t where v: "validateInput input = None" "validateSnapshot (heartbeat_merge (w_db w) x t ip input) = None"
    and x: "dev_ID x = dv" and
    c: "(case snapshot_of (w_db w) dv of
        Some _ \<Rightarrow> s = heartbeat_merge (w_db w) x t ip input \<and>
          telemetries (w_db w') = upd_rows (\<lambda>r. tel_ID r = tel_ID s) (\<lambda>_. s) (telemetries (w_db w))
      | None \<Rightarrow> s = (heartbeat_merge (w_db w) x t ip input)\<lparr>tel_ID := Suc (tbl_seq (telemetries (w_db w)))\<rparr> \<and>
          telemetries (w_db w') = ins_row s (telemetries (w_db w)))"
    by (rule ReportHeartbeat_success)
  let ?m = "heartbeat_merge (w_db w) x t ip input"
  have m: "snapshot_ok ?m" by (rule heartbeat_merge_ok [OF ok v])
  then have m': "snapshot_ok (?m\<lparr>tel_ID := i\<rparr>)" for i by (simp add: snapshot_ok_def)
  have "tel_ok (w_db w') \<and> snapshot_of (w_db w') = (snapshot_of (w_db w))(dv \<mapsto> s)"
  proof (cases "snapshot_of (w_db w) dv")
    case None
    with c m' x tel_map_ins [OF ok None, of s "w_db w'"] show ?thesis by (simp add: heartbeat_merge_keys)
  next
    case (Some old)
    with c m x tel_map_upd [OF ok Some, of s "w_db w'"] show ?thesis by (simp add: heartbeat_merge_keys)
  qed
  then show "tel_ok (w_db w')" "snapshot_of (w_db w') = (snapshot_of (w_db w))(dv \<mapsto> s)" by blast+
qed

section \<open>Properties of the telemetry service\<close>

lemma ReportHeartbeat_failed: "ReportHeartbeat env dv ip input w = (Inl e, w') \<Longrightarrow> w_db w' = w_db w"
  by (auto simp: ReportHeartbeat_def dest: transaction_Inl_db split: option.splits)

text \<open>Whatever heartbeats arrive, with any values, from any address, and whichever statement fails,
  the stored snapshots stay well-formed: one row per device, a load between 0 and 1000000 that is
  never a NaN or an infinity, counters that fit a signed 64-bit column, and never more memory or
  disk available than there is.\<close>

lemma heartbeats_keep_snapshots_valid:
  assumes "tel_ok (w_db w)"
  shows "tel_ok (w_db (snd (ReportHeartbeat env dv ip input w)))"
proof -
  obtain r w' where run: "ReportHeartbeat env dv ip input w = (r, w')" by fastforce
  show ?thesis
  proof (cases r)
    case (Inl e)
    with run ReportHeartbeat_failed [of env dv ip input w e w'] assms show ?thesis by simp
  next
    case (Inr s)
    with run ReportHeartbeat_effect(1) [OF assms, of env dv ip input s w'] show ?thesis by simp
  qed
qed

definition presence_only :: heartbeat_input where
  "presence_only = \<lparr>hb_AgentVersion = None, hb_SystemHostname = None, hb_Platform = None, hb_Architecture = None,
     hb_OSVersion = None, hb_KernelVersion = None, hb_FirmwareVersion = None, hb_BootID = None, hb_UptimeSeconds = None,
     hb_CPUCount = None, hb_Load1 = None, hb_Load5 = None, hb_Load15 = None, hb_MemoryTotalBytes = None,
     hb_MemoryAvailableBytes = None, hb_DiskTotalBytes = None, hb_DiskAvailableBytes = None\<rparr>"

lemma applyHeartbeat_presence: "applyHeartbeat s presence_only = s"
  by (simp add: applyHeartbeat_def presence_only_def applyString_def apply_value_def)


text \<open>The result of a heartbeat on every branch, when no statement fails: the input checks come
  first, then the device must exist and be active, then the merged snapshot must be consistent;
  nothing else makes a heartbeat fail, and a refused heartbeat changes no table.\<close>

lemma heartbeat_outcome:
  assumes "tel_ok (w_db w)" "no_faults env"
  shows "(case validateInput input of
      Some e \<Rightarrow> ReportHeartbeat env dv ip input w = (Inl (ErrTelemetry e), w)
    | None \<Rightarrow> (case find (\<lambda>d. dev_ID d = dv \<and> dev_Status d = ''active'') (tbl_rows (devices (w_db w))) of
        None \<Rightarrow> fst (ReportHeartbeat env dv ip input w) = Inl (ErrTelemetry TErrDeviceNotFound) \<and>
          w_db (snd (ReportHeartbeat env dv ip input w)) = w_db w
      | Some x \<Rightarrow> (let m = heartbeat_merge (w_db w) x (clock env (w_ticks w + 3)) ip input in
          (case validateSnapshot m of
             Some e \<Rightarrow> fst (ReportHeartbeat env dv ip input w) = Inl (ErrTelemetry e) \<and>
               w_db (snd (ReportHeartbeat env dv ip input w)) = w_db w
           | None \<Rightarrow> \<exists>s. fst (ReportHeartbeat env dv ip input w) = Inr s \<and> (\<exists>i. s = m\<lparr>tel_ID := i\<rparr>)))))"
proof (cases "validateInput input")
  case (Some e)
  then show ?thesis by (simp add: ReportHeartbeat_def)
next
  case vi: None
  show ?thesis
  proof (cases "find (\<lambda>d. dev_ID d = dv \<and> dev_Status d = ''active'') (tbl_rows (devices (w_db w)))")
    case None
    then show ?thesis using vi by (simp add: ReportHeartbeat_def run_simps assms(2))
  next
    case (Some x)
    then have dv: "dev_ID x = dv" by (auto dest: find_SomeD)
    let ?m = "heartbeat_merge (w_db w) x (clock env (w_ticks w + 3)) ip input"
    have self: "\<exists>i. m = m\<lparr>tel_ID := i\<rparr>" for m :: telemetry_snapshot by (rule exI [of _ "tel_ID m"]) simp
    show ?thesis
    proof (cases "validateSnapshot ?m")
      case vs: (Some e)
      with vi Some dv show ?thesis
        by (cases "snapshot_of (w_db w) dv") (simp_all add: ReportHeartbeat_def run_simps assms(2) heartbeat_merge_def snapshot_of_def eval_nat_numeral Let_def
            del: table_simps)
    next
      case vs: None
      show ?thesis
      proof (cases "snapshot_of (w_db w) dv")
        case old: (Some o')
        with vi Some vs dv show ?thesis
          by (simp add: self ReportHeartbeat_def run_simps assms(2) heartbeat_merge_def snapshot_of_def eval_nat_numeral Let_def
              del: table_simps)
      next
        case old: None
        then have "\<not> list_ex (\<lambda>s'. dv = tel_DeviceID s') (tbl_rows (telemetries (w_db w)))"
          by (auto simp: snapshot_of_def find_None_iff list_ex_iff)
        with old vi Some vs dv show ?thesis
          by (auto simp: ReportHeartbeat_def run_simps assms(2) heartbeat_merge_def snapshot_of_def eval_nat_numeral Let_def
              new_snapshot_def simp del: table_simps)
      qed
    qed
  qed
qed

text \<open>C24. A device counts as online exactly while its last heartbeat is at most 180 seconds old; a clock
  that went backwards counts as age zero, the age in seconds never is negative, and no clock value
  makes the computation wrap around.\<close>

theorem presence_window:
  "\<exists>w' st. statusFrom env x (Some s) w = (Inr st, w') \<and>
    (let age = clock env (w_ticks w) - tel_LastHeartbeatAt s in
      (as_Online st \<longleftrightarrow> age \<le> 180 * 10 ^ 9) \<and>
      as_State st = (if age \<le> 180 * 10 ^ 9 then AgentStateOnline else AgentStateOffline) \<and>
      as_HeartbeatAgeSeconds st = Some (min (max 0 age) (2 ^ 63 - 1) div 10 ^ 9))"
  by (auto simp: statusFrom_def bindE_def now_def Let_def time_sub_def DefaultOnlineThresholdSeconds_def min_def max_def)

section \<open>The list of all devices\<close>

lemma by_device_snoc: "foldl (\<lambda>m s. m(tel_DeviceID s \<mapsto> s)) m0 xs dv =
    (case find (\<lambda>s. tel_DeviceID s = dv) (rev xs) of None \<Rightarrow> m0 dv | Some s \<Rightarrow> Some s)"
  by (induction xs rule: rev_induct) auto

lemma by_device_snapshot_of:
  assumes "tel_ok d"
  shows "by_device (tbl_rows (telemetries d)) = snapshot_of d"
proof
  fix dv
  have "find (\<lambda>s. tel_DeviceID s = dv) (rev (tbl_rows (telemetries d))) = snapshot_of d dv"
    by (rule option_eqI) (use assms in \<open>simp add: snapshot_of_def tel_ok_def map_of_id_key flip: rev_map\<close>)
  then show "by_device (tbl_rows (telemetries d)) dv = snapshot_of d dv"
    by (simp add: by_device_def by_device_snoc split: option.split)
qed

definition status_at :: "time \<Rightarrow> device \<Rightarrow> telemetry_snapshot option \<Rightarrow> agent_status" where
  "status_at t x snapshot =
     (case fst (statusFrom \<lparr>stmt_fault = \<lambda>_. False, clock = \<lambda>_. t, rand_read = \<lambda>_ _. None, sha256 = id,
                           nsupdate_error = \<lambda>_ _. None\<rparr> x snapshot initial_world) of Inr st \<Rightarrow> st | Inl _ \<Rightarrow> undefined)"

lemma statusFrom_run:
  "statusFrom env x snapshot w =
     (Inr (status_at (clock env (w_ticks w)) x snapshot), if snapshot = None then w else tick w)"
  by (cases snapshot) (simp_all add: status_at_def statusFrom_def bindE_def now_def Let_def)

text \<open>The list of all devices says of each device what the query of that one device says at the same
  time, and lists every device exactly once, in the order of the names.\<close>

theorem ListStatuses_agrees:
  assumes "tel_ok (w_db w)" "wf_table dev_ID (devices (w_db w))" "no_faults env" "\<And>n. clock env n = t"
  shows "\<exists>sts. fst (ListStatuses env w) = Inr sts \<and> map as_Device sts = sort_key dev_Name (tbl_rows (devices (w_db w))) \<and>
    (\<forall>st \<in> set sts. fst (Status env (dev_ID (as_Device st)) w) = Inr st)"
proof -
  let ?d = "w_db w"
  define m where "m = (\<lambda>x. status_at t x (snapshot_of ?d (dev_ID x)))"
  have dev: "as_Device (m x) = x" for x
    by (simp add: m_def status_at_def statusFrom_def bindE_def now_def Let_def split: option.split)
  have loop: "\<exists>w2. status_loop env (snapshot_of ?d) xs w1 = (Inr (map m xs), w2)" for xs w1
  proof (induction xs arbitrary: w1)
    case (Cons x xs)
    from Cons.IH [of "if snapshot_of ?d (dev_ID x) = None then w1 else tick w1"] show ?case
      by (auto simp: bindE_def statusFrom_run assms(4) m_def)
  qed simp
  have "fst (Status env (dev_ID x) w) = Inr (m x)" if "x \<in> set (tbl_rows (devices ?d))" for x
  proof -
    have "find (\<lambda>y. dev_ID y = dev_ID x) (tbl_rows (devices ?d)) = Some x"
      using device_rows.row_tmap [OF assms(2) that] by (simp add: tmap_def)
    then show ?thesis
      by (cases "snapshot_of ?d (dev_ID x)")
        (simp_all add: Status_def run_simps assms(3,4) statusFrom_run m_def flip: snapshot_of_def,
          simp add: status_at_def statusFrom_def)
  qed
  then have "\<forall>st \<in> set (map m (sort_key dev_Name (tbl_rows (devices ?d)))). fst (Status env (dev_ID (as_Device st)) w) = Inr st"
    by (simp add: dev)
  moreover have "fst (ListStatuses env w) = Inr (map m (sort_key dev_Name (tbl_rows (devices ?d))))"
    using loop [of "sort_key dev_Name (tbl_rows (devices ?d))" "tick (tick w)"]
    by (auto simp: ListStatuses_def run_simps assms(3) by_device_snapshot_of [OF assms(1)])
  moreover have "map as_Device (map m xs) = xs" for xs by (induction xs) (simp_all add: dev)
  ultimately show ?thesis by blast
qed

section \<open>Instances\<close>

lemma demo_tel_ok: "tel_ok (w_db demo_base)"
  by (simp add: tel_ok_def) (simp add: empty_table_def)

lemma demo_presence_valid: "validateInput presence_only = None"
  by (simp add: validateInput_None presence_only_def opt_all_def)


theorem ListStatuses_agrees_witness:
  "\<exists>sts. fst (ListStatuses (demo_env\<lparr>clock := \<lambda>_. 5\<rparr>) demo_base) = Inr sts \<and> map as_Device sts = [demo_device]"
  using ListStatuses_agrees [OF demo_tel_ok demo_wf_devices, of "demo_env\<lparr>clock := \<lambda>_. 5\<rparr>" 5] demo_no_faults
  by (auto simp: no_faults_def)

end
