(* ===== verification/Hermes_NetworkContext.thy ===== *)
theory Hermes_NetworkContext
  imports Hermes_Netip Hermes_Demo "HOL-Library.Char_ord" "HOL-Library.List_Lexorder" "HOL-Library.Product_Lexorder"
begin

text \<open>
  \<open>internal/networkcontext/service.go\<close>: the network identity an agent reports, its WAN
  interfaces and LAN segments, the classification of their addresses, and what the
  administrator reads back. A report replaces the rows of its device in one transaction.

  \<open>sort.Slice\<close> is modelled as a stable sort; the keys of the WAN rows are distinct, so there
  the order does not depend on it.
\<close>

section \<open>Address classes\<close>

abbreviation WANRolePrimary :: string where "WANRolePrimary \<equiv> ''primary''"
abbreviation WANRoleSecondary :: string where "WANRoleSecondary \<equiv> ''secondary''"
abbreviation WANRoleOther :: string where "WANRoleOther \<equiv> ''other''"

abbreviation AddressScopePublic :: string where "AddressScopePublic \<equiv> ''public''"
abbreviation AddressScopePrivate :: string where "AddressScopePrivate \<equiv> ''private''"
abbreviation AddressScopeCGNAT :: string where "AddressScopeCGNAT \<equiv> ''cgnat''"
abbreviation AddressScopeSpecial :: string where "AddressScopeSpecial \<equiv> ''special''"
abbreviation AddressScopeUnknown :: string where "AddressScopeUnknown \<equiv> ''unknown''"

abbreviation NATStateDirect :: string where "NATStateDirect \<equiv> ''direct''"
abbreviation NATStateDoubleNAT :: string where "NATStateDoubleNAT \<equiv> ''double_nat''"
abbreviation NATStateCGNAT :: string where "NATStateCGNAT \<equiv> ''cgnat''"
abbreviation NATStatePublicMismatch :: string where "NATStatePublicMismatch \<equiv> ''public_mismatch''"
abbreviation NATStateUnknown :: string where "NATStateUnknown \<equiv> ''unknown''"

abbreviation PublicIPSourceAgentProbe :: string where "PublicIPSourceAgentProbe \<equiv> ''agent_probe''"
abbreviation PublicIPSourceServerPeer :: string where "PublicIPSourceServerPeer \<equiv> ''server_peer''"

definition isCGNAT :: "32 word \<Rightarrow> bool" where
  "isCGNAT addr = Contains (v4_of 100 64 0 0) 10 addr"

definition specialIPv4Prefixes :: "(32 word \<times> nat) list" where
  "specialIPv4Prefixes =
     [(v4_of 0 0 0 0, 8),
      (v4_of 192 0 0 0, 24),
      (v4_of 192 0 2 0, 24),
      (v4_of 198 18 0 0, 15),
      (v4_of 198 51 100 0, 24),
      (v4_of 203 0 113 0, 24),
      (v4_of 240 0 0 0, 4)]"

definition isPublicIPv4 :: "32 word \<Rightarrow> bool" where
  "isPublicIPv4 addr \<longleftrightarrow>
     \<not> (IsPrivate addr \<or> IsLoopback addr \<or> IsLinkLocalUnicast addr \<or> IsMulticast addr \<or> IsUnspecified addr \<or>
        isCGNAT addr) \<and>
     \<not> list_ex (\<lambda>(p, bits). Contains p bits addr) specialIPv4Prefixes"

definition parseIPv4 :: "string \<Rightarrow> 32 word option" where
  "parseIPv4 s = (case ParseAddr (TrimSpace s) of Some (V4 a) \<Rightarrow> Some a | _ \<Rightarrow> None)"

definition isPublicIPv4String :: "string \<Rightarrow> bool" where
  "isPublicIPv4String s = (case parseIPv4 s of None \<Rightarrow> False | Some addr \<Rightarrow> isPublicIPv4 addr)"

definition classifyIPv4 :: "string \<Rightarrow> string" where
  "classifyIPv4 s =
     (case parseIPv4 (TrimSpace s) of
        None \<Rightarrow> if TrimSpace s = [] then AddressScopeUnknown else AddressScopeSpecial
      | Some addr \<Rightarrow>
          if isCGNAT addr then AddressScopeCGNAT
          else if IsPrivate addr then AddressScopePrivate
          else if isPublicIPv4 addr then AddressScopePublic
          else AddressScopeSpecial)"

definition normalizedRole :: "string \<Rightarrow> string" where
  "normalizedRole role = (let r = ToLower (TrimSpace role) in if r = [] then WANRoleOther else r)"

section \<open>Reports\<close>

record wan_input =
  wi_InterfaceName :: string
  wi_Role :: string
  wi_DefaultRoute :: bool
  wi_IPv4 :: string
  wi_GatewayIPv4 :: string
  wi_IPv6 :: string
  wi_PublicIPv4 :: string

record segment_input =
  si_Name :: string
  si_VLANID :: "int option"
  si_IPv4CIDR :: string
  si_GatewayIPv4 :: string
  si_Purpose :: string

record report_input =
  ri_WANs :: "wan_input list"
  ri_Networks :: "segment_input list"

record network_context =
  nc_Device :: device
  nc_Reported :: bool
  nc_Snapshot :: "net_snapshot option"
  nc_WANs :: "net_wan list"
  nc_Networks :: "net_segment list"

definition buildWAN :: "nat \<Rightarrow> string \<Rightarrow> wan_input \<Rightarrow> net_wan" where
  "buildWAN deviceID serverObservedIP inp =
     (let local = TrimSpace (wi_IPv4 inp);
          probed = TrimSpace (wi_PublicIPv4 inp);
          (observed, source) =
            (if probed \<noteq> [] then (probed, PublicIPSourceAgentProbe)
             else if wi_DefaultRoute inp \<and> isPublicIPv4String serverObservedIP
                  then (TrimSpace serverObservedIP, PublicIPSourceServerPeer)
             else ([], []));
          scope = classifyIPv4 local;
          wan = \<lparr>wan_ID = 0, wan_DeviceID = deviceID, wan_InterfaceName = TrimSpace (wi_InterfaceName inp),
                 wan_Role = normalizedRole (wi_Role inp), wan_DefaultRoute = wi_DefaultRoute inp, wan_IPv4 = local,
                 wan_GatewayIPv4 = TrimSpace (wi_GatewayIPv4 inp), wan_IPv6 = TrimSpace (wi_IPv6 inp),
                 wan_ObservedPublicIPv4 = observed, wan_PublicIPSource = source, wan_AddressScope = scope,
                 wan_NATState = NATStateUnknown, wan_UpstreamNAT = False, wan_DoubleNAT = False, wan_CGNAT = False,
                 wan_PublicIPMatch = None\<rparr>;
          wan = (if scope = AddressScopeCGNAT
                 then wan\<lparr>wan_NATState := NATStateCGNAT, wan_UpstreamNAT := True, wan_CGNAT := True\<rparr> else wan)
      in
      if local = [] \<or> observed = [] then wan
      else (case (parseIPv4 local, parseIPv4 observed) of
              (Some localAddr, Some observedAddr) \<Rightarrow>
                (let same = (localAddr = observedAddr); wan = wan\<lparr>wan_PublicIPMatch := Some same\<rparr> in
                 if scope = AddressScopePublic \<and> same then wan\<lparr>wan_NATState := NATStateDirect\<rparr>
                 else if scope = AddressScopePublic \<and> \<not> same then wan\<lparr>wan_NATState := NATStatePublicMismatch\<rparr>
                 else if scope = AddressScopePrivate \<and> isPublicIPv4 observedAddr
                   then wan\<lparr>wan_NATState := NATStateDoubleNAT, wan_UpstreamNAT := True, wan_DoubleNAT := True\<rparr>
                 else if scope = AddressScopeCGNAT
                   then wan\<lparr>wan_NATState := NATStateCGNAT, wan_UpstreamNAT := True, wan_CGNAT := True\<rparr>
                 else wan)
            | _ \<Rightarrow> wan))"

text \<open>The two loops of \<open>validateInput\<close>; \<open>seen\<close> are the lower-cased names met so far.\<close>

definition bad_v4 :: "string \<Rightarrow> bool" where
  "bad_v4 s \<longleftrightarrow> TrimSpace s \<noteq> [] \<and> (case ParseAddr (TrimSpace s) of None \<Rightarrow> True | Some a \<Rightarrow> \<not> Is4 a)"

definition bad_v6 :: "string \<Rightarrow> bool" where
  "bad_v6 s \<longleftrightarrow> TrimSpace s \<noteq> [] \<and> (case ParseAddr (TrimSpace s) of None \<Rightarrow> True | Some a \<Rightarrow> \<not> Is6 a)"

fun check_wans :: "string list \<Rightarrow> nat \<Rightarrow> wan_input list \<Rightarrow> networkcontext_err option" where
  "check_wans seen defaultRoutes [] = None"
| "check_wans seen defaultRoutes (wan # ws) =
     (let name = TrimSpace (wi_InterfaceName wan); key = ToLower name;
          defaultRoutes = (if wi_DefaultRoute wan then defaultRoutes + 1 else defaultRoutes);
          role = normalizedRole (wi_Role wan)
      in
      if name = [] then Some NErrInvalidInterface
      else if key \<in> set seen then Some NErrDuplicateInterface
      else if wi_DefaultRoute wan \<and> defaultRoutes > 1 then Some NErrMultipleDefaultRoutes
      else if role \<noteq> WANRolePrimary \<and> role \<noteq> WANRoleSecondary \<and> role \<noteq> WANRoleOther then Some NErrInvalidWANRole
      else if bad_v4 (wi_IPv4 wan) \<or> bad_v4 (wi_GatewayIPv4 wan) then Some NErrInvalidIPAddress
      else if bad_v6 (wi_IPv6 wan) then Some NErrInvalidIPAddress
      else if TrimSpace (wi_PublicIPv4 wan) \<noteq> [] \<and> \<not> isPublicIPv4String (wi_PublicIPv4 wan)
           then Some NErrInvalidPublicIPv4
      else check_wans (key # seen) defaultRoutes ws)"

definition check_network :: "segment_input \<Rightarrow> networkcontext_err option" where
  "check_network network =
     (let cidr = TrimSpace (si_IPv4CIDR network); gateway = TrimSpace (si_GatewayIPv4 network) in
      if TrimSpace (si_Name network) = [] then Some NErrInvalidNetworkName
      else if (case si_VLANID network of None \<Rightarrow> False | Some v \<Rightarrow> v < 1 \<or> v > 4094) then Some NErrInvalidVLAN
      else if cidr = [] \<and> gateway = [] then None
      else (case ParsePrefix cidr of
              None \<Rightarrow> Some NErrInvalidCIDR
            | Some p \<Rightarrow>
                (case pfx_addr p of
                   V6 _ _ \<Rightarrow> Some NErrInvalidCIDR
                 | V4 a \<Rightarrow>
                     if gateway = [] then None
                     else (case ParseAddr gateway of
                             Some (V4 g) \<Rightarrow>
                               if \<not> Contains (Masked a (pfx_bits p)) (pfx_bits p) g then Some NErrInvalidGateway else None
                           | _ \<Rightarrow> Some NErrInvalidIPAddress))))"

fun check_networks :: "segment_input list \<Rightarrow> networkcontext_err option" where
  "check_networks [] = None"
| "check_networks (n # ns) = (case check_network n of Some e \<Rightarrow> Some e | None \<Rightarrow> check_networks ns)"

definition validateReport :: "report_input \<Rightarrow> networkcontext_err option" where
  "validateReport input =
     (if ri_WANs input = [] then Some NErrNoWAN
      else (case check_wans [] 0 (ri_WANs input) of Some e \<Rightarrow> Some e | None \<Rightarrow> check_networks (ri_Networks input)))"

section \<open>Operations\<close>

definition wan_order :: "net_wan list \<Rightarrow> net_wan list" where
  "wan_order ws = sort_key (\<lambda>w. (\<not> wan_DefaultRoute w, wan_InterfaceName w)) ws"

definition network_order :: "net_segment list \<Rightarrow> net_segment list" where
  "network_order ns = sort_key seg_Name ns"

definition sortContext :: "network_context \<Rightarrow> network_context" where
  "sortContext c = c\<lparr>nc_WANs := wan_order (nc_WANs c), nc_Networks := network_order (nc_Networks c)\<rparr>"

text \<open>The two loops of \<open>Report\<close> that insert one row per input.\<close>

fun create_each ::
  "env \<Rightarrow> (database \<Rightarrow> 'r table) \<Rightarrow> (('r table \<Rightarrow> 'r table) \<Rightarrow> database \<Rightarrow> database)
   \<Rightarrow> ('i \<Rightarrow> nat \<Rightarrow> 'r) \<Rightarrow> 'i list \<Rightarrow> 'r list dbop" where
  "create_each env get upd mk [] = ret []"
| "create_each env get upd mk (inp # ins) =
     bindE (create env get upd (\<lambda>_ _. False) (\<lambda>i _. mk inp i)) (\<lambda>r.
     bindE (create_each env get upd mk ins) (\<lambda>rs.
     ret (r # rs)))"

definition create_wans :: "env \<Rightarrow> nat \<Rightarrow> string \<Rightarrow> wan_input list \<Rightarrow> net_wan list dbop" where
  "create_wans env deviceID observed ins =
     create_each env wans wans_update (\<lambda>inp i. (buildWAN deviceID observed inp)\<lparr>wan_ID := i\<rparr>) ins"

definition new_segment :: "nat \<Rightarrow> segment_input \<Rightarrow> net_segment" where
  "new_segment deviceID inp =
     \<lparr>seg_ID = 0, seg_DeviceID = deviceID, seg_Name = TrimSpace (si_Name inp), seg_VLANID = si_VLANID inp,
      seg_IPv4CIDR = TrimSpace (si_IPv4CIDR inp), seg_GatewayIPv4 = TrimSpace (si_GatewayIPv4 inp),
      seg_Purpose = TrimSpace (si_Purpose inp)\<rparr>"

definition create_segments :: "env \<Rightarrow> nat \<Rightarrow> segment_input list \<Rightarrow> net_segment list dbop" where
  "create_segments env deviceID ins =
     create_each env segments segments_update (\<lambda>inp i. (new_segment deviceID inp)\<lparr>seg_ID := i\<rparr>) ins"

definition store_snapshot :: "env \<Rightarrow> nat \<Rightarrow> time \<Rightarrow> string \<Rightarrow> net_snapshot option \<Rightarrow> net_snapshot dbop" where
  "store_snapshot env deviceID t observed existing =
     (case existing of
        None \<Rightarrow> create env netsnaps netsnaps_update (\<lambda>s s'. ns_DeviceID s = ns_DeviceID s') (\<lambda>i _.
          \<lparr>ns_ID = i, ns_DeviceID = deviceID, ns_ReportedAt = t, ns_ServerObservedIP = observed\<rparr>)
      | Some s \<Rightarrow> (let snapshot = s\<lparr>ns_ReportedAt := t, ns_ServerObservedIP := observed\<rparr> in
          bindE (updates env netsnaps netsnaps_update (\<lambda>r. ns_ID r = ns_ID s) (\<lambda>_. snapshot)) (\<lambda>_.
          ret snapshot)))"

definition report_tx :: "env \<Rightarrow> nat \<Rightarrow> string \<Rightarrow> report_input \<Rightarrow> network_context dbop" where
  "report_tx env deviceID serverObservedIP input =
     bindE (first env devices (\<lambda>d. dev_ID d = deviceID \<and> dev_Status d = ''active'')) (\<lambda>found.
     bindE (orFail (ErrNetwork NErrDeviceNotFound) found) (\<lambda>device.
     bindE (now env) (\<lambda>t.
     (let observed = TrimSpace serverObservedIP in
     bindE (first env netsnaps (\<lambda>s. ns_DeviceID s = deviceID)) (\<lambda>existing.
     bindE (store_snapshot env deviceID t observed existing) (\<lambda>snapshot.
     bindE (delete_rows env wans_update (\<lambda>r. wan_DeviceID r = deviceID)) (\<lambda>_.
     bindE (delete_rows env segments_update (\<lambda>r. seg_DeviceID r = deviceID)) (\<lambda>_.
     bindE (create_wans env deviceID observed (ri_WANs input)) (\<lambda>ws.
     bindE (create_segments env deviceID (ri_Networks input)) (\<lambda>ns.
     ret \<lparr>nc_Device = device, nc_Reported = True, nc_Snapshot = Some snapshot, nc_WANs = ws,
          nc_Networks = ns\<rparr>))))))))))"

definition ReportContext :: "env \<Rightarrow> nat \<Rightarrow> string \<Rightarrow> report_input \<Rightarrow> network_context dbop" where
  "ReportContext env deviceID serverObservedIP input =
     (case validateReport input of Some e \<Rightarrow> raise (ErrNetwork e) | None \<Rightarrow>
      bindE (transaction env (report_tx env deviceID serverObservedIP input)) (\<lambda>result.
      ret (sortContext result)))"

definition GetContext :: "env \<Rightarrow> nat \<Rightarrow> network_context dbop" where
  "GetContext env deviceID =
     bindE (first env devices (\<lambda>d. dev_ID d = deviceID)) (\<lambda>found.
     bindE (orFail (ErrNetwork NErrDeviceNotFound) found) (\<lambda>device.
     bindE (first env netsnaps (\<lambda>s. ns_DeviceID s = deviceID)) (\<lambda>snapshot.
     (case snapshot of
        None \<Rightarrow> ret \<lparr>nc_Device = device, nc_Reported = False, nc_Snapshot = None, nc_WANs = [], nc_Networks = []\<rparr>
      | Some s \<Rightarrow>
          bindE (select env wans (\<lambda>r. wan_DeviceID r = deviceID)) (\<lambda>ws.
          bindE (select env segments (\<lambda>r. seg_DeviceID r = deviceID)) (\<lambda>ns.
          ret \<lparr>nc_Device = device, nc_Reported = True, nc_Snapshot = Some s, nc_WANs = wan_order ws,
               nc_Networks = network_order ns\<rparr>))))))"

text \<open>The maps from device to rows are built by appending to the list under the key.\<close>

definition group_by :: "('r \<Rightarrow> nat) \<Rightarrow> 'r list \<Rightarrow> nat \<Rightarrow> 'r list" where
  "group_by key rows = foldl (\<lambda>m r. m(key r := m (key r) @ [r])) (\<lambda>_. []) rows"

definition ListContexts :: "env \<Rightarrow> network_context list dbop" where
  "ListContexts env =
     bindE (select env devices (\<lambda>_. True)) (\<lambda>ds.
     bindE (select env netsnaps (\<lambda>_. True)) (\<lambda>snapshots.
     bindE (select env wans (\<lambda>_. True)) (\<lambda>ws.
     bindE (select env segments (\<lambda>_. True)) (\<lambda>ns.
     (let snapshotByDevice = foldl (\<lambda>m s. m(ns_DeviceID s \<mapsto> s)) Map.empty snapshots;
          wansByDevice = group_by wan_DeviceID (wan_order ws);
          networksByDevice = group_by seg_DeviceID (network_order ns)
      in ret (map (\<lambda>device. \<lparr>nc_Device = device, nc_Reported = (snapshotByDevice (dev_ID device) \<noteq> None),
                 nc_Snapshot = snapshotByDevice (dev_ID device), nc_WANs = wansByDevice (dev_ID device),
                 nc_Networks = networksByDevice (dev_ID device)\<rparr>) (sort_key dev_Name ds)))))))"

section \<open>The address classes as a table of ranges\<close>

definition dotted :: "nat \<Rightarrow> nat \<Rightarrow> nat \<Rightarrow> nat \<Rightarrow> nat" where
  "dotted a b c d = ((a * 256 + b) * 256 + c) * 256 + d"

text \<open>Every range of addresses that are not public, in ascending order.\<close>

definition address_table :: "(nat \<times> nat \<times> string) list" where
  "address_table =
     [(dotted 0 0 0 0, dotted 0 255 255 255, AddressScopeSpecial),
      (dotted 10 0 0 0, dotted 10 255 255 255, AddressScopePrivate),
      (dotted 100 64 0 0, dotted 100 127 255 255, AddressScopeCGNAT),
      (dotted 127 0 0 0, dotted 127 255 255 255, AddressScopeSpecial),
      (dotted 169 254 0 0, dotted 169 254 255 255, AddressScopeSpecial),
      (dotted 172 16 0 0, dotted 172 31 255 255, AddressScopePrivate),
      (dotted 192 0 0 0, dotted 192 0 0 255, AddressScopeSpecial),
      (dotted 192 0 2 0, dotted 192 0 2 255, AddressScopeSpecial),
      (dotted 192 168 0 0, dotted 192 168 255 255, AddressScopePrivate),
      (dotted 198 18 0 0, dotted 198 19 255 255, AddressScopeSpecial),
      (dotted 198 51 100 0, dotted 198 51 100 255, AddressScopeSpecial),
      (dotted 203 0 113 0, dotted 203 0 113 255, AddressScopeSpecial),
      (dotted 224 0 0 0, dotted 255 255 255 255, AddressScopeSpecial)]"

definition table_scope :: "nat \<Rightarrow> string" where
  "table_scope n = (case find (\<lambda>(lo, hi, s). lo \<le> n \<and> n \<le> hi) address_table of
     None \<Rightarrow> AddressScopePublic | Some (lo, hi, s) \<Rightarrow> s)"

lemma div_eq_range: "0 < k \<Longrightarrow> n div k = q \<longleftrightarrow> q * k \<le> n \<and> n < (q + 1) * k" for n k q :: nat
  by (metis add.commute div_nat_eqI dividend_less_times_div less_eq_div_iff_mult_less_eq mult.commute order_refl
      plus_1_eq_Suc mult_Suc times_div_less_eq_dividend)

lemma unat_v4_of: "a < 256 \<Longrightarrow> b < 256 \<Longrightarrow> c < 256 \<Longrightarrow> d < 256 \<Longrightarrow> unat (v4_of a b c d) = dotted a b c d"
  unfolding v4_of_def dotted_def unsigned_of_nat of_nat_id by (rule take_bit_nat_eq_self) simp

lemma contains_ranges:
  "isCGNAT a \<longleftrightarrow> 1681915904 \<le> unat a \<and> unat a < 1686110208"
  "Contains (v4_of 0 0 0 0) 8 a \<longleftrightarrow> unat a < 16777216"
  "Contains (v4_of 192 0 0 0) 24 a \<longleftrightarrow> 3221225472 \<le> unat a \<and> unat a < 3221225728"
  "Contains (v4_of 192 0 2 0) 24 a \<longleftrightarrow> 3221225984 \<le> unat a \<and> unat a < 3221226240"
  "Contains (v4_of 198 18 0 0) 15 a \<longleftrightarrow> 3323068416 \<le> unat a \<and> unat a < 3323199488"
  "Contains (v4_of 198 51 100 0) 24 a \<longleftrightarrow> 3325256704 \<le> unat a \<and> unat a < 3325256960"
  "Contains (v4_of 203 0 113 0) 24 a \<longleftrightarrow> 3405803776 \<le> unat a \<and> unat a < 3405804032"
  "Contains (v4_of 240 0 0 0) 4 a \<longleftrightarrow> 4026531840 \<le> unat a \<and> unat a < 4294967296"
  by (simp_all add: isCGNAT_def Contains_iff unat_v4_of dotted_def div_eq_range)

lemma octet_ranges:
  fixes a :: "32 word"
  shows "octet 0 a = q \<longleftrightarrow> q * 16777216 \<le> unat a \<and> unat a < (q + 1) * 16777216"
    and "octet 0 a = q \<and> octet 1 a = r \<longleftrightarrow> r < 256 \<and> (q * 256 + r) * 65536 \<le> unat a \<and> unat a < (q * 256 + r + 1) * 65536"
    and "octet 0 a = q \<and> octet 1 a div 16 = r \<longleftrightarrow> r < 16 \<and> (q * 16 + r) * 1048576 \<le> unat a \<and> unat a < (q * 16 + r + 1) * 1048576"
    and "octet 0 a div 16 = q \<longleftrightarrow> q * 268435456 \<le> unat a \<and> unat a < (q + 1) * 268435456"
proof -
  have "unat a < 4294967296" using unsigned_less [where ?'a = nat and w = a] by simp
  then have 0: "octet 0 a = unat a div 16777216" by (simp add: octet_def)
  then show "octet 0 a = q \<longleftrightarrow> q * 16777216 \<le> unat a \<and> unat a < (q + 1) * 16777216"
    by (simp add: div_eq_range)
  show "octet 0 a div 16 = q \<longleftrightarrow> q * 268435456 \<le> unat a \<and> unat a < (q + 1) * 268435456"
    by (simp add: 0 div_eq_range flip: div_mult2_eq)
  have 1: "octet (Suc 0) a = unat a div 65536 mod 256" by (simp add: octet_def)
  have d: "unat a div 16777216 = unat a div 65536 div 256" by (simp flip: div_mult2_eq)
  have m1: "m div 256 = q \<and> m mod 256 = r \<longleftrightarrow> r < 256 \<and> m = q * 256 + r" for m q r :: nat by auto
  show "octet 0 a = q \<and> octet 1 a = r \<longleftrightarrow> r < 256 \<and> (q * 256 + r) * 65536 \<le> unat a \<and> unat a < (q * 256 + r + 1) * 65536"
    by (simp only: m1 One_nat_def 0 1 d div_eq_range [of 65536, simplified]) (simp only: add_mult_distrib mult_Suc add_Suc_right add_0_right add_0_left mult_0 add.commute)
  have m2: "m div 256 = q \<and> m mod 256 div 16 = r \<longleftrightarrow> r < 16 \<and> m div 16 = q * 16 + r" for m q r :: nat
  proof -
    have "m div 256 = m div 16 div 16" by (simp flip: div_mult2_eq)
    moreover have "m mod 256 div 16 = m div 16 mod 16" using mod_mult2_eq [of m 16 16] by simp
    ultimately show ?thesis by auto
  qed
  have m3: "unat a div 65536 div 16 = unat a div 1048576" by (simp flip: div_mult2_eq)
  show "octet 0 a = q \<and> octet 1 a div 16 = r \<longleftrightarrow> r < 16 \<and> (q * 16 + r) * 1048576 \<le> unat a \<and> unat a < (q * 16 + r + 1) * 1048576"
    by (simp only: m2 m3 One_nat_def 0 1 d div_eq_range [of 1048576, simplified]) (simp only: add_mult_distrib mult_Suc add_Suc_right add_0_right add_0_left mult_0 add.commute)
qed

lemma class_ranges:
  "IsPrivate a \<longleftrightarrow> 167772160 \<le> unat a \<and> unat a < 184549376 \<or> 2886729728 \<le> unat a \<and> unat a < 2887778304 \<or>
     3232235520 \<le> unat a \<and> unat a < 3232301056"
  "IsLoopback a \<longleftrightarrow> 2130706432 \<le> unat a \<and> unat a < 2147483648"
  "IsLinkLocalUnicast a \<longleftrightarrow> 2851995648 \<le> unat a \<and> unat a < 2852061184"
  "IsMulticast a \<longleftrightarrow> 3758096384 \<le> unat a \<and> unat a < 4026531840"
  "IsUnspecified a \<longleftrightarrow> unat a = 0"
      apply (unfold IsPrivate_def octet_ranges(3) octet_ranges(2), simp add: octet_ranges(1))
     apply (simp add: IsLoopback_def octet_ranges(1))
    apply (unfold IsLinkLocalUnicast_def octet_ranges(2), simp)
   apply (simp add: IsMulticast_def octet_ranges(4))
  apply (simp add: IsUnspecified_def unat_eq_0)
  done

text \<open>The ranges of the table, and those of the code, one after the other.\<close>

definition between :: "nat \<Rightarrow> nat \<Rightarrow> nat \<Rightarrow> bool" where
  "between lo hi n \<longleftrightarrow> lo \<le> n \<and> n \<le> hi"

lemma table_scope_unfold:
  "table_scope n =
    (if between 0 16777215 n then AddressScopeSpecial
     else if between 167772160 184549375 n then AddressScopePrivate
     else if between 1681915904 1686110207 n then AddressScopeCGNAT
     else if between 2130706432 2147483647 n then AddressScopeSpecial
     else if between 2851995648 2852061183 n then AddressScopeSpecial
     else if between 2886729728 2887778303 n then AddressScopePrivate
     else if between 3221225472 3221225727 n then AddressScopeSpecial
     else if between 3221225984 3221226239 n then AddressScopeSpecial
     else if between 3232235520 3232301055 n then AddressScopePrivate
     else if between 3323068416 3323199487 n then AddressScopeSpecial
     else if between 3325256704 3325256959 n then AddressScopeSpecial
     else if between 3405803776 3405804031 n then AddressScopeSpecial
     else if between 3758096384 4294967295 n then AddressScopeSpecial
     else AddressScopePublic)"
  unfolding table_scope_def address_table_def by (simp add: dotted_def between_def)

lemma code_ranges:
  "IsPrivate a \<longleftrightarrow> between 167772160 184549375 (unat a) \<or> between 2886729728 2887778303 (unat a) \<or>
     between 3232235520 3232301055 (unat a)"
  "isCGNAT a \<longleftrightarrow> between 1681915904 1686110207 (unat a)"
  "isPublicIPv4 a \<longleftrightarrow> \<not> (between 167772160 184549375 (unat a) \<or> between 2886729728 2887778303 (unat a) \<or>
     between 3232235520 3232301055 (unat a) \<or> between 2130706432 2147483647 (unat a) \<or>
     between 2851995648 2852061183 (unat a) \<or> between 1681915904 1686110207 (unat a) \<or>
     between 0 16777215 (unat a) \<or> between 3221225472 3221225727 (unat a) \<or> between 3221225984 3221226239 (unat a) \<or>
     between 3323068416 3323199487 (unat a) \<or> between 3325256704 3325256959 (unat a) \<or>
     between 3405803776 3405804031 (unat a) \<or> between 3758096384 4294967295 (unat a))"
proof -
  have lt: "n < k \<longleftrightarrow> n \<le> k - 1" if "0 < k" for n k :: nat using that by auto
  show p: "IsPrivate a \<longleftrightarrow> between 167772160 184549375 (unat a) \<or> between 2886729728 2887778303 (unat a) \<or>
     between 3232235520 3232301055 (unat a)"
    by (simp add: class_ranges between_def lt)
  show c: "isCGNAT a \<longleftrightarrow> between 1681915904 1686110207 (unat a)"
    by (simp add: contains_ranges between_def lt)
  have l: "IsLoopback a \<longleftrightarrow> between 2130706432 2147483647 (unat a)"
    "IsLinkLocalUnicast a \<longleftrightarrow> between 2851995648 2852061183 (unat a)"
    "list_ex (\<lambda>(p, bits). Contains p bits a) specialIPv4Prefixes \<longleftrightarrow>
       between 0 16777215 (unat a) \<or> between 3221225472 3221225727 (unat a) \<or> between 3221225984 3221226239 (unat a) \<or>
       between 3323068416 3323199487 (unat a) \<or> between 3325256704 3325256959 (unat a) \<or>
       between 3405803776 3405804031 (unat a) \<or> between 4026531840 4294967295 (unat a)"
    by (simp_all add: class_ranges contains_ranges specialIPv4Prefixes_def between_def lt)
  have z: "IsUnspecified a \<Longrightarrow> between 0 16777215 (unat a)" by (simp add: class_ranges between_def)
  have m: "between 3758096384 4294967295 (unat a) \<longleftrightarrow> IsMulticast a \<or> between 4026531840 4294967295 (unat a)"
    by (auto simp: class_ranges between_def)
  show "isPublicIPv4 a \<longleftrightarrow> \<not> (between 167772160 184549375 (unat a) \<or> between 2886729728 2887778303 (unat a) \<or>
     between 3232235520 3232301055 (unat a) \<or> between 2130706432 2147483647 (unat a) \<or>
     between 2851995648 2852061183 (unat a) \<or> between 1681915904 1686110207 (unat a) \<or>
     between 0 16777215 (unat a) \<or> between 3221225472 3221225727 (unat a) \<or> between 3221225984 3221226239 (unat a) \<or>
     between 3323068416 3323199487 (unat a) \<or> between 3325256704 3325256959 (unat a) \<or>
     between 3405803776 3405804031 (unat a) \<or> between 3758096384 4294967295 (unat a))"
    unfolding isPublicIPv4_def p c l m using z by blast
qed

text \<open>The order of the tests does not matter, because no two ranges meet.\<close>

lemma chain_eq_table:
  "(if isCGNAT a then AddressScopeCGNAT else if IsPrivate a then AddressScopePrivate
     else if isPublicIPv4 a then AddressScopePublic else AddressScopeSpecial) = table_scope (unat a)"
proof -
  consider "between 0 16777215 (unat a)" | "between 167772160 184549375 (unat a)"
    | "between 1681915904 1686110207 (unat a)" | "between 2130706432 2147483647 (unat a)"
    | "between 2851995648 2852061183 (unat a)" | "between 2886729728 2887778303 (unat a)"
    | "between 3221225472 3221225727 (unat a)" | "between 3221225984 3221226239 (unat a)"
    | "between 3232235520 3232301055 (unat a)" | "between 3323068416 3323199487 (unat a)"
    | "between 3325256704 3325256959 (unat a)" | "between 3405803776 3405804031 (unat a)"
    | "between 3758096384 4294967295 (unat a)" | "isPublicIPv4 a"
    unfolding code_ranges by blast
  then show ?thesis
  proof cases
    case 14
    then show ?thesis unfolding code_ranges table_scope_unfold by simp
  qed (unfold code_ranges table_scope_unfold, simp_all add: between_def)
qed

text \<open>C25. The chain of tests in classifyIPv4 is the table of address ranges: every address that parses as
  IPv4 falls into the class the table gives for it, and counts as public exactly when the table
  lists no range for it; what does not parse is special, or unknown when empty.\<close>

theorem classifyIPv4_table:
  "classifyIPv4 s = (case parseIPv4 s of
       Some a \<Rightarrow> table_scope (unat a)
     | None \<Rightarrow> if TrimSpace s = [] then AddressScopeUnknown else AddressScopeSpecial) \<and>
   (isPublicIPv4 a \<longleftrightarrow> table_scope (unat a) = AddressScopePublic)"
proof -
  have trim: "parseIPv4 (TrimSpace s) = parseIPv4 s" by (simp add: parseIPv4_def)
  have "isPublicIPv4 a \<longleftrightarrow> table_scope (unat a) = AddressScopePublic" for a
    unfolding code_ranges table_scope_unfold by simp
  then show ?thesis by (simp add: classifyIPv4_def trim chain_eq_table split: option.split)
qed

section \<open>Validation\<close>

text \<open>What a report must satisfy, without the order in which it is checked.\<close>

definition wan_input_ok :: "wan_input \<Rightarrow> bool" where
  "wan_input_ok w \<longleftrightarrow> TrimSpace (wi_InterfaceName w) \<noteq> [] \<and>
     normalizedRole (wi_Role w) \<in> {WANRolePrimary, WANRoleSecondary, WANRoleOther} \<and>
     \<not> bad_v4 (wi_IPv4 w) \<and> \<not> bad_v4 (wi_GatewayIPv4 w) \<and> \<not> bad_v6 (wi_IPv6 w) \<and>
     (TrimSpace (wi_PublicIPv4 w) \<noteq> [] \<longrightarrow> isPublicIPv4String (wi_PublicIPv4 w))"

definition interface_key :: "wan_input \<Rightarrow> string" where
  "interface_key w = ToLower (TrimSpace (wi_InterfaceName w))"

text \<open>A LAN segment names a network; its gateway, if any, lies inside its IPv4 prefix.\<close>

definition subnet_ok :: "string \<Rightarrow> string \<Rightarrow> bool" where
  "subnet_ok cidr gateway \<longleftrightarrow> cidr = [] \<and> gateway = [] \<or>
     (\<exists>a p. ParsePrefix cidr = Some p \<and> pfx_addr p = V4 a \<and>
        (gateway = [] \<or> (\<exists>g. ParseAddr gateway = Some (V4 g) \<and> Contains a (pfx_bits p) g)))"

definition segment_input_ok :: "segment_input \<Rightarrow> bool" where
  "segment_input_ok n \<longleftrightarrow> TrimSpace (si_Name n) \<noteq> [] \<and>
     (\<forall>v. si_VLANID n = Some v \<longrightarrow> 1 \<le> v \<and> v \<le> 4094) \<and>
     subnet_ok (TrimSpace (si_IPv4CIDR n)) (TrimSpace (si_GatewayIPv4 n))"

lemma check_wans_None:
  "check_wans seen k ws = None \<longleftrightarrow> (\<forall>w \<in> set ws. wan_input_ok w) \<and> distinct (map interface_key ws) \<and>
     set (map interface_key ws) \<inter> set seen = {} \<and>
     (filter wi_DefaultRoute ws \<noteq> [] \<longrightarrow> k + length (filter wi_DefaultRoute ws) \<le> 1)"
proof (induction ws arbitrary: seen k)
  case (Cons w ws)
  have here: "check_wans seen k (w # ws) = None \<longleftrightarrow>
    wan_input_ok w \<and> interface_key w \<notin> set seen \<and> (wi_DefaultRoute w \<longrightarrow> k = 0) \<and>
    check_wans (interface_key w # seen) (if wi_DefaultRoute w then k + 1 else k) ws = None"
    by (auto simp: Let_def wan_input_ok_def interface_key_def)
  show ?case unfolding here Cons.IH by auto
qed simp

lemma check_network_None: "check_network n = None \<longleftrightarrow> segment_input_ok n"
  by (auto simp: check_network_def segment_input_ok_def subnet_ok_def Contains_Masked Let_def
      split: option.splits ip_addr.splits)

lemma check_networks_None: "check_networks ns = None \<longleftrightarrow> (\<forall>n \<in> set ns. segment_input_ok n)"
  by (induction ns) (auto simp: check_network_None[symmetric] split: option.splits)

text \<open>C26. The validation accepts exactly the reports with at least one WAN, named interfaces that differ
  by more than letter case, at most one default route, known roles, well-formed addresses, public
  probe results, and LAN segments whose VLAN is in range and whose gateway lies in their prefix.\<close>

theorem validateReport_sound_complete:
  "validateReport input = None \<longleftrightarrow>
     ri_WANs input \<noteq> [] \<and> (\<forall>w \<in> set (ri_WANs input). wan_input_ok w) \<and>
     distinct (map interface_key (ri_WANs input)) \<and> length (filter wi_DefaultRoute (ri_WANs input)) \<le> 1 \<and>
     (\<forall>n \<in> set (ri_Networks input). segment_input_ok n)"
  unfolding validateReport_def using check_wans_None [of "[]" 0 "ri_WANs input"] check_networks_None [of "ri_Networks input"]
  by (auto split: option.splits)

section \<open>The verdict on a WAN\<close>

definition wan_ok :: "net_wan \<Rightarrow> bool" where
  "wan_ok w \<longleftrightarrow>
     wan_AddressScope w = classifyIPv4 (wan_IPv4 w) \<and>
     (wan_PublicIPMatch w =
        (case (parseIPv4 (wan_IPv4 w), parseIPv4 (wan_ObservedPublicIPv4 w)) of
           (Some a, Some b) \<Rightarrow> Some (a = b) | _ \<Rightarrow> None)) \<and>
     wan_CGNAT w = (wan_AddressScope w = AddressScopeCGNAT) \<and>
     wan_DoubleNAT w = (wan_AddressScope w = AddressScopePrivate \<and> isPublicIPv4String (wan_ObservedPublicIPv4 w)) \<and>
     wan_UpstreamNAT w = (wan_CGNAT w \<or> wan_DoubleNAT w) \<and>
     wan_NATState w =
       (if wan_CGNAT w then NATStateCGNAT else if wan_DoubleNAT w then NATStateDoubleNAT
        else if wan_AddressScope w = AddressScopePublic \<and> wan_PublicIPMatch w = Some True then NATStateDirect
        else if wan_AddressScope w = AddressScopePublic \<and> wan_PublicIPMatch w = Some False then NATStatePublicMismatch
        else NATStateUnknown)"

lemma parseIPv4_Nil [simp]: "parseIPv4 [] = None"
  by (simp add: parseIPv4_def ParseAddr_def)

lemma classify_parse:
  "classifyIPv4 s = AddressScopeCGNAT \<or> classifyIPv4 s = AddressScopePrivate \<or> classifyIPv4 s = AddressScopePublic \<Longrightarrow>
   \<exists>a. parseIPv4 s = Some a"
  by (auto simp: classifyIPv4_def parseIPv4_def split: option.splits ip_addr.splits if_splits)

lemma buildWAN_ok: "wan_ok (buildWAN dv srv inp)"
proof -
  let ?l = "TrimSpace (wi_IPv4 inp)"
  show ?thesis
  proof (cases "parseIPv4 ?l")
    case None
    then have "classifyIPv4 ?l \<notin> {AddressScopeCGNAT, AddressScopePrivate, AddressScopePublic}"
      using classify_parse [of ?l] by auto
    with None show ?thesis by (auto simp: buildWAN_def wan_ok_def Let_def split: prod.splits if_splits)
  next
    case (Some a)
    then have ne: "?l \<noteq> []" by auto
    obtain obs src where o: "(if TrimSpace (wi_PublicIPv4 inp) \<noteq> [] then (TrimSpace (wi_PublicIPv4 inp), PublicIPSourceAgentProbe)
             else if wi_DefaultRoute inp \<and> isPublicIPv4String srv
                  then (TrimSpace srv, PublicIPSourceServerPeer) else ([], [])) = (obs, src)" by fastforce
    show ?thesis
    proof (cases "parseIPv4 obs")
      case None
      then show ?thesis unfolding buildWAN_def Let_def o
        using Some ne by (simp add: wan_ok_def isPublicIPv4String_def)
    next
      case b: (Some b)
      then have "obs \<noteq> []" by auto
      then show ?thesis unfolding buildWAN_def Let_def o
        using Some ne b by (simp add: wan_ok_def isPublicIPv4String_def)
    qed
  qed
qed

section \<open>What a report writes\<close>

text \<open>A table whose updates compose, so that a sequence of writes to it is one write.\<close>

locale db_table_seq = db_table key get upd
  for key :: "'r \<Rightarrow> nat" and get :: "database \<Rightarrow> 'r table"
    and upd :: "('r table \<Rightarrow> 'r table) \<Rightarrow> database \<Rightarrow> database" +
  assumes upd_upd: "upd f (upd g d) = upd (\<lambda>t. f (g t)) d" and upd_same: "upd (\<lambda>t. t) d = d"
begin

lemma create_each_success:
  assumes "create_each env get upd mk ins w = (Inr rs, w')"
  shows "tbl_rows (get (w_db w')) = tbl_rows (get (w_db w)) @ rs \<and> list_all2 (\<lambda>inp r. \<exists>i. r = mk inp i) ins rs \<and>
    (\<exists>f. w_db w' = upd f (w_db w))"
  using assms
proof (induction ins arbitrary: w rs)
  case Nil
  then have "rs = []" "w_db w' = upd (\<lambda>t. t) (w_db w)" by (simp_all add: upd_same)
  then show ?case by (auto simp: upd_same intro: exI [of _ "\<lambda>t. t"])
next
  case (Cons inp ins)
  from Cons.prems obtain r rs' w1 where step: "create env get upd (\<lambda>_ _. False) (\<lambda>i _. mk inp i) w = (Inr r, w1)"
    and run: "create_each env get upd mk ins w1 = (Inr rs', w')" and rs: "rs = r # rs'"
    by (auto simp: bindE_Inr)
  from step have r: "r = mk inp (Suc (tbl_seq (get (w_db w))))" "w_db w1 = upd (ins_row r) (w_db w)"
    by (auto simp: create_Inr)
  from Cons.IH [OF run] obtain f where
    ih: "tbl_rows (get (w_db w')) = tbl_rows (get (w_db w1)) @ rs'" "list_all2 (\<lambda>inp r. \<exists>i. r = mk inp i) ins rs'"
    "w_db w' = upd f (w_db w1)" by blast
  then have "w_db w' = upd (\<lambda>t. f (ins_row r t)) (w_db w)" by (simp only: r upd_upd)
  then have f: "\<exists>f. w_db w' = upd f (w_db w)" by blast
  from ih(1,2) r(1) rs have "tbl_rows (get (w_db w')) = tbl_rows (get (w_db w)) @ rs"
    "list_all2 (\<lambda>inp r. \<exists>i. r = mk inp i) (inp # ins) rs" by (auto simp: r(2) get_upd)
  with f show ?case by blast
qed

lemma wf_create_each:
  assumes "create_each env get upd mk ins w = (Inr rs, w')" "wf_table key (get (w_db w))"
    and "\<And>inp i. key (mk inp i) = i"
  shows "wf_table key (get (w_db w'))"
  using assms(1,2)
proof (induction ins arbitrary: w rs)
  case (Cons inp ins)
  from Cons.prems(1) obtain r rs' w1 where step: "create env get upd (\<lambda>_ _. False) (\<lambda>i _. mk inp i) w = (Inr r, w1)"
    and run: "create_each env get upd mk ins w1 = (Inr rs', w')"
    by (auto simp: bindE_Inr)
  from step have "w_db w1 = upd (ins_row (mk inp (Suc (tbl_seq (get (w_db w)))))) (w_db w)"
    by (auto simp: create_Inr)
  then have "wf_table key (get (w_db w1))" using Cons.prems(2) by (simp add: get_upd wf_ins assms(3))
  with Cons.IH [OF run] show ?case by blast
qed simp

end

interpretation wan_rows: db_table_seq wan_ID wans wans_update
  by unfold_locales (simp_all add: comp_def)

interpretation seg_rows: db_table_seq seg_ID segments segments_update
  by unfold_locales (simp_all add: comp_def)

definition net_snapshot_of :: "database \<Rightarrow> nat \<Rightarrow> net_snapshot option" where
  "net_snapshot_of d dv = find (\<lambda>s. ns_DeviceID s = dv) (tbl_rows (netsnaps d))"

definition device_wans :: "database \<Rightarrow> nat \<Rightarrow> net_wan list" where
  "device_wans d dv = filter (\<lambda>r. wan_DeviceID r = dv) (tbl_rows (wans d))"

definition device_segments :: "database \<Rightarrow> nat \<Rightarrow> net_segment list" where
  "device_segments d dv = filter (\<lambda>r. seg_DeviceID r = dv) (tbl_rows (segments d))"

lemma buildWAN_fields [simp]:
  "wan_DeviceID (buildWAN dv srv inp) = dv" "wan_InterfaceName (buildWAN dv srv inp) = TrimSpace (wi_InterfaceName inp)"
  "wan_DefaultRoute (buildWAN dv srv inp) = wi_DefaultRoute inp"
  by (simp_all add: buildWAN_def Let_def split: prod.splits option.splits)

lemma report_tx_success:
  assumes "report_tx env dv ip input w = (Inr c, w')"
  obtains x s ws ns where
    "find (\<lambda>d. dev_ID d = dv \<and> dev_Status d = ''active'') (tbl_rows (devices (w_db w))) = Some x"
    "c = \<lparr>nc_Device = x, nc_Reported = True, nc_Snapshot = Some s, nc_WANs = ws, nc_Networks = ns\<rparr>"
    "devices (w_db w') = devices (w_db w)"
    "case net_snapshot_of (w_db w) dv of
       None \<Rightarrow> netsnaps (w_db w') = ins_row s (netsnaps (w_db w)) \<and> ns_ID s = Suc (tbl_seq (netsnaps (w_db w))) \<and> ns_DeviceID s = dv
     | Some s0 \<Rightarrow> ns_ID s = ns_ID s0 \<and> ns_DeviceID s = ns_DeviceID s0 \<and>
         netsnaps (w_db w') = upd_rows (\<lambda>r. ns_ID r = ns_ID s0) (\<lambda>_. s) (netsnaps (w_db w))"
    "tbl_rows (wans (w_db w')) = filter (\<lambda>r. wan_DeviceID r \<noteq> dv) (tbl_rows (wans (w_db w))) @ ws"
    "list_all2 (\<lambda>inp r. \<exists>i. r = (buildWAN dv (TrimSpace ip) inp)\<lparr>wan_ID := i\<rparr>) (ri_WANs input) ws"
    "tbl_rows (segments (w_db w')) = filter (\<lambda>r. seg_DeviceID r \<noteq> dv) (tbl_rows (segments (w_db w))) @ ns"
    "list_all2 (\<lambda>inp r. \<exists>i. r = (new_segment dv inp)\<lparr>seg_ID := i\<rparr>) (ri_Networks input) ns"
proof -
  from assms obtain x s ws ns w1 w2 w3 w4 w5 where
    x: "find (\<lambda>d. dev_ID d = dv \<and> dev_Status d = ''active'') (tbl_rows (devices (w_db w))) = Some x"
    and s: "store_snapshot env dv (clock env (w_ticks (tick w))) (TrimSpace ip) (net_snapshot_of (w_db w) dv) (tick (tick (tick w))) = (Inr s, w1)"
    and d1: "delete_rows env wans_update (\<lambda>r. wan_DeviceID r = dv) w1 = (Inr (), w2)"
    and d2: "delete_rows env segments_update (\<lambda>r. seg_DeviceID r = dv) w2 = (Inr (), w3)"
    and cw: "create_wans env dv (TrimSpace ip) (ri_WANs input) w3 = (Inr ws, w4)"
    and cn: "create_segments env dv (ri_Networks input) w4 = (Inr ns, w')"
    and c: "c = \<lparr>nc_Device = x, nc_Reported = True, nc_Snapshot = Some s, nc_WANs = ws, nc_Networks = ns\<rparr>"
    by (auto simp: report_tx_def bindE_Inr first_Inr orFail_Inr now_Inr Let_def net_snapshot_of_def)
  from s have s': "case net_snapshot_of (w_db w) dv of
       None \<Rightarrow> w_db w1 = netsnaps_update (ins_row s) (w_db w) \<and> ns_ID s = Suc (tbl_seq (netsnaps (w_db w))) \<and> ns_DeviceID s = dv
     | Some s0 \<Rightarrow> ns_ID s = ns_ID s0 \<and> ns_DeviceID s = ns_DeviceID s0 \<and>
         w_db w1 = netsnaps_update (upd_rows (\<lambda>r. ns_ID r = ns_ID s0) (\<lambda>_. s)) (w_db w)"
    by (auto simp: store_snapshot_def create_Inr updates_Inr bindE_Inr Let_def split: option.splits)
  have w3: "w_db w3 = segments_update (del_rows (\<lambda>r. seg_DeviceID r = dv)) (wans_update (del_rows (\<lambda>r. wan_DeviceID r = dv)) (w_db w1))"
    using d1 d2 by (auto simp: delete_rows_Inr)
  note cw' = wan_rows.create_each_success [OF cw [unfolded create_wans_def]]
    and cn' = seg_rows.create_each_success [OF cn [unfolded create_segments_def]]
  from cw' cn' obtain f g where w': "w_db w4 = wans_update f (w_db w3)" "w_db w' = segments_update g (w_db w4)" by blast
  have dev: "devices (w_db w') = devices (w_db w)" and ns: "netsnaps (w_db w') = netsnaps (w_db w1)"
    and wn: "wans (w_db w') = wans (w_db w4)" and sg: "segments (w_db w4) = segments (w_db w3)"
    and wr: "wans (w_db w1) = wans (w_db w)" and sr: "segments (w_db w1) = segments (w_db w)"
    using s' by (auto simp: w' w3 split: option.splits)
  show thesis
  proof (rule that [OF x c dev])
    show "case net_snapshot_of (w_db w) dv of
       None \<Rightarrow> netsnaps (w_db w') = ins_row s (netsnaps (w_db w)) \<and> ns_ID s = Suc (tbl_seq (netsnaps (w_db w))) \<and> ns_DeviceID s = dv
     | Some s0 \<Rightarrow> ns_ID s = ns_ID s0 \<and> ns_DeviceID s = ns_DeviceID s0 \<and>
         netsnaps (w_db w') = upd_rows (\<lambda>r. ns_ID r = ns_ID s0) (\<lambda>_. s) (netsnaps (w_db w))"
      using s' ns by (auto split: option.splits)
  qed (use cw' cn' in \<open>simp_all add: wn sg w3 wr sr\<close>)
qed

section \<open>The invariant of the stored network identity\<close>

text \<open>
  One snapshot per device; the WAN rows of a device carry the verdicts of \<open>buildWAN\<close>,
  differ by interface, and at most one has the default route; every LAN segment is
  well-formed; and no WAN or segment belongs to a device that never reported.
\<close>

definition wans_ok :: "net_wan list \<Rightarrow> bool" where
  "wans_ok ws \<longleftrightarrow> (\<forall>w \<in> set ws. wan_ok w \<and> wan_InterfaceName w \<noteq> []) \<and>
     distinct (map (\<lambda>w. ToLower (wan_InterfaceName w)) ws) \<and> length (filter wan_DefaultRoute ws) \<le> 1"

definition segment_ok :: "net_segment \<Rightarrow> bool" where
  "segment_ok n \<longleftrightarrow> seg_Name n \<noteq> [] \<and> (\<forall>v. seg_VLANID n = Some v \<longrightarrow> 1 \<le> v \<and> v \<le> 4094) \<and>
     subnet_ok (seg_IPv4CIDR n) (seg_GatewayIPv4 n)"

definition net_ok :: "database \<Rightarrow> bool" where
  "net_ok d \<longleftrightarrow> wf_table ns_ID (netsnaps d) \<and> distinct (map ns_DeviceID (tbl_rows (netsnaps d))) \<and>
     (\<forall>dv. wans_ok (device_wans d dv)) \<and> (\<forall>n \<in> set (tbl_rows (segments d)). segment_ok n) \<and>
     (\<forall>dv. net_snapshot_of d dv = None \<longrightarrow> device_wans d dv = [] \<and> device_segments d dv = [])"

lemma net_okD:
  assumes "net_ok d"
  shows "wf_table ns_ID (netsnaps d)" "distinct (map ns_DeviceID (tbl_rows (netsnaps d)))" "wans_ok (device_wans d dv)"
    "n \<in> set (tbl_rows (segments d)) \<Longrightarrow> segment_ok n"
    "net_snapshot_of d dv = None \<Longrightarrow> device_wans d dv = [] \<and> device_segments d dv = []"
  using assms by (auto simp: net_ok_def)

lemma net_snapshot_iff:
  "distinct (map ns_DeviceID (tbl_rows (netsnaps d))) \<Longrightarrow>
   net_snapshot_of d dv = Some s \<longleftrightarrow> s \<in> set (tbl_rows (netsnaps d)) \<and> ns_DeviceID s = dv"
  by (simp add: net_snapshot_of_def map_of_id_key)

lemma snapshot_stored:
  assumes wf: "wf_table ns_ID (netsnaps d)" and di: "distinct (map ns_DeviceID (tbl_rows (netsnaps d)))"
    and c: "case net_snapshot_of d dv of
       None \<Rightarrow> netsnaps d' = ins_row s (netsnaps d) \<and> ns_ID s = Suc (tbl_seq (netsnaps d)) \<and> ns_DeviceID s = dv
     | Some s0 \<Rightarrow> ns_ID s = ns_ID s0 \<and> ns_DeviceID s = ns_DeviceID s0 \<and>
         netsnaps d' = upd_rows (\<lambda>r. ns_ID r = ns_ID s0) (\<lambda>_. s) (netsnaps d)"
  shows "wf_table ns_ID (netsnaps d') \<and> distinct (map ns_DeviceID (tbl_rows (netsnaps d'))) \<and>
    net_snapshot_of d' = (net_snapshot_of d)(dv \<mapsto> s)"
proof (cases "net_snapshot_of d dv")
  case None
  then have new: "\<forall>r \<in> set (tbl_rows (netsnaps d)). ns_DeviceID r \<noteq> dv"
    by (simp add: net_snapshot_of_def find_None_iff)
  from None c have s: "netsnaps d' = ins_row s (netsnaps d)" "ns_ID s = Suc (tbl_seq (netsnaps d))" "ns_DeviceID s = dv" by auto
  have di': "distinct (map ns_DeviceID (tbl_rows (netsnaps d')))" using di new s by auto
  have "net_snapshot_of d' j = ((net_snapshot_of d)(dv \<mapsto> s)) j" for j
    by (rule option_eqI) (use s new in \<open>auto simp: net_snapshot_iff [OF di'] net_snapshot_iff [OF di]\<close>)
  with s di' show ?thesis by (auto simp: ns_rows.wf_ins [OF wf])
next
  case (Some s0)
  then have s0: "s0 \<in> set (tbl_rows (netsnaps d))" "ns_DeviceID s0 = dv" by (auto simp: net_snapshot_iff [OF di])
  from Some c have s: "ns_ID s = ns_ID s0" "ns_DeviceID s = dv"
    "netsnaps d' = upd_rows (\<lambda>r. ns_ID r = ns_ID s0) (\<lambda>_. s) (netsnaps d)" using s0 by auto
  have one: "ns_ID r = ns_ID s0 \<longleftrightarrow> r = s0" "ns_DeviceID r = dv \<longleftrightarrow> r = s0" if "r \<in> set (tbl_rows (netsnaps d))" for r
    using that s0 wf di by (auto simp: wf_table_def distinct_map inj_on_def)
  have rows: "tbl_rows (netsnaps d') = map (\<lambda>r. if r = s0 then s else r) (tbl_rows (netsnaps d))"
    using one by (simp add: s(3))
  have keys: "map ns_ID (tbl_rows (netsnaps d')) = map ns_ID (tbl_rows (netsnaps d))"
    "map ns_DeviceID (tbl_rows (netsnaps d')) = map ns_DeviceID (tbl_rows (netsnaps d))"
    using s(1,2) s0 by (auto simp: rows)
  have seq: "tbl_seq (netsnaps d') = tbl_seq (netsnaps d)" by (simp add: s(3))
  have di': "distinct (map ns_DeviceID (tbl_rows (netsnaps d')))" using keys di by simp
  have "\<forall>r \<in> set (tbl_rows (netsnaps d')). 1 \<le> ns_ID r \<and> ns_ID r \<le> tbl_seq (netsnaps d)"
    using wf s(1,2) s0 by (auto simp: wf_table_def rows)
  then have wf': "wf_table ns_ID (netsnaps d')" using wf keys seq by (simp add: wf_table_def)
  have "net_snapshot_of d' j = ((net_snapshot_of d)(dv \<mapsto> s)) j" for j
    by (rule option_eqI) (use s(1,2) s0 one in \<open>auto simp: net_snapshot_iff [OF di'] net_snapshot_iff [OF di] rows image_iff\<close>)
  with di' wf' show ?thesis by auto
qed

lemma reported_wans_ok:
  assumes "validateReport input = None"
    and l: "list_all2 (\<lambda>inp r. \<exists>i. r = (buildWAN dv srv inp)\<lparr>wan_ID := i\<rparr>) (ri_WANs input) ws"
  shows "wans_ok ws" and "\<forall>w \<in> set ws. wan_DeviceID w = dv"
proof -
  from assms(1) have v: "\<forall>w \<in> set (ri_WANs input). wan_input_ok w" "distinct (map interface_key (ri_WANs input))"
    "length (filter wi_DefaultRoute (ri_WANs input)) \<le> 1"
    unfolding validateReport_def using check_wans_None [of "[]" 0 "ri_WANs input"] by (auto split: option.splits if_splits)
  have id: "wan_ok (w\<lparr>wan_ID := i\<rparr>) = wan_ok w" for w i by (simp add: wan_ok_def)
  from l have "map (\<lambda>w. ToLower (wan_InterfaceName w)) ws = map interface_key (ri_WANs input)"
    by (induction rule: list_all2_induct) (auto simp: interface_key_def)
  moreover from l have "length (filter wan_DefaultRoute ws) = length (filter wi_DefaultRoute (ri_WANs input))"
    by (induction rule: list_all2_induct) auto
  moreover from l v(1) have "\<forall>w \<in> set ws. wan_ok w \<and> wan_InterfaceName w \<noteq> []"
    by (induction rule: list_all2_induct) (auto simp: id buildWAN_ok wan_input_ok_def)
  ultimately show "wans_ok ws" using v(2,3) by (simp add: wans_ok_def)
  from l show "\<forall>w \<in> set ws. wan_DeviceID w = dv" by (induction rule: list_all2_induct) auto
qed

lemma reported_segments_ok:
  assumes "validateReport input = None"
    and l: "list_all2 (\<lambda>inp r. \<exists>i. r = (new_segment dv inp)\<lparr>seg_ID := i\<rparr>) (ri_Networks input) ns"
  shows "\<forall>n \<in> set ns. segment_ok n \<and> seg_DeviceID n = dv"
proof -
  from assms(1) have v: "\<forall>n \<in> set (ri_Networks input). segment_input_ok n"
    unfolding validateReport_def using check_networks_None [of "ri_Networks input"] by (auto split: option.splits if_splits)
  from l v show ?thesis
    by (induction rule: list_all2_induct) (auto simp: segment_ok_def segment_input_ok_def new_segment_def)
qed

lemma ReportContext_effect:
  assumes ok: "net_ok (w_db w)" and run: "ReportContext env dv ip input w = (Inr c, w')"
  obtains x s ws ns where "validateReport input = None"
    "find (\<lambda>d. dev_ID d = dv \<and> dev_Status d = ''active'') (tbl_rows (devices (w_db w))) = Some x"
    "c = \<lparr>nc_Device = x, nc_Reported = True, nc_Snapshot = Some s, nc_WANs = wan_order ws, nc_Networks = network_order ns\<rparr>"
    "devices (w_db w') = devices (w_db w)" "net_snapshot_of (w_db w') = (net_snapshot_of (w_db w))(dv \<mapsto> s)"
    "device_wans (w_db w') = (device_wans (w_db w))(dv := ws)" "device_segments (w_db w') = (device_segments (w_db w))(dv := ns)"
    "length ws = length (ri_WANs input)" "length ns = length (ri_Networks input)" "net_ok (w_db w')"
proof -
  from run obtain c0 w0 w1 where v: "validateReport input = None" and
    tx: "report_tx env dv ip input w0 = (Inr c0, w1)" and w: "w_db w0 = w_db w" "w_db w' = w_db w1" and c: "c = sortContext c0"
    by (auto simp: ReportContext_def bindE_Inr transaction_Inr split: option.splits)
  from tx show thesis
  proof (rule report_tx_success)
    fix x s ws ns
    assume x: "find (\<lambda>d. dev_ID d = dv \<and> dev_Status d = ''active'') (tbl_rows (devices (w_db w0))) = Some x"
    and c0: "c0 = \<lparr>nc_Device = x, nc_Reported = True, nc_Snapshot = Some s, nc_WANs = ws, nc_Networks = ns\<rparr>"
    and dev: "devices (w_db w1) = devices (w_db w0)"
    and s: "case net_snapshot_of (w_db w0) dv of
       None \<Rightarrow> netsnaps (w_db w1) = ins_row s (netsnaps (w_db w0)) \<and> ns_ID s = Suc (tbl_seq (netsnaps (w_db w0))) \<and> ns_DeviceID s = dv
     | Some s0 \<Rightarrow> ns_ID s = ns_ID s0 \<and> ns_DeviceID s = ns_DeviceID s0 \<and>
         netsnaps (w_db w1) = upd_rows (\<lambda>r. ns_ID r = ns_ID s0) (\<lambda>_. s) (netsnaps (w_db w0))"
    and wr: "tbl_rows (wans (w_db w1)) = filter (\<lambda>r. wan_DeviceID r \<noteq> dv) (tbl_rows (wans (w_db w0))) @ ws"
    and lw: "list_all2 (\<lambda>inp r. \<exists>i. r = (buildWAN dv (TrimSpace ip) inp)\<lparr>wan_ID := i\<rparr>) (ri_WANs input) ws"
    and sr: "tbl_rows (segments (w_db w1)) = filter (\<lambda>r. seg_DeviceID r \<noteq> dv) (tbl_rows (segments (w_db w0))) @ ns"
    and ls: "list_all2 (\<lambda>inp r. \<exists>i. r = (new_segment dv inp)\<lparr>seg_ID := i\<rparr>) (ri_Networks input) ns"
    note wo = reported_wans_ok [OF v lw] and so = reported_segments_ok [OF v ls]
    note o = net_okD [OF ok]
    have st: "wf_table ns_ID (netsnaps (w_db w')) \<and> distinct (map ns_DeviceID (tbl_rows (netsnaps (w_db w')))) \<and>
        net_snapshot_of (w_db w') = (net_snapshot_of (w_db w))(dv \<mapsto> s)"
      by (rule snapshot_stored [OF o(1,2)]) (use s in \<open>simp only: w\<close>)
    have dw: "device_wans (w_db w') = (device_wans (w_db w))(dv := ws)"
      using wo(2) by (auto simp: device_wans_def w wr fun_eq_iff filter_empty_conv intro!: filter_cong filter_True)
    have ds: "device_segments (w_db w') = (device_segments (w_db w))(dv := ns)"
      using so by (auto simp: device_segments_def w sr fun_eq_iff filter_empty_conv intro!: filter_cong filter_True)
    have ok': "net_ok (w_db w')"
      unfolding net_ok_def
    proof (intro conjI)
      show "\<forall>dv'. net_snapshot_of (w_db w') dv' = None \<longrightarrow> device_wans (w_db w') dv' = [] \<and> device_segments (w_db w') dv' = []"
        using st o(5) by (auto simp: dw ds)
      show "\<forall>n \<in> set (tbl_rows (segments (w_db w'))). segment_ok n" using o(4) so by (auto simp: w sr)
    qed (use st o wo(1) in \<open>simp_all add: dw\<close>)
    show thesis
      by (rule that [of x s ws ns])
        (use v x c c0 dev st dw ds ok' lw ls w in \<open>simp_all add: sortContext_def list_all2_lengthD\<close>)
  qed
qed

section \<open>Properties of the network context service\<close>

lemma ReportContext_failed: "ReportContext env dv ip input w = (Inl e, w') \<Longrightarrow> w_db w' = w_db w"
  by (auto simp: ReportContext_def bindE_def dest: transaction_Inl_db split: option.splits prod.splits sum.splits)

text \<open>Whatever is reported, and whichever statement fails, the stored network identity stays
  consistent: one snapshot per device, at most one default route and no repeated interface per
  device, every WAN with the verdict its addresses give, every LAN gateway inside its prefix, and
  no rows of a device that has not reported.\<close>

lemma network_reports_keep_invariant:
  assumes "net_ok (w_db w)"
  shows "net_ok (w_db (snd (ReportContext env dv ip input w)))"
proof -
  obtain r w' where run: "ReportContext env dv ip input w = (r, w')" by fastforce
  show ?thesis
  proof (cases r)
    case (Inl e)
    then have "w_db w' = w_db w" using run ReportContext_failed by simp
    with assms run show ?thesis by simp
  next
    case (Inr c)
    with run have "ReportContext env dv ip input w = (Inr c, w')" by simp
    from assms this have "net_ok (w_db w')" by (rule ReportContext_effect)
    with run show ?thesis by simp
  qed
qed

text \<open>The verdict on a WAN is a function of its own address and of the observed public one: carrier
  NAT exactly for a shared address, double NAT exactly for a private address behind a public one,
  direct exactly for a public address that is the observed one, a mismatch for another public one,
  unknown otherwise; the two addresses are compared exactly when both are IPv4.\<close>

lemma WAN_verdict: "wan_ok (buildWAN dv srv inp)"
  by (rule buildWAN_ok)

definition context_of :: "database \<Rightarrow> device \<Rightarrow> network_context" where
  "context_of d x = (case net_snapshot_of d (dev_ID x) of
     None \<Rightarrow> \<lparr>nc_Device = x, nc_Reported = False, nc_Snapshot = None, nc_WANs = [], nc_Networks = []\<rparr>
   | Some s \<Rightarrow> \<lparr>nc_Device = x, nc_Reported = True, nc_Snapshot = Some s, nc_WANs = wan_order (device_wans d (dev_ID x)),
        nc_Networks = network_order (device_segments d (dev_ID x))\<rparr>)"

lemma GetContext_run:
  assumes "no_faults env"
  shows "fst (GetContext env dv w) = (case dev_map (w_db w) dv of
     None \<Rightarrow> Inl (ErrNetwork NErrDeviceNotFound) | Some x \<Rightarrow> Inr (context_of (w_db w) x))"
proof (cases "dev_map (w_db w) dv")
  case None
  then show ?thesis by (simp add: GetContext_def run_simps assms device_rows.find_id)
next
  case (Some x)
  then have "dev_ID x = dv" by (rule device_rows.tmap_key)
  with Some show ?thesis
    by (cases "net_snapshot_of (w_db w) dv")
      (simp_all add: GetContext_def run_simps assms device_rows.find_id context_of_def device_wans_def device_segments_def
        flip: net_snapshot_of_def)
qed


lemma group_by_filter: "group_by key rows dv = filter (\<lambda>r. key r = dv) rows"
proof -
  have "foldl (\<lambda>m r. m(key r := m (key r) @ [r])) m rows dv = m dv @ filter (\<lambda>r. key r = dv) rows" for m
    by (induction rows arbitrary: m) auto
  then show ?thesis by (simp add: group_by_def)
qed

lemma snapshot_map_of:
  assumes "distinct (map ns_DeviceID (tbl_rows (netsnaps d)))"
  shows "foldl (\<lambda>m s. m(ns_DeviceID s \<mapsto> s)) Map.empty (tbl_rows (netsnaps d)) = net_snapshot_of d"
proof
  fix dv
  have "foldl (\<lambda>m s. m(ns_DeviceID s \<mapsto> s)) m0 xs dv =
      (case find (\<lambda>s. ns_DeviceID s = dv) (rev xs) of None \<Rightarrow> m0 dv | Some s \<Rightarrow> Some s)" for m0 and xs :: "net_snapshot list"
    by (induction xs rule: rev_induct) auto
  moreover have "find (\<lambda>s. ns_DeviceID s = dv) (rev (tbl_rows (netsnaps d))) = net_snapshot_of d dv"
    by (rule option_eqI) (use assms in \<open>simp add: net_snapshot_of_def map_of_id_key flip: rev_map\<close>)
  ultimately show "foldl (\<lambda>m s. m(ns_DeviceID s \<mapsto> s)) Map.empty (tbl_rows (netsnaps d)) dv = net_snapshot_of d dv"
    by (simp split: option.split)
qed

text \<open>The list of all contexts, which is computed from four queries and grouped in memory, says of
  every device what the query of that device says, and lists the devices in the order of their names.\<close>

lemma ListContexts_agrees:
  assumes "net_ok (w_db w)" "wf_table dev_ID (devices (w_db w))" "no_faults env"
  shows "\<exists>cs. fst (ListContexts env w) = Inr cs \<and> map nc_Device cs = sort_key dev_Name (tbl_rows (devices (w_db w))) \<and>
    (\<forall>c \<in> set cs. fst (GetContext env (dev_ID (nc_Device c)) w) = Inr c)"
proof -
  let ?d = "w_db w"
  let ?c = "\<lambda>device. \<lparr>nc_Device = device, nc_Reported = (net_snapshot_of ?d (dev_ID device) \<noteq> None),
     nc_Snapshot = net_snapshot_of ?d (dev_ID device), nc_WANs = wan_order (device_wans ?d (dev_ID device)),
     nc_Networks = network_order (device_segments ?d (dev_ID device))\<rparr>"
  have ord: "filter P (wan_order ws) = wan_order (filter P ws)" "filter Q (network_order ns) = network_order (filter Q ns)"
    for P Q ws ns by (simp_all add: wan_order_def network_order_def filter_sort)
  have "fst (ListContexts env w) = Inr (map ?c (sort_key dev_Name (tbl_rows (devices ?d))))"
    by (simp add: ListContexts_def run_simps assms(3) Let_def group_by_filter snapshot_map_of [OF net_okD(2) [OF assms(1)]] ord
        device_wans_def device_segments_def)
  moreover have ctx: "?c x = context_of ?d x" for x
    using net_okD(5) [OF assms(1), of "dev_ID x"]
    by (cases "net_snapshot_of ?d (dev_ID x)") (simp_all add: context_of_def wan_order_def network_order_def)
  have "fst (GetContext env (dev_ID x) w) = Inr (?c x)" if "x \<in> set (tbl_rows (devices ?d))" for x
    using device_rows.row_tmap [OF assms(2) that] by (simp add: GetContext_run [OF assms(3)] ctx [symmetric])
  then have "\<forall>c \<in> set (map ?c (sort_key dev_Name (tbl_rows (devices ?d)))). fst (GetContext env (dev_ID (nc_Device c)) w) = Inr c"
    by simp
  moreover have "map nc_Device (map ?c xs) = xs" for xs by (induction xs) simp_all
  ultimately show ?thesis by blast
qed

section \<open>Instances\<close>

definition demo_report :: report_input where
  "demo_report = \<lparr>ri_WANs = [\<lparr>wi_InterfaceName = ''eth8'', wi_Role = [], wi_DefaultRoute = True, wi_IPv4 = [],
     wi_GatewayIPv4 = [], wi_IPv6 = [], wi_PublicIPv4 = []\<rparr>],
     ri_Networks = [\<lparr>si_Name = ''LAN'', si_VLANID = Some 10, si_IPv4CIDR = [], si_GatewayIPv4 = [], si_Purpose = []\<rparr>]\<rparr>"

lemma demo_report_valid: "validateReport demo_report = None"
proof -
  have "TrimSpace ''eth8'' = ''eth8''" "TrimSpace ''LAN'' = ''LAN''" by (simp_all add: TrimSpace_no_space is_space_def)
  then show ?thesis
    by (simp add: validateReport_def demo_report_def Let_def normalizedRole_def ToLower_def bad_v4_def bad_v6_def check_network_def)
qed

lemma demo_net_ok: "net_ok (w_db demo_base)"
  by (simp add: net_ok_def device_wans_def device_segments_def wans_ok_def) (simp add: empty_table_def)

lemma demo_reported:
  obtains c w' where "ReportContext demo_env 1 ''not-an-address'' demo_report demo_base = (Inr c, w')"
proof -
  have "\<exists>c w'. ReportContext demo_env 1 ''not-an-address'' demo_report demo_base = (Inr c, w')"
    by (simp add: ReportContext_def demo_report_valid)
      (simp add: report_tx_def store_snapshot_def create_wans_def create_segments_def demo_report_def run_simps
        demo_no_faults demo_device_def empty_table_def Let_def)
  with that show thesis by blast
qed


theorem validateReport_sound_complete_witness:
  "wan_input_ok (hd (ri_WANs demo_report)) \<and> validateReport (demo_report\<lparr>ri_WANs := []\<rparr>) \<noteq> None"
  using validateReport_sound_complete [of demo_report] validateReport_sound_complete [of "demo_report\<lparr>ri_WANs := []\<rparr>"]
    demo_report_valid by simp

end
