(* ===== verification/Hermes_API.thy ===== *)
theory Hermes_API
  imports Hermes_Config Hermes_Credential Hermes_Enrollment Hermes_Telemetry Hermes_NetworkContext
begin

text \<open>
  \<open>internal/api\<close>: the handlers of the HTTP server over the services. Routing, the decoding of
  JSON and the struct validator are third-party: a request reaches the model as the endpoint
  it was routed to with its path parameters, the outcome of \<open>Bind\<close> of its body, and its
  headers; the validator and the htpasswd check are functions of the server. A reply is its
  status and what its body is made of; texts that carry no data (\<open>warning\<close>) are left out.
  \<open>New\<close> always sets every service, so the guards against a missing one are left out too.
\<close>

section \<open>Requests and replies\<close>

datatype 'a bound = BindError | BindEOF | Bound 'a

record create_domain_request =
  cd_Name :: string
  cd_DefaultTTL :: int
  cd_Wildcard :: bool

record create_device_request =
  cv_Name :: string
  cv_DisplayName :: string
  cv_Type :: string

record stage_request =
  st_KeyID :: string
  st_SecretHash :: string

text \<open>\<open>c.Validate\<close> on each type of request.\<close>

record validator =
  valid_domain :: "create_domain_request \<Rightarrow> bool"
  valid_device :: "create_device_request \<Rightarrow> bool"
  valid_stage :: "stage_request \<Rightarrow> bool"
  valid_grace :: "int \<Rightarrow> bool"
  valid_ttl :: "int \<Rightarrow> bool"
  valid_version :: "string \<Rightarrow> bool"
  valid_heartbeat :: "heartbeat_input \<Rightarrow> bool"
  valid_report :: "report_input \<Rightarrow> bool"

record http_request =
  rq_BasicAuth :: "(string \<times> string) option"
  rq_Authorization :: string
  rq_XRealIP :: string
  rq_XForwardedFor :: string
  rq_RemoteAddr :: string
  rq_UserAgent :: string

record server =
  srv_Config :: hermes_config
  srv_DDNS :: ddns_service
  srv_Validator :: validator
  srv_Htpasswd :: "string \<Rightarrow> string \<Rightarrow> string \<Rightarrow> bool option"

record build_info =
  bi_Product :: string
  bi_Version :: string
  bi_Commit :: string
  bi_BuildTime :: string

definition build_current :: build_info where
  "build_current = \<lparr>bi_Product = ''HermesDDNS'', bi_Version = ''dev'', bi_Commit = ''unknown'', bi_BuildTime = ''unknown''\<rparr>"

datatype payload =
    NoContent
  | PlainText string
  | ErrorMessage string
  | ErrorOf err
  | MessageBody string
  | HealthBody bool
  | BuildBody build_info
  | DomainBody domain
  | DomainsBody "domain list"
  | DeviceCreated device string string
  | DevicesBody "device list"
  | CredentialsBody "ddns_credential list"
  | LogsBody "update_log list"
  | AgentCredentialIssued identity_credential string
  | AgentCredentialsBody "identity_credential list"
  | MeBody device identity_credential
  | RotationBody rotation string
  | CandidateBody ddns_credential string
  | RotationsBody "rotation list"
  | RotationRow rotation
  | RolledBackBody rotation string
  | CompletedBody nat
  | EnrollmentCreated enrollment string
  | EnrollmentsBody "enrollment list"
  | EnrollmentRow enrollment
  | EnrollmentRevoked enrollment string
  | EnrollmentConfirmed enrollment string
  | ExchangedBody exchange_result string "string list" string
  | HeartbeatBody nat time int int telemetry_snapshot
  | StatusBody agent_status
  | StatusesBody "agent_status list"
  | ContextBody network_context
  | ContextsBody "network_context list"

record reply =
  rp_Status :: nat
  rp_Challenge :: string
  rp_Body :: payload

type_synonym handler = "world \<Rightarrow> reply \<times> world"

definition reply_of :: "nat \<Rightarrow> payload \<Rightarrow> reply" where
  "reply_of status body = \<lparr>rp_Status = status, rp_Challenge = [], rp_Body = body\<rparr>"

definition answer :: "nat \<Rightarrow> payload \<Rightarrow> handler" where
  "answer status body = (\<lambda>w. (reply_of status body, w))"

text \<open>A call of a service: \<open>if err != nil { return ...}\<close>, and what follows.\<close>

definition call :: "'a dbop \<Rightarrow> (err \<Rightarrow> reply) \<Rightarrow> ('a \<Rightarrow> handler) \<Rightarrow> handler" where
  "call m onError k = (\<lambda>w. (case m w of (Inl e, w') \<Rightarrow> (onError e, w') | (Inr x, w') \<Rightarrow> k x w'))"

definition internal_error :: "err \<Rightarrow> reply" where
  "internal_error e = reply_of 500 (ErrorOf e)"

text \<open>\<open>parseUintParam\<close> with the reply to a parameter that is not a number.\<close>

definition parse_param :: "string \<Rightarrow> string \<Rightarrow> (nat \<Rightarrow> handler) \<Rightarrow> handler" where
  "parse_param value message k = (case ParseUint64 value of None \<Rightarrow> answer 400 (ErrorMessage message) | Some n \<Rightarrow> k n)"

text \<open>\<open>Bind\<close> and \<open>Validate\<close>: a required body, and one that may be missing.\<close>

definition bind_body :: "'a bound \<Rightarrow> ('a \<Rightarrow> bool) \<Rightarrow> ('a \<Rightarrow> handler) \<Rightarrow> handler" where
  "bind_body b valid k = (case b of
       Bound r \<Rightarrow> if valid r then k r else answer 400 (ErrorMessage ''validation'')
     | _ \<Rightarrow> answer 400 (ErrorMessage ''bind''))"

definition bind_optional :: "'a \<Rightarrow> 'a bound \<Rightarrow> ('a \<Rightarrow> bool) \<Rightarrow> ('a \<Rightarrow> handler) \<Rightarrow> handler" where
  "bind_optional zero b valid k = (case b of
       BindError \<Rightarrow> answer 400 (ErrorMessage ''bind'')
     | BindEOF \<Rightarrow> if valid zero then k zero else answer 400 (ErrorMessage ''validation'')
     | Bound r \<Rightarrow> if valid r then k r else answer 400 (ErrorMessage ''validation''))"

section \<open>Errors as replies\<close>

definition credentialError :: "err \<Rightarrow> reply" where
  "credentialError e = reply_of (case e of
       ErrCredential c \<Rightarrow>
         (if c = CErrDeviceNotFound \<or> c = CErrRotationNotFound then 404
          else if c = CErrInvalidGracePeriod \<or> c = CErrInvalidCandidateKeyID \<or> c = CErrInvalidCandidateHash then 400
          else if c = CErrNoActiveCredential \<or> c = CErrMultipleActive \<or> c = CErrRotationInProgress \<or>
            c = CErrInvalidRotationState then 409
          else 500)
     | _ \<Rightarrow> 500) (ErrorOf e)"

definition agentCredentialAdminError :: "err \<Rightarrow> reply" where
  "agentCredentialAdminError e = reply_of
     (if e = ErrAgentAuth AErrDeviceNotFound \<or> e = ErrAgentAuth AErrCredentialNotFound then 404
      else if e = ErrAgentAuth AErrActiveCredentialExists then 409 else 500) (ErrorOf e)"

definition enrollmentAdminError :: "err \<Rightarrow> reply" where
  "enrollmentAdminError e = reply_of
     (if e = ErrEnrollment EErrDeviceNotFound \<or> e = ErrEnrollment EErrEnrollmentNotFound \<or>
         e = ErrAgentAuth AErrDeviceNotFound then 404
      else if e = ErrEnrollment EErrInvalidTTL then 400
      else if e = ErrEnrollment EErrEnrollmentInProgress \<or> e = ErrEnrollment EErrInvalidState \<or>
         e = ErrAgentAuth AErrActiveCredentialExists \<or> e = ErrAgentAuth AErrCredentialNotFound then 409
      else 500) (ErrorOf e)"

definition telemetryError :: "err \<Rightarrow> reply" where
  "telemetryError e = reply_of (case e of
       ErrTelemetry t \<Rightarrow> if t = TErrDeviceNotFound then 404 else 400
     | _ \<Rightarrow> 500) (ErrorOf e)"

definition networkContextError :: "err \<Rightarrow> reply" where
  "networkContextError e = reply_of (case e of
       ErrNetwork n \<Rightarrow> if n = NErrDeviceNotFound then 404 else 400
     | _ \<Rightarrow> 500) (ErrorOf e)"

definition agentUnauthorized :: reply where
  "agentUnauthorized = \<lparr>rp_Status = 401, rp_Challenge = ''Bearer realm=\"HermesDDNS Agent\"'', rp_Body = ErrorMessage ''badauth''\<rparr>"

definition enrollmentUnauthorized :: reply where
  "enrollmentUnauthorized = \<lparr>rp_Status = 401, rp_Challenge = ''Bearer realm=\"HermesDDNS Enrollment\"'', rp_Body = ErrorMessage ''badauth''\<rparr>"

definition ddns_error :: "err \<Rightarrow> reply" where
  "ddns_error e =
     (if e = ErrDDNS DErrBadAuth then reply_of 401 (PlainText (''badauth'' @ [nl]))
      else if e = ErrDDNS DErrNotFQDN then reply_of 400 (PlainText (''notfqdn'' @ [nl]))
      else if e = ErrDDNS DErrBadIP then reply_of 400 (PlainText (''badagent'' @ [nl]))
      else reply_of 503 (PlainText (''dnserr'' @ [nl])))"

section \<open>Headers\<close>

text \<open>\<open>net.SplitHostPort\<close>: the host before the last colon, without the brackets of an IPv6 address.\<close>

definition last_index :: "char \<Rightarrow> string \<Rightarrow> nat option" where
  "last_index c s = (if c \<in> set s then Some (length s - 1 - length (takeWhile (\<lambda>x. x \<noteq> c) (rev s))) else None)"

definition first_index :: "char \<Rightarrow> string \<Rightarrow> nat option" where
  "first_index c s = (if c \<in> set s then Some (length (takeWhile (\<lambda>x. x \<noteq> c) s)) else None)"

definition SplitHostPort :: "string \<Rightarrow> (string \<times> string) option" where
  "SplitHostPort hostport =
     (case last_index CHR '':'' hostport of
        None \<Rightarrow> None
      | Some i \<Rightarrow>
          (let found = (if hd hostport = CHR ''['' then
                 (case first_index CHR '']'' hostport of
                    None \<Rightarrow> None
                  | Some e \<Rightarrow> if e + 1 = i then Some (drop 1 (take e hostport), 1, e + 1) else None)
               else if CHR '':'' \<in> set (take i hostport) then None
               else Some (take i hostport, 0, 0))
           in case found of None \<Rightarrow> None
              | Some (host, j, k) \<Rightarrow>
                  if CHR ''['' \<in> set (drop j hostport) \<or> CHR '']'' \<in> set (drop k hostport) then None
                  else Some (host, drop (i + 1) hostport)))"

definition callerIP :: "server \<Rightarrow> http_request \<Rightarrow> string" where
  "callerIP srv rq =
     (let remote = (case SplitHostPort (rq_RemoteAddr rq) of Some (host, _) \<Rightarrow> host | None \<Rightarrow> rq_RemoteAddr rq) in
      if cf_TrustProxyHeaders (srv_Config srv) then
        (let xri = TrimSpace (rq_XRealIP rq); xff = TrimSpace (rq_XForwardedFor rq) in
         if xri \<noteq> [] then xri
         else if xff \<noteq> [] then TrimSpace (hd (Split CHR '','' xff))
         else remote)
      else remote)"

text \<open>\<open>strings.EqualFold\<close> on ASCII, and \<open>bearerToken\<close>.\<close>

definition EqualFold :: "string \<Rightarrow> string \<Rightarrow> bool" where
  "EqualFold s t \<longleftrightarrow> ToLower s = ToLower t"

definition bearerToken :: "string \<Rightarrow> string option" where
  "bearerToken header =
     (case Fields (TrimSpace header) of
        [scheme, token] \<Rightarrow> if EqualFold scheme ''Bearer'' \<and> token \<noteq> [] then Some token else None
      | _ \<Rightarrow> None)"

definition contains :: "string list \<Rightarrow> string \<Rightarrow> bool" where
  "contains items target \<longleftrightarrow> (\<exists>item \<in> set items. EqualFold item target)"

section \<open>Administrative handlers\<close>

definition health :: "env \<Rightarrow> handler" where
  "health env =
     call (stmt env (\<lambda>d. (Inr (), d))) (\<lambda>_. reply_of 503 (HealthBody False)) (\<lambda>_. answer 200 (HealthBody True))"

definition createDomain :: "env \<Rightarrow> server \<Rightarrow> create_domain_request bound \<Rightarrow> handler" where
  "createDomain env srv body =
     bind_body body (valid_domain (srv_Validator srv)) (\<lambda>req.
     (let name = TrimSuffix (ToLower (cd_Name req)) ''.'' in
      if \<not> contains (cf_AllowedDomains (srv_Config srv)) name
      then answer 400 (ErrorMessage ''domain is not listed in HERMES_DOMAINS'')
      else
      (let ttl = (if cd_DefaultTTL req = 0 then cf_DefaultTTL (srv_Config srv) else cd_DefaultTTL req) in
       call (create env domains domains_update (\<lambda>d d'. dom_Name d = dom_Name d') (\<lambda>i _.
              \<lparr>dom_ID = i, dom_Name = name, dom_DefaultTTL = ttl, dom_Enabled = True, dom_Wildcard = cd_Wildcard req\<rparr>))
         (\<lambda>e. reply_of 409 (ErrorOf e)) (\<lambda>d.
       answer 201 (DomainBody d)))))"

definition listDomains :: "env \<Rightarrow> handler" where
  "listDomains env =
     call (select env domains (\<lambda>_. True)) internal_error (\<lambda>rows. answer 200 (DomainsBody (sort_key dom_Name rows)))"

text \<open>The key is generated outside of the transaction: only its error is a 500.\<close>

definition createDevice :: "env \<Rightarrow> server \<Rightarrow> create_device_request bound \<Rightarrow> handler" where
  "createDevice env srv body =
     bind_body body (valid_device (srv_Validator srv)) (\<lambda>req.
     call (create_device_rows env (cv_Name req) (cv_DisplayName req) (cv_Type req))
       (\<lambda>e. if e = RandError then internal_error e else reply_of 409 (ErrorOf e)) (\<lambda>(dev, key).
     answer 201 (DeviceCreated dev (dev_Name dev) (gk_Plaintext key))))"

definition listDevices :: "env \<Rightarrow> handler" where
  "listDevices env =
     call (select env devices (\<lambda>_. True)) internal_error (\<lambda>rows. answer 200 (DevicesBody (sort_key dev_Name rows)))"

definition listCredentials :: "env \<Rightarrow> string \<Rightarrow> handler" where
  "listCredentials env param =
     parse_param param ''invalid device id'' (\<lambda>id.
     call (select env creds (\<lambda>c. cr_DeviceID c = id)) internal_error (\<lambda>rows.
     answer 200 (CredentialsBody (newest_first cr_CreatedAt rows))))"

definition listLogs :: "env \<Rightarrow> handler" where
  "listLogs env =
     call (select env logs (\<lambda>_. True)) internal_error (\<lambda>rows.
     answer 200 (LogsBody (take 100 (newest_first log_CreatedAt rows))))"

definition ensureDeviceExists :: "env \<Rightarrow> nat \<Rightarrow> unit dbop" where
  "ensureDeviceExists env deviceID =
     bindE (count_rows env devices (\<lambda>d. dev_ID d = deviceID)) (\<lambda>count.
     failIf (count = 0) (ErrCredential CErrDeviceNotFound) (ret ()))"

definition issueAgentCredential :: "env \<Rightarrow> string \<Rightarrow> handler" where
  "issueAgentCredential env param =
     parse_param param ''invalid device id'' (\<lambda>deviceID.
     call (IssueCredential env deviceID) agentCredentialAdminError (\<lambda>(stored, key).
     answer 201 (AgentCredentialIssued stored (gk_Plaintext key))))"

definition listAgentCredentials :: "env \<Rightarrow> string \<Rightarrow> handler" where
  "listAgentCredentials env param =
     parse_param param ''invalid device id'' (\<lambda>deviceID.
     call (ensureDeviceExists env deviceID) credentialError (\<lambda>_.
     call (select env identities (\<lambda>c. idc_DeviceID c = deviceID)) internal_error (\<lambda>rows.
     answer 200 (AgentCredentialsBody (newest_first idc_CreatedAt rows)))))"

definition revokeAgentCredential :: "env \<Rightarrow> string \<Rightarrow> string \<Rightarrow> handler" where
  "revokeAgentCredential env param credential_param =
     parse_param param ''invalid device id'' (\<lambda>deviceID.
     parse_param credential_param ''invalid agent credential id'' (\<lambda>credentialID.
     call (RevokeCredential env deviceID credentialID) agentCredentialAdminError (\<lambda>_.
     answer 200 (MessageBody ''agent credential revoked''))))"

section \<open>Rotation handlers\<close>

definition requestCredentialRotation :: "env \<Rightarrow> server \<Rightarrow> string \<Rightarrow> int bound \<Rightarrow> handler" where
  "requestCredentialRotation env srv param body =
     parse_param param ''invalid device id'' (\<lambda>deviceID.
     bind_optional 0 body (valid_grace (srv_Validator srv)) (\<lambda>graceMinutes.
     (let graceMinutes = (if graceMinutes = 0 then 30 else graceMinutes) in
     call (RequestRotation env deviceID graceMinutes) credentialError (\<lambda>rotation.
     answer 201 (RotationBody rotation ''agent_stage_candidate'')))))"

definition listCredentialRotations :: "env \<Rightarrow> string \<Rightarrow> handler" where
  "listCredentialRotations env param =
     parse_param param ''invalid device id'' (\<lambda>deviceID.
     call (ensureDeviceExists env deviceID) credentialError (\<lambda>_.
     call (select env rotations (\<lambda>r. rot_DeviceID r = deviceID)) internal_error (\<lambda>rows.
     answer 200 (RotationsBody (newest_first rot_CreatedAt rows)))))"

definition getCredentialRotation :: "env \<Rightarrow> string \<Rightarrow> string \<Rightarrow> handler" where
  "getCredentialRotation env param rotation_param =
     parse_param param ''invalid device id'' (\<lambda>deviceID.
     parse_param rotation_param ''invalid rotation id'' (\<lambda>rotationID.
     call (first env rotations (\<lambda>r. rot_ID r = rotationID \<and> rot_DeviceID r = deviceID)) internal_error (\<lambda>found.
     (case found of
        None \<Rightarrow> answer 404 (ErrorOf (ErrCredential CErrRotationNotFound))
      | Some rotation \<Rightarrow> answer 200 (RotationRow rotation)))))"

definition rollbackCredentialRotation :: "env \<Rightarrow> string \<Rightarrow> string \<Rightarrow> string bound \<Rightarrow> handler" where
  "rollbackCredentialRotation env param rotation_param body =
     parse_param param ''invalid device id'' (\<lambda>deviceID.
     parse_param rotation_param ''invalid rotation id'' (\<lambda>rotationID.
     bind_optional [] body (\<lambda>_. True) (\<lambda>reason.
     (let reason = (if reason = [] then ''administrator requested rollback'' else reason) in
     call (Rollback env rotationID deviceID reason) credentialError (\<lambda>_.
     call (bindE (first env rotations (\<lambda>r. rot_ID r = rotationID)) (orFail DBError)) internal_error (\<lambda>rotation.
     answer 200 (RolledBackBody rotation ''credential rotation rolled back'')))))))"

definition reconcileCredentialRotations :: "env \<Rightarrow> handler" where
  "reconcileCredentialRotations env = (\<lambda>w.
     (case ReconcileExpiredGrace env w of
        ((completed, Some e), w') \<Rightarrow> (credentialError e, w')
      | ((completed, None), w') \<Rightarrow> answer 200 (CompletedBody completed) w'))"

section \<open>Enrollment handlers\<close>

definition DefaultTTLMinutes :: int where "DefaultTTLMinutes = 15"

definition createAgentEnrollment :: "env \<Rightarrow> server \<Rightarrow> string \<Rightarrow> int bound \<Rightarrow> handler" where
  "createAgentEnrollment env srv param body =
     parse_param param ''invalid device id'' (\<lambda>deviceID.
     bind_optional 0 body (valid_ttl (srv_Validator srv)) (\<lambda>ttlMinutes.
     (let ttlMinutes = (if ttlMinutes = 0 then DefaultTTLMinutes else ttlMinutes) in
     call (CreateEnrollment env deviceID ttlMinutes) enrollmentAdminError (\<lambda>(stored, key).
     answer 201 (EnrollmentCreated stored (gk_Plaintext key))))))"

definition listAgentEnrollments :: "env \<Rightarrow> string \<Rightarrow> handler" where
  "listAgentEnrollments env param =
     parse_param param ''invalid device id'' (\<lambda>deviceID.
     call (ListEnrollments env deviceID) enrollmentAdminError (\<lambda>rows. answer 200 (EnrollmentsBody rows)))"

definition getAgentEnrollment :: "env \<Rightarrow> string \<Rightarrow> string \<Rightarrow> handler" where
  "getAgentEnrollment env param enrollment_param =
     parse_param param ''invalid device id'' (\<lambda>deviceID.
     parse_param enrollment_param ''invalid enrollment id'' (\<lambda>enrollmentID.
     call (GetEnrollment env deviceID enrollmentID) enrollmentAdminError (\<lambda>stored. answer 200 (EnrollmentRow stored))))"

definition revokeAgentEnrollment :: "env \<Rightarrow> string \<Rightarrow> string \<Rightarrow> handler" where
  "revokeAgentEnrollment env param enrollment_param =
     parse_param param ''invalid device id'' (\<lambda>deviceID.
     parse_param enrollment_param ''invalid enrollment id'' (\<lambda>enrollmentID.
     call (RevokeEnrollment env deviceID enrollmentID) enrollmentAdminError (\<lambda>stored.
     answer 200 (EnrollmentRevoked stored ''agent enrollment revoked''))))"

definition exchangeAgentEnrollment :: "env \<Rightarrow> server \<Rightarrow> http_request \<Rightarrow> handler" where
  "exchangeAgentEnrollment env srv rq =
     (case bearerToken (rq_Authorization rq) of
        None \<Rightarrow> (\<lambda>w. (enrollmentUnauthorized, w))
      | Some token \<Rightarrow>
          call (Exchange env token (callerIP srv rq))
            (\<lambda>e. if e = ErrEnrollment EErrBadAuth then enrollmentUnauthorized else enrollmentAdminError e) (\<lambda>result.
          answer 201 (ExchangedBody result ''/nic/update'' (cf_AllowedDomains (srv_Config srv))
            (cf_APIPrefix (srv_Config srv) @ ''/agent/enrollment/confirm''))))"

section \<open>Status and network handlers\<close>

definition getAgentStatus :: "env \<Rightarrow> string \<Rightarrow> handler" where
  "getAgentStatus env param =
     parse_param param ''invalid device id'' (\<lambda>deviceID.
     call (Status env deviceID) telemetryError (\<lambda>status. answer 200 (StatusBody status)))"

definition listAgentStatuses :: "env \<Rightarrow> handler" where
  "listAgentStatuses env = call (ListStatuses env) telemetryError (\<lambda>statuses. answer 200 (StatusesBody statuses))"

definition getNetworkContext :: "env \<Rightarrow> string \<Rightarrow> handler" where
  "getNetworkContext env param =
     parse_param param ''invalid device id'' (\<lambda>deviceID.
     call (GetContext env deviceID) networkContextError (\<lambda>ctx. answer 200 (ContextBody ctx)))"

definition listNetworkContexts :: "env \<Rightarrow> handler" where
  "listNetworkContexts env = call (ListContexts env) networkContextError (\<lambda>contexts. answer 200 (ContextsBody contexts))"

section \<open>Agent handlers\<close>

text \<open>Each takes the authenticated device and credential that the middleware stored in the context.\<close>

type_synonym agent_context = "device \<times> identity_credential"

definition agentMe :: "agent_context \<Rightarrow> handler" where
  "agentMe auth = answer 200 (MeBody (fst auth) (snd auth))"

definition agentHeartbeat :: "env \<Rightarrow> server \<Rightarrow> http_request \<Rightarrow> agent_context \<Rightarrow> heartbeat_input bound \<Rightarrow> handler" where
  "agentHeartbeat env srv rq auth body =
     bind_optional \<lparr>hb_AgentVersion = None, hb_SystemHostname = None, hb_Platform = None, hb_Architecture = None,
         hb_OSVersion = None, hb_KernelVersion = None, hb_FirmwareVersion = None, hb_BootID = None,
         hb_UptimeSeconds = None, hb_CPUCount = None, hb_Load1 = None, hb_Load5 = None, hb_Load15 = None,
         hb_MemoryTotalBytes = None, hb_MemoryAvailableBytes = None, hb_DiskTotalBytes = None,
         hb_DiskAvailableBytes = None\<rparr> body (valid_heartbeat (srv_Validator srv)) (\<lambda>input.
     call (ReportHeartbeat env (dev_ID (fst auth)) (callerIP srv rq) input) telemetryError (\<lambda>snapshot.
     answer 200 (HeartbeatBody (dev_ID (fst auth)) (tel_LastHeartbeatAt snapshot) DefaultHeartbeatIntervalSeconds
       DefaultOnlineThresholdSeconds snapshot)))"

definition agentNetworkContext :: "env \<Rightarrow> server \<Rightarrow> http_request \<Rightarrow> agent_context \<Rightarrow> report_input bound \<Rightarrow> handler" where
  "agentNetworkContext env srv rq auth body =
     bind_body body (valid_report (srv_Validator srv)) (\<lambda>input.
     call (ReportContext env (dev_ID (fst auth)) (callerIP srv rq) input) networkContextError (\<lambda>ctx.
     answer 200 (ContextBody ctx)))"

definition confirmAgentEnrollment :: "env \<Rightarrow> server \<Rightarrow> http_request \<Rightarrow> agent_context \<Rightarrow> string bound \<Rightarrow> handler" where
  "confirmAgentEnrollment env srv rq auth body =
     bind_optional [] body (valid_version (srv_Validator srv)) (\<lambda>agentVersion.
     call (ConfirmEnrollment env (dev_ID (fst auth)) (idc_ID (snd auth)) (callerIP srv rq) agentVersion)
       enrollmentAdminError (\<lambda>stored.
     answer 200 (EnrollmentConfirmed stored ''enrollment_complete'')))"

definition agentRotationNextAction :: "rot_status \<Rightarrow> string" where
  "agentRotationNextAction status = (case status of
       RRequested \<Rightarrow> ''generate_and_stage_candidate''
     | RStaged \<Rightarrow> ''install_candidate_then_start_validation''
     | RValidating \<Rightarrow> ''perform_ddns_update_with_candidate''
     | RGrace \<Rightarrow> ''keep_candidate_active_until_grace_completes''
     | _ \<Rightarrow> ''none'')"

definition agentCurrentRotation :: "env \<Rightarrow> agent_context \<Rightarrow> handler" where
  "agentCurrentRotation env auth =
     call (CurrentRotation env (dev_ID (fst auth))) credentialError (\<lambda>found.
     (case found of
        None \<Rightarrow> answer 204 NoContent
      | Some rotation \<Rightarrow> answer 200 (RotationBody rotation (agentRotationNextAction (rot_Status rotation)))))"

definition agentStageCandidate :: "env \<Rightarrow> server \<Rightarrow> agent_context \<Rightarrow> string \<Rightarrow> stage_request bound \<Rightarrow> handler" where
  "agentStageCandidate env srv auth rotation_param body =
     parse_param rotation_param ''invalid rotation id'' (\<lambda>rotationID.
     bind_body body (valid_stage (srv_Validator srv)) (\<lambda>req.
     call (StageCandidate env rotationID (dev_ID (fst auth)) (st_KeyID req) (st_SecretHash req)) credentialError (\<lambda>candidate.
     answer 201 (CandidateBody candidate ''install_candidate_then_start_validation''))))"

definition agentStartValidation :: "env \<Rightarrow> agent_context \<Rightarrow> string \<Rightarrow> handler" where
  "agentStartValidation env auth rotation_param =
     parse_param rotation_param ''invalid rotation id'' (\<lambda>rotationID.
     call (StartValidation env rotationID (dev_ID (fst auth))) credentialError (\<lambda>rotation.
     answer 200 (RotationBody rotation ''perform_ddns_update_with_candidate'')))"

section \<open>The DDNS endpoint\<close>

text \<open>An error of the confirmation is logged and not answered.\<close>

definition ddnsUpdate :: "env \<Rightarrow> server \<Rightarrow> http_request \<Rightarrow> string \<Rightarrow> string \<Rightarrow> handler" where
  "ddnsUpdate env srv rq hostname myip =
     (case rq_BasicAuth rq of
        None \<Rightarrow> answer 401 (PlainText (''badauth'' @ [nl]))
      | Some (username, password) \<Rightarrow>
          (let caller = callerIP srv rq in
           call (AuthenticateDDNS env username password caller) (\<lambda>_. reply_of 401 (PlainText (''badauth'' @ [nl]))) (\<lambda>auth.
           call (UpdateDDNS env (srv_DDNS srv) auth hostname myip caller (rq_UserAgent rq)) ddns_error (\<lambda>result w.
           answer 200 (PlainText (rs_Code result @ '' '' @ rs_IP result @ [nl]))
             (snd (ConfirmCredentialUse env (cr_ID (ac_Credential auth)) w))))))"

section \<open>Endpoints\<close>

datatype endpoint =
    Health
  | SystemVersion
  | DDNSUpdate string string
  | Enroll
  | ListDomains
  | CreateDomain "create_domain_request bound"
  | ListDevices
  | CreateDevice "create_device_request bound"
  | ListCredentials string
  | ListAgentCredentials string
  | IssueAgentCredential string
  | RevokeAgentCredential string string
  | CreateAgentEnrollment string "int bound"
  | ListAgentEnrollments string
  | GetAgentEnrollment string string
  | RevokeAgentEnrollment string string
  | RequestCredentialRotation string "int bound"
  | ListCredentialRotations string
  | GetCredentialRotation string string
  | RollbackCredentialRotation string string "string bound"
  | ReconcileCredentialRotations
  | ListAgentStatuses
  | GetAgentStatus string
  | ListNetworkContexts
  | GetNetworkContext string
  | ListLogs
  | AgentMe
  | AgentHeartbeat "heartbeat_input bound"
  | AgentNetworkContext "report_input bound"
  | ConfirmAgentEnrollment "string bound"
  | AgentCurrentRotation
  | AgentStageCandidate string "stage_request bound"
  | AgentStartValidation string

datatype access = Public | Admin | Agent

text \<open>The groups of \<open>routes\<close>.\<close>

fun access_of :: "endpoint \<Rightarrow> access" where
  "access_of Health = Public"
| "access_of SystemVersion = Public"
| "access_of (DDNSUpdate _ _) = Public"
| "access_of Enroll = Public"
| "access_of AgentMe = Agent"
| "access_of (AgentHeartbeat _) = Agent"
| "access_of (AgentNetworkContext _) = Agent"
| "access_of (ConfirmAgentEnrollment _) = Agent"
| "access_of AgentCurrentRotation = Agent"
| "access_of (AgentStageCandidate _ _) = Agent"
| "access_of (AgentStartValidation _) = Agent"
| "access_of _ = Admin"

fun public_endpoint :: "env \<Rightarrow> server \<Rightarrow> http_request \<Rightarrow> endpoint \<Rightarrow> handler" where
  "public_endpoint env srv rq Health = health env"
| "public_endpoint env srv rq SystemVersion = answer 200 (BuildBody build_current)"
| "public_endpoint env srv rq (DDNSUpdate hostname myip) = ddnsUpdate env srv rq hostname myip"
| "public_endpoint env srv rq Enroll = exchangeAgentEnrollment env srv rq"
| "public_endpoint env srv rq _ = answer 404 NoContent"

fun admin_endpoint :: "env \<Rightarrow> server \<Rightarrow> endpoint \<Rightarrow> handler" where
  "admin_endpoint env srv ListDomains = listDomains env"
| "admin_endpoint env srv (CreateDomain body) = createDomain env srv body"
| "admin_endpoint env srv ListDevices = listDevices env"
| "admin_endpoint env srv (CreateDevice body) = createDevice env srv body"
| "admin_endpoint env srv (ListCredentials did) = listCredentials env did"
| "admin_endpoint env srv (ListAgentCredentials did) = listAgentCredentials env did"
| "admin_endpoint env srv (IssueAgentCredential did) = issueAgentCredential env did"
| "admin_endpoint env srv (RevokeAgentCredential did cid) = revokeAgentCredential env did cid"
| "admin_endpoint env srv (CreateAgentEnrollment did body) = createAgentEnrollment env srv did body"
| "admin_endpoint env srv (ListAgentEnrollments did) = listAgentEnrollments env did"
| "admin_endpoint env srv (GetAgentEnrollment did eid) = getAgentEnrollment env did eid"
| "admin_endpoint env srv (RevokeAgentEnrollment did eid) = revokeAgentEnrollment env did eid"
| "admin_endpoint env srv (RequestCredentialRotation did body) = requestCredentialRotation env srv did body"
| "admin_endpoint env srv (ListCredentialRotations did) = listCredentialRotations env did"
| "admin_endpoint env srv (GetCredentialRotation did rid) = getCredentialRotation env did rid"
| "admin_endpoint env srv (RollbackCredentialRotation did rid body) = rollbackCredentialRotation env did rid body"
| "admin_endpoint env srv ReconcileCredentialRotations = reconcileCredentialRotations env"
| "admin_endpoint env srv ListAgentStatuses = listAgentStatuses env"
| "admin_endpoint env srv (GetAgentStatus did) = getAgentStatus env did"
| "admin_endpoint env srv ListNetworkContexts = listNetworkContexts env"
| "admin_endpoint env srv (GetNetworkContext did) = getNetworkContext env did"
| "admin_endpoint env srv ListLogs = listLogs env"
| "admin_endpoint env srv _ = answer 404 NoContent"

fun agent_endpoint :: "env \<Rightarrow> server \<Rightarrow> http_request \<Rightarrow> agent_context \<Rightarrow> endpoint \<Rightarrow> handler" where
  "agent_endpoint env srv rq auth AgentMe = agentMe auth"
| "agent_endpoint env srv rq auth (AgentHeartbeat body) = agentHeartbeat env srv rq auth body"
| "agent_endpoint env srv rq auth (AgentNetworkContext body) = agentNetworkContext env srv rq auth body"
| "agent_endpoint env srv rq auth (ConfirmAgentEnrollment body) = confirmAgentEnrollment env srv rq auth body"
| "agent_endpoint env srv rq auth AgentCurrentRotation = agentCurrentRotation env auth"
| "agent_endpoint env srv rq auth (AgentStageCandidate rid body) = agentStageCandidate env srv auth rid body"
| "agent_endpoint env srv rq auth (AgentStartValidation rid) = agentStartValidation env auth rid"
| "agent_endpoint env srv rq auth _ = answer 404 NoContent"

text \<open>
  The middleware of the groups: \<open>authenticateAgent\<close>, and the basic authentication of the
  administrators, installed only when a login is configured, with \<open>authenticateAdmin\<close>.
\<close>

definition authenticateAgent :: "env \<Rightarrow> server \<Rightarrow> http_request \<Rightarrow> (agent_context \<Rightarrow> handler) \<Rightarrow> handler" where
  "authenticateAgent env srv rq next_handler =
     (case bearerToken (rq_Authorization rq) of
        None \<Rightarrow> (\<lambda>w. (agentUnauthorized, w))
      | Some token \<Rightarrow> call (AuthenticateAgent env token (callerIP srv rq)) (\<lambda>_. agentUnauthorized) next_handler)"

definition authenticateAdmin :: "server \<Rightarrow> string \<Rightarrow> string \<Rightarrow> bool option" where
  "authenticateAdmin srv username password = srv_Htpasswd srv (cf_AdminLogin (srv_Config srv)) username password"

definition admin_guard :: "server \<Rightarrow> http_request \<Rightarrow> handler \<Rightarrow> handler" where
  "admin_guard srv rq next_handler =
     (if cf_AdminLogin (srv_Config srv) = [] then next_handler
      else (case rq_BasicAuth rq of
              None \<Rightarrow> answer 401 NoContent
            | Some (username, password) \<Rightarrow>
                (case authenticateAdmin srv username password of
                   Some True \<Rightarrow> next_handler
                 | Some False \<Rightarrow> answer 401 NoContent
                 | None \<Rightarrow> answer 500 NoContent)))"

definition serve :: "env \<Rightarrow> server \<Rightarrow> http_request \<Rightarrow> endpoint \<Rightarrow> handler" where
  "serve env srv rq ep =
     (case access_of ep of
        Public \<Rightarrow> public_endpoint env srv rq ep
      | Admin \<Rightarrow> admin_guard srv rq (admin_endpoint env srv ep)
      | Agent \<Rightarrow> authenticateAgent env srv rq (\<lambda>auth. agent_endpoint env srv rq auth ep))"

end
