(* ===== verification/Hermes_Frames.thy ===== *)
theory Hermes_Frames
  imports Hermes_API
begin

text \<open>
  What an operation leaves alone. \<open>keeps f m\<close> says that a run of \<open>m\<close>, whatever fails in it,
  does not change the part \<open>f\<close> of the database. The rules follow the structure of the
  computations, so that the frame of an operation is proved by \<open>keeps\<close> alone.
\<close>

named_theorems keeps

definition keeps :: "(database \<Rightarrow> 'x) \<Rightarrow> (world \<Rightarrow> 'r \<times> world) \<Rightarrow> bool" where
  "keeps f m \<longleftrightarrow> (\<forall>w. f (w_db (snd (m w))) = f (w_db w))"

lemma keepsD: "keeps f m \<Longrightarrow> m w = (r, w') \<Longrightarrow> f (w_db w') = f (w_db w)"
  by (metis keeps_def snd_conv)

lemma keeps_ret [keeps]: "keeps f (ret x)" and keeps_raise [keeps]: "keeps f (raise e)"
  and keeps_pair [keeps]: "keeps f (Pair x)"
  by (simp_all add: keeps_def)

lemma keeps_now [keeps]: "keeps f (now env)"
  by (simp add: keeps_def now_def)

lemma keeps_reads [keeps]:
  "keeps f (select env get P)" "keeps f (first env get P)" "keeps f (count_rows env get P)"
  by (simp_all add: keeps_def select_def first_def count_rows_def stmt_def)

lemma keeps_updates [keeps]: "(\<And>d. f (upd (upd_rows P g) d) = f d) \<Longrightarrow> keeps f (updates env get upd P g)"
  by (simp add: keeps_def updates_def stmt_def)

lemma keeps_delete_rows [keeps]: "(\<And>d. f (upd (del_rows P) d) = f d) \<Longrightarrow> keeps f (delete_rows env upd P)"
  by (simp add: keeps_def delete_rows_def stmt_def)

lemma keeps_create [keeps]: "(\<And>r d. f (upd (ins_row r) d) = f d) \<Longrightarrow> keeps f (create env get upd clash mk)"
  by (simp add: keeps_def create_def stmt_def Let_def)

lemma keeps_bindE [keeps]: "keeps f m \<Longrightarrow> (\<And>x. keeps f (k x)) \<Longrightarrow> keeps f (bindE m k)"
  by (simp add: keeps_def bindE_def split: prod.split sum.split) (metis snd_conv)

lemma keeps_failIf [keeps]: "keeps f m \<Longrightarrow> keeps f (failIf b e m)"
  by (simp add: keeps_def failIf_def)

lemma keeps_orFail [keeps]: "keeps f (orFail e x)"
  by (cases x) (simp_all add: keeps_def)

lemma keeps_errTo [keeps]: "keeps f m \<Longrightarrow> keeps f (errTo e m)"
  by (simp add: keeps_def errTo_def split: prod.split sum.split) (metis snd_conv)

lemma keeps_catchE [keeps]: "keeps f m \<Longrightarrow> (\<And>e. keeps f (h e)) \<Longrightarrow> keeps f (catchE m h)"
  by (simp add: keeps_def catchE_def split: prod.split sum.split) (metis snd_conv)

lemma keeps_transaction [keeps]: "keeps f m \<Longrightarrow> keeps f (transaction env m)"
  by (simp add: keeps_def transaction_def split: prod.split sum.split) (metis snd_conv tick_simps(1))

lemma keeps_if [keeps]: "keeps f m \<Longrightarrow> keeps f n \<Longrightarrow> keeps f (if b then m else n)"
  by simp

lemma keeps_option [keeps]: "keeps f m \<Longrightarrow> (\<And>x. keeps f (k x)) \<Longrightarrow> keeps f (case y of None \<Rightarrow> m | Some x \<Rightarrow> k x)"
  by (cases y) simp_all

lemma keeps_prod [keeps]: "(\<And>x y. keeps f (k x y)) \<Longrightarrow> keeps f (case p of (x, y) \<Rightarrow> k x y)"
  by (cases p) simp

lemma keeps_sum [keeps]: "(\<And>x. keeps f (k x)) \<Longrightarrow> (\<And>y. keeps f (l y)) \<Longrightarrow> keeps f (case s of Inl x \<Rightarrow> k x | Inr y \<Rightarrow> l y)"
  by (cases s) simp_all

lemma keeps_list [keeps]: "keeps f m \<Longrightarrow> (\<And>x xs. keeps f (k x xs)) \<Longrightarrow> keeps f (case l of [] \<Rightarrow> m | x # xs \<Rightarrow> k x xs)"
  by (cases l) simp_all

lemma keeps_let [keeps]: "(\<And>x. keeps f (k x)) \<Longrightarrow> keeps f (let x = y in k x)"
  by simp

lemma keeps_generateKey [keeps]: "keeps f (generateKey env p)"
  by (simp add: keeps_def generateKey_def bindE_def read_random_def Let_def split: option.split)

lemma keeps_stmt_read [keeps]: "keeps f (stmt env (\<lambda>d. (x, d)))"
  by (simp add: keeps_def stmt_def)

lemma keeps_attempt [keeps]: "keeps f m \<Longrightarrow> keeps f (attempt m)"
  by (simp add: keeps_def attempt_def)

lemma keeps_Upsert [keeps]: "keeps f (Upsert env server hostname zone rt target ttl wild)"
  by (simp add: keeps_def Upsert_def nsupdate_run_def split: option.split)

lemma keeps_reconcile_loop [keeps]:
  "(\<And>x. keeps f (reconcile_one env t x)) \<Longrightarrow> keeps f (reconcile_loop env t rows n)"
proof (induction rows arbitrary: n)
  case (Cons x rows)
  then show ?case
    by (auto simp: keeps_def split: prod.split sum.split) (metis snd_conv)+
qed (simp add: keeps_def)

section \<open>Parts of the database\<close>

text \<open>
  The tables of each component. A sighting changes rows of the devices, and a DDNS
  authentication rows of the credentials, without changing their keys or what the rotations
  depend on; these are the parts \<open>dev_keys\<close> and \<open>cred_facts\<close>.
\<close>

definition dev_keys :: "database \<Rightarrow> (nat \<times> string) list \<times> nat" where
  "dev_keys d = (map (\<lambda>x. (dev_ID x, dev_Name x)) (tbl_rows (devices d)), tbl_seq (devices d))"

definition cred_facts :: "database \<Rightarrow> ddns_credential list \<times> nat" where
  "cred_facts d = (map (\<lambda>c. c\<lparr>cr_LastUsedAt := None, cr_LastUsedIP := []\<rparr>) (tbl_rows (creds d)), tbl_seq (creds d))"

definition enr_part :: "database \<Rightarrow> enrollment table \<times> identity_credential table" where
  "enr_part d = (enrollments d, identities d)"

definition net_part :: "database \<Rightarrow> net_snapshot table \<times> net_wan table \<times> net_segment table" where
  "net_part d = (netsnaps d, wans d, segments d)"

definition name_part :: "database \<Rightarrow> host table \<times> domain table" where
  "name_part d = (hosts d, domains d)"

lemmas part_defs = dev_keys_def cred_facts_def enr_part_def net_part_def name_part_def

section \<open>Frames of the services\<close>

lemmas credential_defs = RequestRotation_def CurrentRotation_def loadRotation_def StageCandidate_def StartValidation_def
  ConfirmCredentialUse_def revokeReplacement_def rollback_credentials_def Rollback_def reconcile_one_def

definition beyond_credentials where
  "beyond_credentials d = (dev_keys d, enr_part d, telemetries d, net_part d, name_part d)"

lemma credential_service_frame:
  "keeps beyond_credentials (RequestRotation env dv g)" "keeps beyond_credentials (CurrentRotation env dv)"
  "keeps beyond_credentials (StageCandidate env k dv key hash)" "keeps beyond_credentials (StartValidation env k dv)"
  "keeps beyond_credentials (ConfirmCredentialUse env i)" "keeps beyond_credentials (Rollback env k dv reason)"
  "keeps beyond_credentials (reconcile_one env t x)"
  unfolding credential_defs beyond_credentials_def part_defs
  by (auto intro!: keeps split: rot_status.split)+

definition beyond_enrollment where
  "beyond_enrollment d = (dev_keys d, cred_facts d, rotations d, telemetries d, net_part d, name_part d)"

definition beyond_telemetry where
  "beyond_telemetry d = (dev_keys d, cred_facts d, rotations d, enr_part d, net_part d, name_part d)"

definition beyond_network where
  "beyond_network d = (dev_keys d, cred_facts d, rotations d, enr_part d, telemetries d, name_part d)"

definition beyond_names where
  "beyond_names d = (dev_keys d, cred_facts d, rotations d, enr_part d, telemetries d, net_part d)"

definition beyond_devices where
  "beyond_devices d = (enr_part d, telemetries d, net_part d, name_part d)"

lemmas enrollment_defs = IssueCredential_def IssueCredentialTx_def AuthenticateAgent_def RevokeCredential_def
  RevokeCredentialTx_def CreateEnrollment_def exchange_tx_def Exchange_def ConfirmEnrollment_def ListEnrollments_def
  GetEnrollment_def revoke_issued_def revoke_tx_def RevokeEnrollment_def expirePending_def reconcileExpired_def ensureDevice_def
  GenerateAgentKey_def GenerateEnrollmentKey_def

lemma enrollment_service_frame:
  "keeps beyond_enrollment (IssueCredential env dv)" "keeps beyond_enrollment (AuthenticateAgent env key cip)"
  "keeps beyond_enrollment (RevokeCredential env dv i)" "keeps beyond_enrollment (CreateEnrollment env dv ttl)"
  "keeps beyond_enrollment (Exchange env token cip)" "keeps beyond_enrollment (ConfirmEnrollment env dv i cip ver)"
  "keeps beyond_enrollment (ListEnrollments env dv)" "keeps beyond_enrollment (GetEnrollment env dv i)"
  "keeps beyond_enrollment (RevokeEnrollment env dv i)"
  unfolding enrollment_defs beyond_enrollment_def part_defs
  by (auto intro!: keeps split: enr_status.split simp: Let_def comp_def if_distrib cong: if_cong)+

lemma create_device_frame: "keeps beyond_devices (create_device_rows env name dn ty)"
  unfolding create_device_rows_def beyond_devices_def part_defs GenerateDDNSKey_def
  by (auto intro!: keeps)

lemma heartbeat_frame: "keeps beyond_telemetry (ReportHeartbeat env dv cip inp)"
  unfolding ReportHeartbeat_def beyond_telemetry_def part_defs
  by (auto intro!: keeps simp: Let_def comp_def if_distrib cong: if_cong)

lemma keeps_create_each [keeps]:
  "(\<And>r d. f (upd (ins_row r) d) = f d) \<Longrightarrow> keeps f (create_each env get upd mk ins)"
  by (induction ins) (auto intro!: keeps)

lemma report_frame: "keeps beyond_network (ReportContext env dv cip inp)"
  unfolding ReportContext_def report_tx_def store_snapshot_def create_wans_def create_segments_def beyond_network_def part_defs
  by (auto intro!: keeps simp: Let_def)

lemma keeps_run [keeps]:
  assumes "keeps f m" "\<And>x. keeps f (k x)" "\<And>y. keeps f (l y)"
  shows "keeps f (\<lambda>w. case m w of (r, w') \<Rightarrow> case r of Inl x \<Rightarrow> k x w' | Inr y \<Rightarrow> l y w')"
  using assms unfolding keeps_def by (simp split: prod.split sum.split) (metis snd_conv)

definition beyond_sighting where
  "beyond_sighting d = (dev_keys d, cred_facts d, rotations d, enr_part d, telemetries d, net_part d, name_part d)"

lemma authenticate_loop_frame [keeps]: "keeps beyond_sighting (authenticate_loop env t key cip x cs)"
  unfolding beyond_sighting_def part_defs
  by (induction cs) (auto intro!: keeps simp: comp_def if_distrib cong: if_cong)

lemma AuthenticateDDNS_frame: "keeps beyond_sighting (AuthenticateDDNS env user key cip)"
  unfolding AuthenticateDDNS_def by (auto intro!: keeps)

lemma UpdateDDNS_frame: "keeps beyond_names (UpdateDDNS env sv auth fqdn rip cip ua)"
  unfolding UpdateDDNS_def update_host_def find_host_def publish_def no_change_def store_host_def see_device_def writeLog_def
    ensure_domain_def beyond_names_def part_defs
  by (auto intro!: keeps simp: Let_def comp_def if_distrib cong: if_cong)

end
