(* ===== verification/Hermes_Lifecycle.thy ===== *)
theory Hermes_Lifecycle
  imports Hermes_Model
begin

text \<open>
  The contract of the rotation lifecycle, as \<open>docs/credential-rotation-26.08-02.md\<close>
  describes it: an abstract state that keeps, of every credential, its device, status and
  grace deadline, and of every rotation its device, its two credentials, status and
  deadline, with one rule per transition of the state diagram. The invariant
  \<open>lc_inv\<close> is what the lifecycle promises; it holds in every reachable state. The
  operations of \<open>Hermes_Credential\<close> are shown to implement these rules in
  \<open>Hermes_Rotation\<close>.
\<close>

section \<open>A generic interface for invariants\<close>

text \<open>
  A transition system with a property that its initial states have and every step
  keeps: the property holds in every reachable state, and along every run.
\<close>

locale invariant_system =
  fixes start :: "'s \<Rightarrow> bool"
    and step :: "'s \<Rightarrow> 's \<Rightarrow> bool"
    and inv :: "'s \<Rightarrow> bool"
  assumes inv_start: "start s \<Longrightarrow> inv s"
    and inv_step: "step s t \<Longrightarrow> inv s \<Longrightarrow> inv t"
begin

lemma inv_steps: "step\<^sup>*\<^sup>* s t \<Longrightarrow> inv s \<Longrightarrow> inv t"
  by (induction rule: rtranclp_induct) (auto intro: inv_step)

lemma inv_reachable: "start s \<Longrightarrow> step\<^sup>*\<^sup>* s t \<Longrightarrow> inv t"
  by (rule inv_steps) (auto intro: inv_start)

end

section \<open>Abstract states and transitions\<close>

record lcred =
  lc_dev :: nat
  lc_st :: cred_status
  lc_until :: "time option"

record lrot =
  lr_dev :: nat
  lr_prev :: nat
  lr_new :: "nat option"
  lr_st :: rot_status
  lr_until :: "time option"

record lifecycle =
  l_devs :: "nat set"
  l_creds :: "nat \<rightharpoonup> lcred"
  l_rots :: "nat \<rightharpoonup> lrot"

definition lc_init :: lifecycle where
  "lc_init = \<lparr>l_devs = {}, l_creds = Map.empty, l_rots = Map.empty\<rparr>"

definition is_open :: "rot_status \<Rightarrow> bool" where
  "is_open st \<longleftrightarrow> st \<in> {RRequested, RStaged, RValidating, RGrace}"

definition has_cred :: "(nat \<rightharpoonup> lcred) \<Rightarrow> nat \<Rightarrow> nat \<Rightarrow> cred_status \<Rightarrow> bool" where
  "has_cred cs i d st \<longleftrightarrow> (\<exists>c. cs i = Some c \<and> lc_dev c = d \<and> lc_st c = st)"

definition upd_cred :: "(nat \<rightharpoonup> lcred) \<Rightarrow> nat \<Rightarrow> (lcred \<Rightarrow> lcred) \<Rightarrow> nat \<rightharpoonup> lcred" where
  "upd_cred cs i f = (case cs i of None \<Rightarrow> cs | Some c \<Rightarrow> cs(i \<mapsto> f c))"

text \<open>The changes of a credential that the transitions make.\<close>

definition to_status :: "cred_status \<Rightarrow> lcred \<Rightarrow> lcred" where
  "to_status st c = c\<lparr>lc_st := st\<rparr>"

definition to_grace :: "time \<Rightarrow> lcred \<Rightarrow> lcred" where
  "to_grace g c = c\<lparr>lc_st := CGrace, lc_until := Some g\<rparr>"

definition back_to_active :: "lcred \<Rightarrow> lcred" where
  "back_to_active c = c\<lparr>lc_st := CActive, lc_until := None\<rparr>"

inductive lc_step :: "lifecycle \<Rightarrow> lifecycle \<Rightarrow> bool" where
  new_device:
    "d \<notin> l_devs s \<Longrightarrow> l_creds s c = None \<Longrightarrow>
     lc_step s (s\<lparr>l_devs := insert d (l_devs s),
                  l_creds := (l_creds s)(c \<mapsto> \<lparr>lc_dev = d, lc_st = CActive, lc_until = None\<rparr>)\<rparr>)"
| request:
    "d \<in> l_devs s \<Longrightarrow> (\<And>j r. l_rots s j = Some r \<Longrightarrow> lr_dev r = d \<Longrightarrow> \<not> is_open (lr_st r)) \<Longrightarrow>
     has_cred (l_creds s) p d CActive \<Longrightarrow> l_rots s k = None \<Longrightarrow>
     lc_step s (s\<lparr>l_rots := (l_rots s)(k \<mapsto>
       \<lparr>lr_dev = d, lr_prev = p, lr_new = None, lr_st = RRequested, lr_until = None\<rparr>)\<rparr>)"
| stage:
    "l_rots s k = Some r \<Longrightarrow> lr_st r = RRequested \<Longrightarrow> l_creds s n = None \<Longrightarrow>
     has_cred (l_creds s) (lr_prev r) (lr_dev r) CActive \<Longrightarrow>
     lc_step s (s\<lparr>l_creds := (l_creds s)(n \<mapsto> \<lparr>lc_dev = lr_dev r, lc_st = CPending, lc_until = None\<rparr>),
                  l_rots := (l_rots s)(k \<mapsto> r\<lparr>lr_new := Some n, lr_st := RStaged\<rparr>)\<rparr>)"
| validate:
    "l_rots s k = Some r \<Longrightarrow> lr_st r = RStaged \<Longrightarrow> lr_new r = Some n \<Longrightarrow>
     has_cred (l_creds s) n (lr_dev r) CPending \<Longrightarrow>
     lc_step s (s\<lparr>l_creds := upd_cred (l_creds s) n (to_status CActive),
                  l_rots := (l_rots s)(k \<mapsto> r\<lparr>lr_st := RValidating\<rparr>)\<rparr>)"
| confirm:
    "l_rots s k = Some r \<Longrightarrow> lr_st r = RValidating \<Longrightarrow> lr_new r = Some n \<Longrightarrow>
     has_cred (l_creds s) n (lr_dev r) CActive \<Longrightarrow>
     has_cred (l_creds s) (lr_prev r) (lr_dev r) CActive \<Longrightarrow>
     lc_step s (s\<lparr>l_creds := upd_cred (l_creds s) (lr_prev r) (to_grace g),
                  l_rots := (l_rots s)(k \<mapsto> r\<lparr>lr_st := RGrace, lr_until := Some g\<rparr>)\<rparr>)"
| complete:
    "l_rots s k = Some r \<Longrightarrow> lr_st r = RGrace \<Longrightarrow>
     has_cred (l_creds s) (lr_prev r) (lr_dev r) CGrace \<Longrightarrow>
     lc_step s (s\<lparr>l_creds := upd_cred (l_creds s) (lr_prev r) (to_status CRevoked),
                  l_rots := (l_rots s)(k \<mapsto> r\<lparr>lr_st := RCompleted\<rparr>)\<rparr>)"
| rollback_requested:
    "l_rots s k = Some r \<Longrightarrow> lr_st r = RRequested \<Longrightarrow>
     lc_step s (s\<lparr>l_rots := (l_rots s)(k \<mapsto> r\<lparr>lr_st := RRolledBack\<rparr>)\<rparr>)"
| rollback_staged:
    "l_rots s k = Some r \<Longrightarrow> lr_st r = RStaged \<Longrightarrow> lr_new r = Some n \<Longrightarrow>
     has_cred (l_creds s) n (lr_dev r) CPending \<Longrightarrow>
     lc_step s (s\<lparr>l_creds := upd_cred (l_creds s) n (to_status CRevoked),
                  l_rots := (l_rots s)(k \<mapsto> r\<lparr>lr_st := RRolledBack\<rparr>)\<rparr>)"
| rollback_validating:
    "l_rots s k = Some r \<Longrightarrow> lr_st r = RValidating \<Longrightarrow> lr_new r = Some n \<Longrightarrow>
     has_cred (l_creds s) n (lr_dev r) CActive \<Longrightarrow>
     lc_step s (s\<lparr>l_creds := upd_cred (l_creds s) n (to_status CRevoked),
                  l_rots := (l_rots s)(k \<mapsto> r\<lparr>lr_st := RRolledBack\<rparr>)\<rparr>)"
| rollback_grace:
    "l_rots s k = Some r \<Longrightarrow> lr_st r = RGrace \<Longrightarrow> lr_new r = Some n \<Longrightarrow>
     has_cred (l_creds s) (lr_prev r) (lr_dev r) CGrace \<Longrightarrow>
     has_cred (l_creds s) n (lr_dev r) CActive \<Longrightarrow>
     lc_step s (s\<lparr>l_creds := upd_cred (upd_cred (l_creds s) (lr_prev r) back_to_active) n (to_status CRevoked),
                  l_rots := (l_rots s)(k \<mapsto> r\<lparr>lr_st := RRolledBack\<rparr>)\<rparr>)"

section \<open>The invariant\<close>

text \<open>
  The credentials of a device that can still matter (pending, active or in grace), with
  their status, and its open rotations. The invariant says, per device, exactly what the
  first set is for each state of the second.
\<close>

definition alive :: "cred_status \<Rightarrow> bool" where
  "alive st \<longleftrightarrow> st \<in> {CPending, CActive, CGrace}"

definition live :: "(nat \<rightharpoonup> lcred) \<Rightarrow> nat \<Rightarrow> (nat \<times> cred_status) set" where
  "live cs d = {(i, st). \<exists>c. cs i = Some c \<and> lc_dev c = d \<and> lc_st c = st \<and> alive st}"

definition open_rots :: "(nat \<rightharpoonup> lrot) \<Rightarrow> nat \<Rightarrow> (nat \<times> lrot) set" where
  "open_rots rs d = {(k, r). rs k = Some r \<and> lr_dev r = d \<and> is_open (lr_st r)}"

definition expected :: "lrot \<Rightarrow> (nat \<times> cred_status) set option" where
  "expected r =
     (case (lr_st r, lr_new r) of
        (RRequested, None) \<Rightarrow> Some {(lr_prev r, CActive)}
      | (RStaged, Some n) \<Rightarrow> if n = lr_prev r then None else Some {(lr_prev r, CActive), (n, CPending)}
      | (RValidating, Some n) \<Rightarrow> if n = lr_prev r then None else Some {(lr_prev r, CActive), (n, CActive)}
      | (RGrace, Some n) \<Rightarrow> if n = lr_prev r then None else Some {(lr_prev r, CGrace), (n, CActive)}
      | _ \<Rightarrow> None)"

definition deadline_ok :: "(nat \<rightharpoonup> lcred) \<Rightarrow> lrot \<Rightarrow> bool" where
  "deadline_ok cs r \<longleftrightarrow>
     (lr_st r = RGrace \<longrightarrow> lr_until r \<noteq> None \<and> map_option lc_until (cs (lr_prev r)) = Some (lr_until r))"

definition dev_ok :: "lifecycle \<Rightarrow> nat \<Rightarrow> bool" where
  "dev_ok s d \<longleftrightarrow>
     (open_rots (l_rots s) d = {} \<and> (\<exists>i. live (l_creds s) d = {(i, CActive)})) \<or>
     (\<exists>k r. open_rots (l_rots s) d = {(k, r)} \<and> expected r = Some (live (l_creds s) d) \<and>
            deadline_ok (l_creds s) r)"

definition completed_ok :: "lifecycle \<Rightarrow> bool" where
  "completed_ok s \<longleftrightarrow> (\<forall>k r. l_rots s k = Some r \<longrightarrow> lr_st r = RCompleted \<longrightarrow>
     has_cred (l_creds s) (lr_prev r) (lr_dev r) CRevoked)"

definition lc_inv :: "lifecycle \<Rightarrow> bool" where
  "lc_inv s \<longleftrightarrow> (\<forall>d. if d \<in> l_devs s then dev_ok s d
                      else live (l_creds s) d = {} \<and> open_rots (l_rots s) d = {}) \<and> completed_ok s"

section \<open>What a transition changes\<close>

lemma upd_cred_same: "cs i = Some c \<Longrightarrow> upd_cred cs i f = cs(i \<mapsto> f c)"
  by (simp add: upd_cred_def)

lemma cred_change_simps [simp]:
  "lc_dev (to_status st c) = lc_dev c" "lc_st (to_status st c) = st"
  "lc_until (to_status st c) = lc_until c"
  "lc_dev (to_grace g c) = lc_dev c" "lc_st (to_grace g c) = CGrace" "lc_until (to_grace g c) = Some g"
  "lc_dev (back_to_active c) = lc_dev c" "lc_st (back_to_active c) = CActive"
  "lc_until (back_to_active c) = None"
  by (simp_all add: to_status_def to_grace_def back_to_active_def)

lemma live_iff: "(i, st) \<in> live cs d \<longleftrightarrow> has_cred cs i d st \<and> alive st"
  by (auto simp: live_def has_cred_def)

lemma alive_simps [simp]:
  "alive CPending" "alive CActive" "alive CGrace" "\<not> alive CRevoked" "\<not> alive CExpired"
  by (simp_all add: alive_def)

lemma is_open_simps [simp]:
  "is_open RRequested" "is_open RStaged" "is_open RValidating" "is_open RGrace"
  "\<not> is_open RCompleted" "\<not> is_open RRolledBack"
  by (simp_all add: is_open_def)

lemma live_insert:
  "cs i = None \<Longrightarrow> alive (lc_st c) \<Longrightarrow>
   live (cs(i \<mapsto> c)) d = (if d = lc_dev c then insert (i, lc_st c) (live cs d) else live cs d)"
  by (auto simp: live_def split: if_splits)

lemma live_update:
  "cs i = Some c \<Longrightarrow> lc_dev c' = lc_dev c \<Longrightarrow>
   live (cs(i \<mapsto> c')) d =
     (if d = lc_dev c then (live cs d - {(i, lc_st c)}) \<union> (if alive (lc_st c') then {(i, lc_st c')} else {})
      else live cs d)"
  by (auto simp: live_def split: if_splits)

lemma open_insert:
  "rs k = None \<Longrightarrow> is_open (lr_st r) \<Longrightarrow>
   open_rots (rs(k \<mapsto> r)) d = (if d = lr_dev r then insert (k, r) (open_rots rs d) else open_rots rs d)"
  by (auto simp: open_rots_def split: if_splits)

lemma open_update:
  "rs k = Some r \<Longrightarrow> lr_dev r' = lr_dev r \<Longrightarrow>
   open_rots (rs(k \<mapsto> r')) d =
     (if d = lr_dev r then (open_rots rs d - {(k, r)}) \<union> (if is_open (lr_st r') then {(k, r')} else {})
      else open_rots rs d)"
  by (auto simp: open_rots_def split: if_splits)

lemma has_cred_live: "has_cred cs i d st \<Longrightarrow> alive st \<Longrightarrow> (i, st) \<in> live cs d"
  by (simp add: live_iff)

lemma lc_inv_dev: "lc_inv s \<Longrightarrow> d \<in> l_devs s \<Longrightarrow> dev_ok s d"
  by (auto simp: lc_inv_def)

lemma lc_inv_open:
  assumes "lc_inv s" "l_rots s k = Some r" "is_open (lr_st r)"
  shows "lr_dev r \<in> l_devs s" "open_rots (l_rots s) (lr_dev r) = {(k, r)}"
    "expected r = Some (live (l_creds s) (lr_dev r))" "deadline_ok (l_creds s) r"
proof -
  have mem: "(k, r) \<in> open_rots (l_rots s) (lr_dev r)"
    using assms by (simp add: open_rots_def)
  then show d: "lr_dev r \<in> l_devs s"
    using assms(1) by (auto simp: lc_inv_def split: if_splits)
  from lc_inv_dev [OF assms(1) d] mem
  show "open_rots (l_rots s) (lr_dev r) = {(k, r)}"
    "expected r = Some (live (l_creds s) (lr_dev r))" "deadline_ok (l_creds s) r"
    by (auto simp: dev_ok_def)
qed

text \<open>
  A transition on one device: the other devices keep their credentials and rotations, so
  the invariant is kept when the device itself is left in one of its allowed states.
\<close>

lemma lc_inv_frame:
  assumes inv: "lc_inv s" and d: "d \<in> l_devs t" "l_devs t = insert d (l_devs s)"
    and live: "\<And>d'. d' \<noteq> d \<Longrightarrow> live (l_creds t) d' = live (l_creds s) d'"
    and op: "\<And>d'. d' \<noteq> d \<Longrightarrow> open_rots (l_rots t) d' = open_rots (l_rots s) d'"
    and keep: "\<And>i c. l_creds s i = Some c \<Longrightarrow> lc_dev c \<noteq> d \<Longrightarrow> l_creds t i = Some c"
    and dev: "dev_ok t d" and comp: "completed_ok t"
  shows "lc_inv t"
proof -
  have "dev_ok t d'" if "d' \<in> l_devs s" "d' \<noteq> d" for d'
  proof -
    have "deadline_ok (l_creds t) r" if "expected r = Some (live (l_creds s) d')" "deadline_ok (l_creds s) r" for r
    proof (cases "lr_st r = RGrace")
      case True
      with that(1) have "(lr_prev r, CGrace) \<in> live (l_creds s) d'"
        by (auto simp: expected_def split: option.splits if_splits)
      then obtain c where "l_creds s (lr_prev r) = Some c" "lc_dev c = d'"
        by (auto simp: live_def)
      then show ?thesis
        using keep [of "lr_prev r" c] that(2) \<open>d' \<noteq> d\<close> by (simp add: deadline_ok_def)
    qed (simp add: deadline_ok_def)
    with lc_inv_dev [OF inv that(1)] live [OF that(2)] op [OF that(2)] show ?thesis
      unfolding dev_ok_def by metis
  qed
  then have "if d' \<in> l_devs t then dev_ok t d' else live (l_creds t) d' = {} \<and> open_rots (l_rots t) d' = {}" for d'
    using dev d inv live [of d'] op [of d'] by (cases "d' = d") (auto simp: lc_inv_def)
  with comp show ?thesis by (simp add: lc_inv_def)
qed

section \<open>Preservation\<close>

lemma completed_upd:
  assumes "completed_ok s" "\<And>i d. has_cred (l_creds s) i d CRevoked \<Longrightarrow> has_cred cs i d CRevoked"
    and "lr_st r = RCompleted \<Longrightarrow> has_cred cs (lr_prev r) (lr_dev r) CRevoked"
  shows "completed_ok (s\<lparr>l_creds := cs, l_rots := (l_rots s)(k \<mapsto> r)\<rparr>)"
  using assms by (auto simp: completed_ok_def)

text \<open>An open rotation moves to a new state, with a change of its device's credentials.\<close>

lemma lc_inv_move:
  assumes inv: "lc_inv s" and k: "l_rots s k = Some r" "is_open (lr_st r)" and r': "lr_dev r' = lr_dev r"
    and keep: "\<And>i c. l_creds s i = Some c \<Longrightarrow> lc_dev c \<noteq> lr_dev r \<Longrightarrow> cs i = Some c"
    and live: "\<And>d. d \<noteq> lr_dev r \<Longrightarrow> live cs d = live (l_creds s) d"
    and dev: "if is_open (lr_st r') then expected r' = Some (live cs (lr_dev r)) \<and> deadline_ok cs r'
              else \<exists>i. live cs (lr_dev r) = {(i, CActive)}"
    and rev: "\<And>i d. has_cred (l_creds s) i d CRevoked \<Longrightarrow> has_cred cs i d CRevoked"
    and comp: "lr_st r' = RCompleted \<Longrightarrow> has_cred cs (lr_prev r') (lr_dev r) CRevoked"
  shows "lc_inv (s\<lparr>l_creds := cs, l_rots := (l_rots s)(k \<mapsto> r')\<rparr>)" (is "lc_inv ?t")
proof (rule lc_inv_frame [OF inv, of "lr_dev r"])
  note o = lc_inv_open [OF inv k]
  show "lr_dev r \<in> l_devs ?t" "l_devs ?t = insert (lr_dev r) (l_devs s)" using o(1) by auto
  show "dev_ok ?t (lr_dev r)"
    using dev o(2) by (auto simp: dev_ok_def open_update [where rs = "l_rots s", OF k(1) r'] split: if_splits)
  show "completed_ok ?t"
    using inv rev comp r' by (intro completed_upd) (auto simp: lc_inv_def)
qed (use keep live open_update [where rs = "l_rots s", OF k(1) r'] in auto)

lemma has_credE:
  assumes "has_cred cs i d st"
  obtains c where "cs i = Some c" "lc_dev c = d" "lc_st c = st"
  using assms by (auto simp: has_cred_def)

text \<open>The live credentials of a device whose rotation is open, by the status of the rotation.\<close>

lemma open_live:
  assumes "lc_inv s" "l_rots s k = Some r"
  shows "lr_st r = RRequested \<Longrightarrow> live (l_creds s) (lr_dev r) = {(lr_prev r, CActive)}"
    "lr_st r = RStaged \<Longrightarrow> lr_new r = Some n \<Longrightarrow>
      live (l_creds s) (lr_dev r) = {(lr_prev r, CActive), (n, CPending)} \<and> n \<noteq> lr_prev r"
    "lr_st r = RValidating \<Longrightarrow> lr_new r = Some n \<Longrightarrow>
      live (l_creds s) (lr_dev r) = {(lr_prev r, CActive), (n, CActive)} \<and> n \<noteq> lr_prev r"
    "lr_st r = RGrace \<Longrightarrow> lr_new r = Some n \<Longrightarrow>
      live (l_creds s) (lr_dev r) = {(lr_prev r, CGrace), (n, CActive)} \<and> n \<noteq> lr_prev r"
    "lr_st r = RGrace \<Longrightarrow> \<exists>n. lr_new r = Some n"
  using lc_inv_open(3) [OF assms] by (auto simp: expected_def split: option.splits if_splits)

text \<open>The rotation moves and one credential of its device changes its status.\<close>

lemma move_one:
  assumes inv: "lc_inv s" and k: "l_rots s k = Some r" "is_open (lr_st r)" and r': "lr_dev r' = lr_dev r"
    and c: "has_cred (l_creds s) i (lr_dev r) st" "alive st"
    and f: "\<And>c. lc_dev (f c) = lc_dev c" "\<And>c. lc_st (f c) = st'"
    and dev: "let L = (live (l_creds s) (lr_dev r) - {(i, st)}) \<union> (if alive st' then {(i, st')} else {}) in
       if is_open (lr_st r') then expected r' = Some L \<and> deadline_ok (upd_cred (l_creds s) i f) r'
       else \<exists>i. L = {(i, CActive)}"
    and comp: "lr_st r' = RCompleted \<Longrightarrow> lr_prev r' = i \<and> st' = CRevoked"
  shows "lc_inv (s\<lparr>l_creds := upd_cred (l_creds s) i f, l_rots := (l_rots s)(k \<mapsto> r')\<rparr>)"
proof -
  obtain c where i: "l_creds s i = Some c" "lc_dev c = lr_dev r" "lc_st c = st" using c(1) by (rule has_credE)
  note u = upd_cred_same [where f = f and cs = "l_creds s", OF i(1)]
    live_update [where c' = "f c" and cs = "l_creds s", OF i(1) f(1)]
  have L: "live (upd_cred (l_creds s) i f) (lr_dev r) = (live (l_creds s) (lr_dev r) - {(i, st)}) \<union> (if alive st' then {(i, st')} else {})"
    by (simp only: u f i refl if_True)
  show ?thesis
  proof (rule lc_inv_move [OF inv k r'])
    show "if is_open (lr_st r') then expected r' = Some (live (upd_cred (l_creds s) i f) (lr_dev r)) \<and>
        deadline_ok (upd_cred (l_creds s) i f) r' else \<exists>j. live (upd_cred (l_creds s) i f) (lr_dev r) = {(j, CActive)}"
      using dev unfolding L Let_def .
  qed (use i c(2) f comp in \<open>auto simp: u has_cred_def\<close>)
qed

lemma has_cred_deadline:
  "has_cred cs i d st \<Longrightarrow> lr_prev r = i \<Longrightarrow> lr_until r = Some g \<Longrightarrow> deadline_ok (upd_cred cs i (to_grace g)) r"
  by (auto simp: has_cred_def deadline_ok_def upd_cred_def)

lemma deadline_other: "lr_st r \<noteq> RGrace \<Longrightarrow> deadline_ok cs r"
  by (simp add: deadline_ok_def)

text \<open>The two transitions that change more than one credential or add one.\<close>

lemma stage_inv:
  assumes inv: "lc_inv s" and k: "l_rots s k = Some r" "lr_st r = RRequested" and n: "l_creds s n = None"
    and p: "has_cred (l_creds s) (lr_prev r) (lr_dev r) CActive"
  shows "lc_inv (s\<lparr>l_creds := (l_creds s)(n \<mapsto> \<lparr>lc_dev = lr_dev r, lc_st = CPending, lc_until = None\<rparr>),
    l_rots := (l_rots s)(k \<mapsto> r\<lparr>lr_new := Some n, lr_st := RStaged\<rparr>)\<rparr>)"
proof -
  let ?cs = "(l_creds s)(n \<mapsto> \<lparr>lc_dev = lr_dev r, lc_st = CPending, lc_until = None\<rparr>)"
  have np: "n \<noteq> lr_prev r" using n p by (auto simp: has_cred_def)
  have L: "live ?cs d = (if d = lr_dev r then {(n, CPending), (lr_prev r, CActive)} else live (l_creds s) d)" for d
    using open_live(1) [OF inv k] by (simp add: live_insert n)
  have o: "is_open (lr_st r)" using k(2) by simp
  have "expected (r\<lparr>lr_new := Some n, lr_st := RStaged\<rparr>) = Some (live ?cs (lr_dev r)) \<and>
      deadline_ok ?cs (r\<lparr>lr_new := Some n, lr_st := RStaged\<rparr>)"
    using np by (auto simp: L expected_def deadline_ok_def)
  then show ?thesis
    by (intro lc_inv_move [OF inv k(1) o]) (use L k n in \<open>auto simp: has_cred_def\<close>)
qed

lemma rollback_grace_inv:
  assumes inv: "lc_inv s" and k: "l_rots s k = Some r" "lr_st r = RGrace" "lr_new r = Some n"
    and prev: "has_cred (l_creds s) (lr_prev r) (lr_dev r) CGrace" and new: "has_cred (l_creds s) n (lr_dev r) CActive"
  shows "lc_inv (s\<lparr>l_creds := upd_cred (upd_cred (l_creds s) (lr_prev r) back_to_active) n (to_status CRevoked),
    l_rots := (l_rots s)(k \<mapsto> r\<lparr>lr_st := RRolledBack\<rparr>)\<rparr>)"
proof -
  from open_live(4) [OF inv k] have l: "live (l_creds s) (lr_dev r) = {(lr_prev r, CGrace), (n, CActive)}" and np: "n \<noteq> lr_prev r"
    by blast+
  obtain p where p: "l_creds s (lr_prev r) = Some p" "lc_dev p = lr_dev r" "lc_st p = CGrace" using prev by (rule has_credE)
  obtain c where c: "l_creds s n = Some c" "lc_dev c = lr_dev r" "lc_st c = CActive" using new by (rule has_credE)
  let ?cs = "(l_creds s)(lr_prev r \<mapsto> back_to_active p, n \<mapsto> to_status CRevoked c)"
  have cs: "upd_cred (upd_cred (l_creds s) (lr_prev r) back_to_active) n (to_status CRevoked) = ?cs"
    using p(1) c(1) np by (simp add: upd_cred_def)
  have L: "live ?cs d = (if d = lr_dev r then {(lr_prev r, CActive)} else live (l_creds s) d)" for d
    using p c np by (simp add: live_update l) auto
  have o: "is_open (lr_st r)" using k(2) by simp
  show ?thesis unfolding cs
    by (rule lc_inv_move [OF inv k(1) o]) (use L p c np k in \<open>auto simp: has_cred_def\<close>)
qed

lemma lc_step_inv: "lc_step s t \<Longrightarrow> lc_inv s \<Longrightarrow> lc_inv t"
proof (induction rule: lc_step.induct)
  case (new_device d s c)
  have "completed_ok (s\<lparr>l_devs := insert d (l_devs s),
      l_creds := (l_creds s)(c \<mapsto> \<lparr>lc_dev = d, lc_st = CActive, lc_until = None\<rparr>)\<rparr>)"
    using new_device by (force simp: lc_inv_def completed_ok_def has_cred_def)
  then show ?case
    by (intro lc_inv_frame [OF new_device.prems, of d])
      (use new_device in \<open>auto simp: live_insert dev_ok_def lc_inv_def\<close>)
next
  case (request d s p k)
  then have o: "open_rots (l_rots s) d = {}" by (auto simp: open_rots_def)
  with lc_inv_dev [OF request.prems request.hyps(1)] has_cred_live [OF request.hyps(3)]
  have "live (l_creds s) d = {(p, CActive)}" by (auto simp: dev_ok_def)
  with request o show ?case
    by (intro lc_inv_frame [OF request.prems, of d])
      (auto simp: open_insert dev_ok_def expected_def deadline_ok_def lc_inv_def completed_ok_def)
next
  case (stage s k r n)
  then show ?case by (intro stage_inv)
next
  case (validate s k r n)
  from validate show ?case
    by (intro move_one [where st = CPending and st' = CActive])
      (auto simp: open_live expected_def deadline_other)
next
  case (confirm s k r n g)
  from confirm show ?case
    by (intro move_one [where st = CActive and st' = CGrace])
      (auto simp: open_live expected_def has_cred_deadline dest: open_live(3))
next
  case (complete s k r)
  obtain n where "lr_new r = Some n" using open_live(5) complete by blast
  with complete show ?case
    by (intro move_one [where st = CGrace and st' = CRevoked]) (auto simp: open_live)
next
  case (rollback_requested s k r)
  have "lc_inv (s\<lparr>l_creds := l_creds s, l_rots := (l_rots s)(k \<mapsto> r\<lparr>lr_st := RRolledBack\<rparr>)\<rparr>)"
    by (rule lc_inv_move [OF rollback_requested.prems rollback_requested.hyps(1)])
      (use open_live(1) rollback_requested in auto)
  then show ?case by simp
next
  case (rollback_staged s k r n)
  from rollback_staged show ?case
    by (intro move_one [where st = CPending and st' = CRevoked]) (auto simp: open_live)
next
  case (rollback_validating s k r n)
  from rollback_validating open_live(3) [OF rollback_validating.prems rollback_validating.hyps(1-3)] show ?case
    by (intro move_one [where st = CActive and st' = CRevoked]) auto
next
  case (rollback_grace s k r n)
  then show ?case by (intro rollback_grace_inv)
qed

lemma lc_inv_init: "lc_inv lc_init"
  by (simp add: lc_inv_def lc_init_def live_def open_rots_def completed_ok_def)

interpretation lc: invariant_system "\<lambda>s. s = lc_init" lc_step lc_inv
  by unfold_locales (auto intro: lc_inv_init lc_step_inv)

section \<open>What the invariant gives\<close>

lemma expectedD:
  "expected r = Some L \<Longrightarrow>
     lr_st r = RRequested \<and> lr_new r = None \<and> L = {(lr_prev r, CActive)} \<or>
     (\<exists>n. lr_new r = Some n \<and> n \<noteq> lr_prev r \<and>
        (lr_st r = RStaged \<and> L = {(lr_prev r, CActive), (n, CPending)} \<or>
         lr_st r = RValidating \<and> L = {(lr_prev r, CActive), (n, CActive)} \<or>
         lr_st r = RGrace \<and> L = {(lr_prev r, CGrace), (n, CActive)}))"
  by (auto simp: expected_def split: rot_status.splits option.splits if_splits)

lemma expected_members:
  "expected r = Some L \<Longrightarrow>
     lr_st r = RRequested \<and> lr_new r = None \<and> (lr_prev r, CActive) \<in> L \<or>
     (\<exists>n. lr_new r = Some n \<and> n \<noteq> lr_prev r \<and>
        (lr_st r = RStaged \<and> (lr_prev r, CActive) \<in> L \<and> (n, CPending) \<in> L \<or>
         lr_st r = RValidating \<and> (lr_prev r, CActive) \<in> L \<and> (n, CActive) \<in> L \<or>
         lr_st r = RGrace \<and> (lr_prev r, CGrace) \<in> L \<and> (n, CActive) \<in> L))"
  by (auto dest!: expectedD)

lemma expected_two_active:
  "expected r = Some L \<Longrightarrow> (i, CActive) \<in> L \<Longrightarrow> (j, CActive) \<in> L \<Longrightarrow> i \<noteq> j \<Longrightarrow> lr_st r = RValidating"
  by (auto dest!: expectedD)

lemma lc_available:
  assumes "lc_inv s" "d \<in> l_devs s"
  shows "\<exists>i. has_cred (l_creds s) i d CActive"
proof -
  have "\<exists>i. (i, CActive) \<in> live (l_creds s) d"
    using lc_inv_dev [OF assms] by (auto simp: dev_ok_def dest!: expectedD)
  then show ?thesis by (auto simp: live_iff)
qed

lemma lc_one_open:
  "lc_inv s \<Longrightarrow> l_rots s j = Some r \<Longrightarrow> l_rots s k = Some r' \<Longrightarrow> lr_dev r = lr_dev r' \<Longrightarrow>
   is_open (lr_st r) \<Longrightarrow> is_open (lr_st r') \<Longrightarrow> j = k"
  using lc_inv_open(2) [of s j r] by (auto simp: open_rots_def)

lemma lc_two_active:
  assumes "lc_inv s" "has_cred (l_creds s) i d CActive" "has_cred (l_creds s) j d CActive" "i \<noteq> j"
    and d: "d \<in> l_devs s"
  shows "\<exists>k r. l_rots s k = Some r \<and> lr_st r = RValidating \<and> lr_dev r = d"
proof -
  have m: "(i, CActive) \<in> live (l_creds s) d" "(j, CActive) \<in> live (l_creds s) d"
    using assms by (auto intro: has_cred_live)
  obtain k r where o: "open_rots (l_rots s) d = {(k, r)}" and e: "expected r = Some (live (l_creds s) d)"
    using lc_inv_dev [OF assms(1) d] m assms(4) by (auto simp: dev_ok_def)
  have "(k, r) \<in> open_rots (l_rots s) d" using o by simp
  then have "l_rots s k = Some r" "lr_dev r = d" by (auto simp: open_rots_def)
  moreover have "lr_st r = RValidating"
    by (rule expected_two_active [OF e m assms(4)])
  ultimately show ?thesis by blast
qed

lemma lc_open_status:
  assumes "lc_inv s" "l_rots s k = Some r" "is_open (lr_st r)"
  shows "lr_st r = RRequested \<and> lr_new r = None \<and> has_cred (l_creds s) (lr_prev r) (lr_dev r) CActive \<or>
    (\<exists>n. lr_new r = Some n \<and> n \<noteq> lr_prev r \<and>
      (lr_st r = RStaged \<and> has_cred (l_creds s) (lr_prev r) (lr_dev r) CActive \<and>
         has_cred (l_creds s) n (lr_dev r) CPending \<or>
       lr_st r = RValidating \<and> has_cred (l_creds s) (lr_prev r) (lr_dev r) CActive \<and>
         has_cred (l_creds s) n (lr_dev r) CActive \<or>
       lr_st r = RGrace \<and> has_cred (l_creds s) (lr_prev r) (lr_dev r) CGrace \<and>
         has_cred (l_creds s) n (lr_dev r) CActive))"
  using expected_members [OF lc_inv_open(3) [OF assms]] by (simp add: live_iff)

end
