(* ===== verification/Hermes_Rotation.thy ===== *)
theory Hermes_Rotation
  imports Hermes_Credential Hermes_Lifecycle Hermes_Demo
begin

text \<open>
  The operations of \<open>internal/credential/service.go\<close> implement the lifecycle of
  \<open>Hermes_Lifecycle\<close>: every successful run is one of its transitions (or changes
  nothing of it), and a run that returns an error changes no table.
\<close>

section \<open>Abstraction\<close>

definition abs_cred :: "ddns_credential \<Rightarrow> lcred" where
  "abs_cred c = \<lparr>lc_dev = cr_DeviceID c, lc_st = cr_Status c, lc_until = cr_GraceUntil c\<rparr>"

definition abs_rot :: "rotation \<Rightarrow> lrot" where
  "abs_rot r = \<lparr>lr_dev = rot_DeviceID r, lr_prev = rot_PreviousCredentialID r,
     lr_new = rot_NewCredentialID r, lr_st = rot_Status r, lr_until = rot_GraceUntil r\<rparr>"

definition abs_lc :: "database \<Rightarrow> lifecycle" where
  "abs_lc d = \<lparr>l_devs = dom (dev_map d), l_creds = map_option abs_cred \<circ> cred_map d,
     l_rots = map_option abs_rot \<circ> rot_map d\<rparr>"

definition wf_db :: "database \<Rightarrow> bool" where
  "wf_db d \<longleftrightarrow> wf_table dev_ID (devices d) \<and> wf_table cr_ID (creds d) \<and> wf_table rot_ID (rotations d)"

lemma wf_dbD:
  "wf_db d \<Longrightarrow> wf_table dev_ID (devices d)" "wf_db d \<Longrightarrow> wf_table cr_ID (creds d)"
  "wf_db d \<Longrightarrow> wf_table rot_ID (rotations d)"
  by (simp_all add: wf_db_def)

lemma abs_lc_simps [simp]:
  "l_devs (abs_lc d) = dom (dev_map d)"
  "l_creds (abs_lc d) i = map_option abs_cred (cred_map d i)"
  "l_rots (abs_lc d) i = map_option abs_rot (rot_map d i)"
  by (simp_all add: abs_lc_def)

lemma abs_row_simps [simp]:
  "lc_dev (abs_cred c) = cr_DeviceID c" "lc_st (abs_cred c) = cr_Status c"
  "lc_until (abs_cred c) = cr_GraceUntil c"
  "lr_dev (abs_rot r) = rot_DeviceID r" "lr_prev (abs_rot r) = rot_PreviousCredentialID r"
  "lr_new (abs_rot r) = rot_NewCredentialID r" "lr_st (abs_rot r) = rot_Status r"
  "lr_until (abs_rot r) = rot_GraceUntil r"
  by (simp_all add: abs_cred_def abs_rot_def)

lemma has_cred_abs [simp]:
  "has_cred (l_creds (abs_lc d)) i dv st \<longleftrightarrow>
     (\<exists>c. cred_map d i = Some c \<and> cr_DeviceID c = dv \<and> cr_Status c = st)"
  by (auto simp: has_cred_def)

lemma open_status_iff [simp]: "st \<in> set openRotationStatuses \<longleftrightarrow> is_open st"
  by (auto simp: openRotationStatuses_def is_open_def)

section \<open>Effects on the tables\<close>

text \<open>
  What the statements of one transaction do to the maps and to the abstraction: a new
  row or a change of one credential, with a change of one rotation.
\<close>

lemma wf_dbI:
  "wf_table dev_ID (devices d) \<Longrightarrow> wf_table cr_ID (creds d) \<Longrightarrow> wf_table rot_ID (rotations d) \<Longrightarrow> wf_db d"
  by (simp add: wf_db_def)

lemma abs_lc_upd:
  assumes "dev_map d' = dev_map d" "cred_map d' = (cred_map d)(i \<mapsto> c)" "rot_map d' = (rot_map d)(k \<mapsto> r)"
  shows "abs_lc d' = (abs_lc d)\<lparr>l_creds := (l_creds (abs_lc d))(i \<mapsto> abs_cred c),
                        l_rots := (l_rots (abs_lc d))(k \<mapsto> abs_rot r)\<rparr>"
  using assms by (auto simp: abs_lc_def fun_eq_iff)

lemma abs_lc_upd_rot:
  assumes "dev_map d' = dev_map d" "cred_map d' = cred_map d" "rot_map d' = (rot_map d)(k \<mapsto> r)"
  shows "abs_lc d' = (abs_lc d)\<lparr>l_rots := (l_rots (abs_lc d))(k \<mapsto> abs_rot r)\<rparr>"
  using assms by (auto simp: abs_lc_def fun_eq_iff)

lemma abs_lc_upd_cred:
  assumes "dev_map d' = dev_map d" "cred_map d' = (cred_map d)(i \<mapsto> c)" "rot_map d' = rot_map d"
  shows "abs_lc d' = (abs_lc d)\<lparr>l_creds := (l_creds (abs_lc d))(i \<mapsto> abs_cred c)\<rparr>"
  using assms by (auto simp: abs_lc_def fun_eq_iff)

lemma effect_rot:
  assumes "wf_db d" "rot_map d k = Some r" "\<And>x. rot_ID (f x) = rot_ID x"
    and "d' = rotations_update (upd_rows (\<lambda>x. rot_ID x = k) f) d"
  shows "dev_map d' = dev_map d" "cred_map d' = cred_map d" "rot_map d' = (rot_map d)(k \<mapsto> f r)" "wf_db d'"
  using wf_dbD [OF assms(1)] rot_rows.tmap_upd_id [where f = f, OF assms(3,2)]
  by (simp_all add: assms(4) wf_db_def rot_rows.wf_upd assms(3))

lemma effect_rot_cred:
  assumes "wf_db d" "rot_map d k = Some r" "\<And>x. rot_ID (f x) = rot_ID x"
    and "cred_map d i = Some c" "Q c" "\<And>x. cr_ID (g x) = cr_ID x"
    and "d' = rotations_update (upd_rows (\<lambda>x. rot_ID x = k) f)
           (creds_update (upd_rows (\<lambda>c. cr_ID c = i \<and> Q c) g) d)"
  shows "dev_map d' = dev_map d" "cred_map d' = (cred_map d)(i \<mapsto> g c)"
    "rot_map d' = (rot_map d)(k \<mapsto> f r)" "wf_db d'"
  using wf_dbD [OF assms(1)] rot_rows.tmap_upd_id [where f = f, OF assms(3,2)]
    cred_rows.tmap_upd_key [where f = g and Q = Q, OF assms(6,4,5)]
  by (simp_all add: assms(7) wf_db_def rot_rows.wf_upd assms(3) cred_rows.wf_upd assms(6))

lemma effect_rot_ins:
  assumes "wf_db d" "rot_map d k = Some r" "\<And>x. rot_ID (f x) = rot_ID x"
    and "cr_ID c = Suc (tbl_seq (creds d))"
    and "d' = rotations_update (upd_rows (\<lambda>x. rot_ID x = k) f) (creds_update (ins_row c) d)"
  shows "dev_map d' = dev_map d" "cred_map d (cr_ID c) = None" "cred_map d' = (cred_map d)(cr_ID c \<mapsto> c)"
    "rot_map d' = (rot_map d)(k \<mapsto> f r)" "wf_db d'"
  using wf_dbD [OF assms(1)] rot_rows.tmap_upd_id [where f = f, OF assms(3,2)] assms(4)
    cred_rows.tmap_ins [of "creds d" c] cred_rows.fresh_key [of "creds d"] cred_rows.wf_ins [of "creds d" c]
  by (simp_all add: assms(5) wf_db_def rot_rows.wf_upd assms(3))

lemma effect_cred:
  assumes "wf_db d" "cred_map d i = Some c" "Q c" "\<And>x. cr_ID (g x) = cr_ID x"
    and "d' = creds_update (upd_rows (\<lambda>c. cr_ID c = i \<and> Q c) g) d"
  shows "dev_map d' = dev_map d" "cred_map d' = (cred_map d)(i \<mapsto> g c)" "rot_map d' = rot_map d" "wf_db d'"
  using wf_dbD [OF assms(1)] cred_rows.tmap_upd_key [where f = g and Q = Q, OF assms(4,2,3)]
  by (simp_all add: assms(5) wf_db_def cred_rows.wf_upd assms(4))

section \<open>Successful runs\<close>

lemma loadRotation_Inr:
  assumes "wf_db (w_db w)"
  shows "loadRotation env k d w = (Inr r, w') \<longleftrightarrow>
     \<not> stmt_fault env (w_ticks w) \<and> rot_map (w_db w) k = Some r \<and> rot_DeviceID r = d \<and> w' = tick w"
  using rot_rows.find_key [of "rotations (w_db w)" k "\<lambda>r. rot_DeviceID r = d" r] wf_dbD [OF assms]
  by (auto simp: loadRotation_def op_simps)

lemma find_cred:
  assumes "wf_db d"
  shows "find (\<lambda>c. cr_ID c = i \<and> Q c) (tbl_rows (creds d)) = Some c \<longleftrightarrow> cred_map d i = Some c \<and> Q c"
  by (rule cred_rows.find_key) (rule wf_dbD [OF assms])

lemma one_cred:
  assumes "wf_db d"
  shows "length (filter (\<lambda>c. cr_ID c = i \<and> Q c) (tbl_rows (creds d))) = Suc 0 \<longleftrightarrow>
     (\<exists>c. cred_map d i = Some c \<and> Q c)"
  by (rule cred_rows.affected_one) (rule wf_dbD [OF assms])

text \<open>The new row and the moved rotation of a staged candidate.\<close>

lemma StageCandidate_success:
  assumes wf: "wf_db (w_db w)" and ok: "StageCandidate env k dv key hash w = (Inr c, w')"
  obtains r p t where
    "rot_map (w_db w) k = Some r" "rot_DeviceID r = dv" "rot_Status r = RRequested"
    "rot_NewCredentialID r = None"
    "cred_map (w_db w) (rot_PreviousCredentialID r) = Some p" "cr_DeviceID p = dv" "cr_Status p = CActive"
    "validHexBytes (cr_KeyID c) 8" "validHexBytes (cr_SecretHash c) 32"
    "cr_DeviceID c = dv" "cr_Status c = CPending" "cr_GraceUntil c = None"
    "cr_ID c = Suc (tbl_seq (creds (w_db w)))"
    "\<forall>c' \<in> set (tbl_rows (creds (w_db w))). cr_KeyID c' \<noteq> cr_KeyID c"
    "w_db w' = rotations_update (upd_rows (\<lambda>x. rot_ID x = k)
        (\<lambda>x. x\<lparr>rot_NewCredentialID := Some (cr_ID c), rot_Status := RStaged, rot_StagedAt := Some t\<rparr>))
        (creds_update (ins_row c) (w_db w))"
proof -
  note run = StageCandidate_def Let_def op_simps loadRotation_Inr wf find_cred [OF wf]
  obtain r where r: "rot_map (w_db w) k = Some r"
    using ok by (cases "rot_map (w_db w) k") (simp_all add: run)
  have k: "rot_ID r = k" using r by (rule rot_rows.tmap_key)
  obtain p where p: "cred_map (w_db w) (rot_PreviousCredentialID r) = Some p"
    using ok by (cases "cred_map (w_db w) (rot_PreviousCredentialID r)") (simp_all add: run r)
  show thesis
    by (rule that [of r p "clock env (Suc (Suc (Suc (w_ticks w))))"])
      (use ok in \<open>auto simp: run r k p list_ex_iff\<close>)
qed

lemma StageCandidate_step:
  assumes "wf_db (w_db w)" "StageCandidate env k dv key hash w = (Inr c, w')"
  shows "wf_db (w_db w') \<and> lc_step (abs_lc (w_db w)) (abs_lc (w_db w'))"
  using assms
proof (rule StageCandidate_success)
  fix r p t
  assume r: "rot_map (w_db w) k = Some r" "rot_DeviceID r = dv" "rot_Status r = RRequested"
    and p: "cred_map (w_db w) (rot_PreviousCredentialID r) = Some p" "cr_DeviceID p = dv" "cr_Status p = CActive"
    and c: "cr_DeviceID c = dv" "cr_Status c = CPending" "cr_GraceUntil c = None"
      "cr_ID c = Suc (tbl_seq (creds (w_db w)))"
    and w': "w_db w' = rotations_update (upd_rows (\<lambda>x. rot_ID x = k)
        (\<lambda>x. x\<lparr>rot_NewCredentialID := Some (cr_ID c), rot_Status := RStaged, rot_StagedAt := Some t\<rparr>))
        (creds_update (ins_row c) (w_db w))" (is "_ = rotations_update (upd_rows _ ?f) _")
  note e = effect_rot_ins [where f = ?f, OF assms(1) r(1) _ c(4) w', simplified]
  have "abs_lc (w_db w') = (abs_lc (w_db w))\<lparr>
      l_creds := (l_creds (abs_lc (w_db w)))(cr_ID c \<mapsto> \<lparr>lc_dev = dv, lc_st = CPending, lc_until = None\<rparr>),
      l_rots := (l_rots (abs_lc (w_db w)))(k \<mapsto> (abs_rot r)\<lparr>lr_new := Some (cr_ID c), lr_st := RStaged\<rparr>)\<rparr>"
    using abs_lc_upd [OF e(1,3,4)] c by (simp add: abs_cred_def abs_rot_def)
  then show ?thesis
    using lc_step.stage [of "abs_lc (w_db w)" k "abs_rot r" "cr_ID c"] e(2,5) r p by simp
qed

lemma StartValidation_success:
  assumes wf: "wf_db (w_db w)" and ok: "StartValidation env k dv w = (Inr res, w')"
  obtains r n c t where
    "rot_map (w_db w) k = Some r" "rot_DeviceID r = dv" "rot_Status r = RStaged"
    "rot_NewCredentialID r = Some n"
    "cred_map (w_db w) n = Some c" "cr_DeviceID c = dv" "cr_Status c = CPending"
    "w_db w' = rotations_update (upd_rows (\<lambda>x. rot_ID x = k)
        (\<lambda>x. x\<lparr>rot_Status := RValidating, rot_ValidationStartedAt := Some t\<rparr>))
        (creds_update (upd_rows (\<lambda>c. cr_ID c = n \<and> cr_DeviceID c = dv \<and> cr_Status c = CPending)
          (\<lambda>c. c\<lparr>cr_Status := CActive, cr_ActivatedAt := Some t\<rparr>)) (w_db w))"
proof -
  note run = StartValidation_def op_simps loadRotation_Inr wf one_cred [OF wf]
  obtain r where r: "rot_map (w_db w) k = Some r"
    using ok by (cases "rot_map (w_db w) k") (simp_all add: run)
  have k: "rot_ID r = k" using r by (rule rot_rows.tmap_key)
  obtain n where n: "rot_NewCredentialID r = Some n" "rot_Status r = RStaged"
    using ok by (cases "rot_Status r"; cases "rot_NewCredentialID r") (simp_all add: run r)
  obtain c where c: "cred_map (w_db w) n = Some c"
    using ok by (cases "cred_map (w_db w) n") (simp_all add: run r n)
  show thesis
    by (rule that [of r n c "clock env (Suc (Suc (w_ticks w)))"])
      (use ok in \<open>auto simp: run r k n c\<close>)
qed

lemma StartValidation_step:
  assumes "wf_db (w_db w)" "StartValidation env k dv w = (Inr res, w')"
  shows "wf_db (w_db w') \<and> lc_step (abs_lc (w_db w)) (abs_lc (w_db w'))"
  using assms
proof (rule StartValidation_success)
  fix r n c t
  assume r: "rot_map (w_db w) k = Some r" "rot_DeviceID r = dv" "rot_Status r = RStaged"
      "rot_NewCredentialID r = Some n"
    and c: "cred_map (w_db w) n = Some c" "cr_DeviceID c = dv" "cr_Status c = CPending"
    and w': "w_db w' = rotations_update (upd_rows (\<lambda>x. rot_ID x = k)
        (\<lambda>x. x\<lparr>rot_Status := RValidating, rot_ValidationStartedAt := Some t\<rparr>))
        (creds_update (upd_rows (\<lambda>c. cr_ID c = n \<and> cr_DeviceID c = dv \<and> cr_Status c = CPending)
          (\<lambda>c. c\<lparr>cr_Status := CActive, cr_ActivatedAt := Some t\<rparr>)) (w_db w))"
      (is "_ = rotations_update (upd_rows _ ?f) (creds_update (upd_rows _ ?g) _)")
  note e = effect_rot_cred [where f = ?f and g = ?g and
      Q = "\<lambda>c. cr_DeviceID c = dv \<and> cr_Status c = CPending", OF assms(1) r(1) _ c(1) _ _ w', simplified]
  have "abs_lc (w_db w') = (abs_lc (w_db w))\<lparr>
      l_creds := upd_cred (l_creds (abs_lc (w_db w))) n (to_status CActive),
      l_rots := (l_rots (abs_lc (w_db w)))(k \<mapsto> (abs_rot r)\<lparr>lr_st := RValidating\<rparr>)\<rparr>"
    using abs_lc_upd [OF e(1-3)] c by (simp add: abs_cred_def abs_rot_def upd_cred_def to_status_def)
  then show ?thesis
    using lc_step.validate [of "abs_lc (w_db w)" k "abs_rot r" n] e(4) r c by simp
qed

text \<open>Two changes of the credentials in a row, with the move of a rotation.\<close>

lemma effect_rot_cred2:
  assumes "wf_db d" "rot_map d k = Some r" "\<And>x. rot_ID (f x) = rot_ID x"
    and "tmap cr_ID (upd_rows P h (creds d)) i = Some c" "Q c"
    and "\<And>x. cr_ID (g x) = cr_ID x" "\<And>x. cr_ID (h x) = cr_ID x"
    and "d' = rotations_update (upd_rows (\<lambda>x. rot_ID x = k) f)
           (creds_update (\<lambda>t. upd_rows (\<lambda>c. cr_ID c = i \<and> Q c) g (upd_rows P h t)) d)"
  shows "dev_map d' = dev_map d" "cred_map d' = (tmap cr_ID (upd_rows P h (creds d)))(i \<mapsto> g c)"
    "rot_map d' = (rot_map d)(k \<mapsto> f r)" "wf_db d'"
  using wf_dbD [OF assms(1)] rot_rows.tmap_upd_id [where f = f, OF assms(3,2)]
    cred_rows.tmap_upd_key [where f = g and Q = Q, OF assms(6,4,5)]
  by (simp_all add: assms(8) wf_db_def rot_rows.wf_upd assms(3) cred_rows.wf_upd assms(6,7))

lemma abs_lc_eqI:
  assumes "dev_map d' = dev_map d" "\<And>j. map_option abs_cred (cred_map d' j) = cs j"
    "rot_map d' = (rot_map d)(k \<mapsto> r)"
  shows "abs_lc d' = (abs_lc d)\<lparr>l_creds := cs, l_rots := (l_rots (abs_lc d))(k \<mapsto> abs_rot r)\<rparr>"
  using assms by (auto simp: abs_lc_def fun_eq_iff)

text \<open>The fields outside the abstraction do not show in it.\<close>

lemma abs_cred_confirmed [simp]: "abs_cred (c\<lparr>cr_ConfirmedAt := t\<rparr>) = abs_cred c"
  by (simp add: abs_cred_def)

lemma ConfirmCredentialUse_success:
  assumes wf: "wf_db (w_db w)" and ok: "ConfirmCredentialUse env i w = (Inr True, w')"
  obtains r c p t where
    "rot_map (w_db w) (rot_ID r) = Some r" "rot_NewCredentialID r = Some i" "rot_Status r = RValidating"
    "cred_map (w_db w) i = Some c" "cr_DeviceID c = rot_DeviceID r" "cr_Status c = CActive"
    "tmap cr_ID (upd_rows (\<lambda>c. cr_ID c = i) (\<lambda>c. c\<lparr>cr_ConfirmedAt := Some t\<rparr>) (creds (w_db w)))
       (rot_PreviousCredentialID r) = Some p"
    "cr_DeviceID p = rot_DeviceID r" "cr_Status p = CActive"
    "w_db w' = rotations_update (upd_rows (\<lambda>x. rot_ID x = rot_ID r)
        (\<lambda>x. x\<lparr>rot_Status := RGrace, rot_ConfirmedAt := Some t,
               rot_GraceUntil := Some (t + duration_minutes (rot_GraceMinutes r))\<rparr>))
        (creds_update (\<lambda>tb. upd_rows (\<lambda>c. cr_ID c = rot_PreviousCredentialID r \<and>
             cr_DeviceID c = rot_DeviceID r \<and> cr_Status c = CActive)
          (\<lambda>c. c\<lparr>cr_Status := CGrace, cr_GraceUntil := Some (t + duration_minutes (rot_GraceMinutes r))\<rparr>)
          (upd_rows (\<lambda>c. cr_ID c = i) (\<lambda>c. c\<lparr>cr_ConfirmedAt := Some t\<rparr>) tb)) (w_db w))"
proof -
  note wf1 = cred_rows.wf_upd [OF wf_dbD(2) [OF wf], where f = "\<lambda>c. c\<lparr>cr_ConfirmedAt := t\<rparr>" for t]
  note run = ConfirmCredentialUse_def Let_def op_simps find_cred [OF wf] cred_rows.affected_one [OF wf1]
  let ?P = "\<lambda>r. rot_NewCredentialID r = Some i \<and> rot_Status r = RValidating"
  obtain r where f: "find ?P (tbl_rows (rotations (w_db w))) = Some r"
    using ok by (cases "find ?P (tbl_rows (rotations (w_db w)))") (simp_all add: run del: table_simps)
  note r = rot_rows.find_row [OF wf_dbD(3) [OF wf] f]
  obtain c where c: "cred_map (w_db w) i = Some c"
    using ok by (cases "cred_map (w_db w) i") (simp_all add: run f del: table_simps)
  have k: "cr_ID c = i" using c by (rule cred_rows.tmap_key)
  let ?t = "clock env (Suc (Suc (Suc (w_ticks w))))"
  obtain p where p: "tmap cr_ID (upd_rows (\<lambda>c. cr_ID c = i) (\<lambda>c. c\<lparr>cr_ConfirmedAt := Some ?t\<rparr>) (creds (w_db w)))
       (rot_PreviousCredentialID r) = Some p"
    using ok by (cases "tmap cr_ID (upd_rows (\<lambda>c. cr_ID c = i) (\<lambda>c. c\<lparr>cr_ConfirmedAt := Some ?t\<rparr>)
        (creds (w_db w))) (rot_PreviousCredentialID r)") (simp_all add: run f c k del: table_simps)
  show thesis
    by (rule that [of r c ?t p])
      (use ok r in \<open>auto simp: run f k c p simp del: table_simps\<close>)
qed

lemma ConfirmCredentialUse_step:
  assumes "wf_db (w_db w)" "ConfirmCredentialUse env i w = (Inr True, w')"
  shows "wf_db (w_db w') \<and> lc_step (abs_lc (w_db w)) (abs_lc (w_db w'))"
  using assms
proof (rule ConfirmCredentialUse_success)
  fix r :: rotation and c p :: ddns_credential and t :: time
  let ?g = "t + duration_minutes (rot_GraceMinutes r)" and ?pv = "rot_PreviousCredentialID r"
  let ?h = "\<lambda>c :: ddns_credential. c\<lparr>cr_ConfirmedAt := Some t\<rparr>"
  let ?m = "tmap cr_ID (upd_rows (\<lambda>c. cr_ID c = i) ?h (creds (w_db w)))"
  assume r: "rot_map (w_db w) (rot_ID r) = Some r" "rot_NewCredentialID r = Some i" "rot_Status r = RValidating"
    and c: "cred_map (w_db w) i = Some c" "cr_DeviceID c = rot_DeviceID r" "cr_Status c = CActive"
    and p: "?m ?pv = Some p" "cr_DeviceID p = rot_DeviceID r" "cr_Status p = CActive"
    and w': "w_db w' = rotations_update (upd_rows (\<lambda>x. rot_ID x = rot_ID r)
        (\<lambda>x. x\<lparr>rot_Status := RGrace, rot_ConfirmedAt := Some t, rot_GraceUntil := Some ?g\<rparr>))
        (creds_update (\<lambda>tb. upd_rows (\<lambda>c. cr_ID c = ?pv \<and> cr_DeviceID c = rot_DeviceID r \<and> cr_Status c = CActive)
          (\<lambda>c. c\<lparr>cr_Status := CGrace, cr_GraceUntil := Some ?g\<rparr>) (upd_rows (\<lambda>c. cr_ID c = i) ?h tb)) (w_db w))"
      (is "_ = rotations_update (upd_rows _ ?f) (creds_update (\<lambda>tb. upd_rows _ ?g' _) _)")
  note e = effect_rot_cred2 [where f = ?f and g = ?g' and h = ?h and
      Q = "\<lambda>c. cr_DeviceID c = rot_DeviceID r \<and> cr_Status c = CActive", OF assms(1) r(1) _ p(1) _ _ _ w',
      simplified, OF conjI [OF p(2,3)]]
  have m: "map_option abs_cred (?m j) = l_creds (abs_lc (w_db w)) j" for j
    by (cases "cred_map (w_db w) j") (simp_all add: cred_rows.tmap_upd)
  have pv: "l_creds (abs_lc (w_db w)) ?pv = Some (abs_cred p)"
    using m [of ?pv] p(1) by simp
  have "map_option abs_cred (cred_map (w_db w') j) = upd_cred (l_creds (abs_lc (w_db w))) ?pv (to_grace ?g) j" for j
    unfolding e(2) upd_cred_same [where cs = "l_creds (abs_lc (w_db w))", OF pv]
    using m [of j] by (simp add: abs_cred_def to_grace_def)
  then have "abs_lc (w_db w') = (abs_lc (w_db w))\<lparr>
      l_creds := upd_cred (l_creds (abs_lc (w_db w))) ?pv (to_grace ?g),
      l_rots := (l_rots (abs_lc (w_db w)))(rot_ID r \<mapsto> (abs_rot r)\<lparr>lr_st := RGrace, lr_until := Some ?g\<rparr>)\<rparr>"
    using abs_lc_eqI [OF e(1) _ e(3)] by (simp add: abs_rot_def)
  moreover have "has_cred (l_creds (abs_lc (w_db w))) ?pv (rot_DeviceID r) CActive"
    unfolding has_cred_def using pv p(2,3) by (intro exI [of _ "abs_cred p"]) simp
  ultimately show ?thesis
    using lc_step.confirm [of "abs_lc (w_db w)" "rot_ID r" "abs_rot r" i ?g] e(4) r c by simp
qed

lemma ConfirmCredentialUse_False:
  assumes "ConfirmCredentialUse env i w = (Inr False, w')"
  shows "w_db w' = w_db w"
    "find (\<lambda>r. rot_NewCredentialID r = Some i \<and> rot_Status r = RValidating) (tbl_rows (rotations (w_db w))) = None"
  using assms by (auto simp: ConfirmCredentialUse_def Let_def op_simps split: option.splits)

lemma RequestRotation_success:
  assumes wf: "wf_db (w_db w)" and ok: "RequestRotation env dv g w = (Inr r, w')"
  obtains d p t ct where
    "1 \<le> g" "g \<le> 1440" "dev_map (w_db w) dv = Some d" "dev_Status d = ''active''"
    "\<And>j x. rot_map (w_db w) j = Some x \<Longrightarrow> rot_DeviceID x = dv \<Longrightarrow> \<not> is_open (rot_Status x)"
    "filter (\<lambda>c. cr_DeviceID c = dv \<and> cr_Status c = CActive) (tbl_rows (creds (w_db w))) = [p]"
    "r = \<lparr>rot_ID = Suc (tbl_seq (rotations (w_db w))), rot_CreatedAt = ct, rot_DeviceID = dv,
                rot_PreviousCredentialID = cr_ID p, rot_NewCredentialID = None,
                rot_Status = RRequested, rot_GraceMinutes = g, rot_RequestedAt = t,
                rot_StagedAt = None, rot_ValidationStartedAt = None, rot_ConfirmedAt = None,
                rot_GraceUntil = None, rot_CompletedAt = None, rot_RolledBackAt = None,
                rot_LastError = []\<rparr>"
    "w_db w' = rotations_update (ins_row r) (w_db w)"
proof -
  note run = RequestRotation_def op_simps device_rows.find_key [OF wf_dbD(1) [OF wf]] MinGraceMinutes_def MaxGraceMinutes_def
  obtain d where d: "dev_map (w_db w) dv = Some d"
    using ok by (cases "dev_map (w_db w) dv") (simp_all add: run)
  let ?rows = "filter (\<lambda>c. cr_DeviceID c = dv \<and> cr_Status c = CActive) (tbl_rows (creds (w_db w)))"
  obtain p where p: "rev ?rows = [p]"
  proof (cases "rev ?rows")
    case (Cons a as)
    with ok show ?thesis by (cases as) (auto simp: run d intro: that)
  qed (use ok in \<open>simp add: run d\<close>)
  then have p': "?rows = [p]" by (metis rev.simps append.simps(1) rev_rev_ident)
  have op: "\<not> is_open (rot_Status x)" if "rot_map (w_db w) j = Some x" "rot_DeviceID x = dv" for j x
    using ok that rot_rows.rows_iff [OF wf_dbD(3) [OF wf]] by (auto simp: run d filter_empty_conv)
  show thesis
    by (rule that [of d p])
      (use ok p in \<open>auto simp: run d p' op\<close>)
qed

lemma effect_rot_new:
  assumes "wf_db d" "rot_ID r = Suc (tbl_seq (rotations d))" "d' = rotations_update (ins_row r) d"
  shows "dev_map d' = dev_map d" "cred_map d' = cred_map d" "rot_map d (rot_ID r) = None"
    "rot_map d' = (rot_map d)(rot_ID r \<mapsto> r)" "wf_db d'"
  using wf_dbD [OF assms(1)] assms(2) rot_rows.fresh_key [of "rotations d"]
    rot_rows.tmap_ins [of "rotations d" r] rot_rows.wf_ins [of "rotations d" r]
  by (simp_all add: assms(3) wf_db_def)

lemma RequestRotation_step:
  assumes "wf_db (w_db w)" "RequestRotation env dv g w = (Inr r, w')"
  shows "wf_db (w_db w') \<and> lc_step (abs_lc (w_db w)) (abs_lc (w_db w'))"
  using assms
proof (rule RequestRotation_success)
  fix d :: device and p :: ddns_credential and t ct :: time
  assume d: "dev_map (w_db w) dv = Some d"
    and op: "\<And>j x. rot_map (w_db w) j = Some x \<Longrightarrow> rot_DeviceID x = dv \<Longrightarrow> \<not> is_open (rot_Status x)"
    and p: "filter (\<lambda>c. cr_DeviceID c = dv \<and> cr_Status c = CActive) (tbl_rows (creds (w_db w))) = [p]"
    and r: "r = \<lparr>rot_ID = Suc (tbl_seq (rotations (w_db w))), rot_CreatedAt = ct, rot_DeviceID = dv,
                rot_PreviousCredentialID = cr_ID p, rot_NewCredentialID = None,
                rot_Status = RRequested, rot_GraceMinutes = g, rot_RequestedAt = t,
                rot_StagedAt = None, rot_ValidationStartedAt = None, rot_ConfirmedAt = None,
                rot_GraceUntil = None, rot_CompletedAt = None, rot_RolledBackAt = None,
                rot_LastError = []\<rparr>"
    and w': "w_db w' = rotations_update (ins_row r) (w_db w)"
  have "rot_ID r = Suc (tbl_seq (rotations (w_db w)))" by (simp add: r)
  note e = effect_rot_new [OF assms(1) this w']
  from filter_singleton_mem [OF p] have "cred_map (w_db w) (cr_ID p) = Some p" "cr_DeviceID p = dv" "cr_Status p = CActive"
    using cred_rows.row_tmap [OF wf_dbD(2) [OF assms(1)]] by auto
  moreover have "abs_rot r = \<lparr>lr_dev = dv, lr_prev = cr_ID p, lr_new = None, lr_st = RRequested, lr_until = None\<rparr>"
    by (simp add: r abs_rot_def)
  moreover have "\<not> is_open (lr_st x)" if "l_rots (abs_lc (w_db w)) j = Some x" "lr_dev x = dv" for j x
    using that op by auto
  ultimately show ?thesis
    using lc_step.request [of dv "abs_lc (w_db w)" "cr_ID p" "rot_ID r"] abs_lc_upd_rot [OF e(1,2,4)] e(3,5) d
    by auto
qed

lemma reconcile_one_success:
  assumes wf: "wf_db (w_db w)" and ok: "reconcile_one env t it w = (Inr True, w')"
  obtains r c u where
    "rot_map (w_db w) (rot_ID it) = Some r" "rot_Status r = RGrace" "rot_GraceUntil r = Some u" "u \<le> t"
    "cred_map (w_db w) (rot_PreviousCredentialID r) = Some c" "cr_DeviceID c = rot_DeviceID r" "cr_Status c = CGrace"
    "w_db w' = rotations_update (upd_rows (\<lambda>x. rot_ID x = rot_ID it)
        (\<lambda>x. x\<lparr>rot_Status := RCompleted, rot_CompletedAt := Some t\<rparr>))
        (creds_update (upd_rows (\<lambda>c. cr_ID c = rot_PreviousCredentialID r \<and> cr_DeviceID c = rot_DeviceID r
            \<and> cr_Status c = CGrace)
          (\<lambda>c. c\<lparr>cr_Status := CRevoked, cr_RevokedAt := Some t\<rparr>)) (w_db w))"
proof -
  note run = reconcile_one_def op_simps rot_rows.find_key [OF wf_dbD(3) [OF wf]] one_cred [OF wf]
  let ?P = "\<lambda>r. rot_ID r = rot_ID it \<and> rot_Status r = RGrace"
  obtain r where f: "find ?P (tbl_rows (rotations (w_db w))) = Some r"
    using ok by (cases "find ?P (tbl_rows (rotations (w_db w)))") (simp_all add: run)
  then have r: "rot_map (w_db w) (rot_ID it) = Some r" "rot_Status r = RGrace"
    by (simp_all add: rot_rows.find_key [OF wf_dbD(3) [OF wf]])
  have k: "rot_ID r = rot_ID it" using r(1) by (rule rot_rows.tmap_key)
  obtain u where u: "rot_GraceUntil r = Some u"
    using ok by (cases "rot_GraceUntil r") (simp_all add: run f)
  have ut: "u \<le> t" using ok by (cases "u \<le> t") (simp_all add: run f u)
  obtain c where c: "cred_map (w_db w) (rot_PreviousCredentialID r) = Some c"
    using ok ut by (cases "cred_map (w_db w) (rot_PreviousCredentialID r)") (simp_all add: run f u)
  show thesis
    by (rule that [of r u c]) (use ok r ut in \<open>auto simp: run f k u c\<close>)
qed

lemma reconcile_one_step:
  assumes "wf_db (w_db w)" "reconcile_one env t it w = (Inr True, w')"
  shows "wf_db (w_db w') \<and> lc_step (abs_lc (w_db w)) (abs_lc (w_db w'))"
  using assms
proof (rule reconcile_one_success)
  fix r :: rotation and c :: ddns_credential and u :: time
  let ?k = "rot_ID it" and ?pv = "rot_PreviousCredentialID r"
  assume r: "rot_map (w_db w) ?k = Some r" "rot_Status r = RGrace"
    and c: "cred_map (w_db w) ?pv = Some c" "cr_DeviceID c = rot_DeviceID r" "cr_Status c = CGrace"
    and w': "w_db w' = rotations_update (upd_rows (\<lambda>x. rot_ID x = ?k)
        (\<lambda>x. x\<lparr>rot_Status := RCompleted, rot_CompletedAt := Some t\<rparr>))
        (creds_update (upd_rows (\<lambda>c. cr_ID c = ?pv \<and> cr_DeviceID c = rot_DeviceID r \<and> cr_Status c = CGrace)
          (\<lambda>c. c\<lparr>cr_Status := CRevoked, cr_RevokedAt := Some t\<rparr>)) (w_db w))"
      (is "_ = rotations_update (upd_rows _ ?f) (creds_update (upd_rows _ ?g) _)")
  note e = effect_rot_cred [where f = ?f and g = ?g and
      Q = "\<lambda>c. cr_DeviceID c = rot_DeviceID r \<and> cr_Status c = CGrace", OF assms(1) r(1) _ c(1) _ _ w', simplified,
      OF conjI [OF c(2,3)]]
  have "abs_lc (w_db w') = (abs_lc (w_db w))\<lparr>
      l_creds := upd_cred (l_creds (abs_lc (w_db w))) ?pv (to_status CRevoked),
      l_rots := (l_rots (abs_lc (w_db w)))(?k \<mapsto> (abs_rot r)\<lparr>lr_st := RCompleted\<rparr>)\<rparr>"
    using abs_lc_upd [OF e(1-3)] c by (simp add: abs_cred_def abs_rot_def upd_cred_def to_status_def)
  then show ?thesis
    using lc_step.complete [of "abs_lc (w_db w)" ?k "abs_rot r"] e(4) r c by simp
qed

lemma reconcile_one_no_step:
  "reconcile_one env t it w = (Inr False, w') \<Longrightarrow> w_db w' = w_db w"
  "reconcile_one env t it w = (Inl e, w') \<Longrightarrow> w_db w' = w_db w"
  by (auto simp: reconcile_one_def op_simps split: option.splits if_splits dest: transaction_Inl_db)

lemma reconcile_one_steps:
  assumes "wf_db (w_db w)" "reconcile_one env t it w = (res, w')"
  shows "wf_db (w_db w') \<and> lc_step\<^sup>*\<^sup>* (abs_lc (w_db w)) (abs_lc (w_db w'))"
proof (cases "res = Inr True")
  case True
  with reconcile_one_step assms show ?thesis by blast
next
  case False
  then have "(\<exists>e. res = Inl e) \<or> res = Inr False" by (cases res) auto
  then show ?thesis using assms reconcile_one_no_step by auto
qed

lemma reconcile_loop_steps:
  assumes "wf_db (w_db w)" "reconcile_loop env t items n w = (res, w')"
  shows "wf_db (w_db w') \<and> lc_step\<^sup>*\<^sup>* (abs_lc (w_db w)) (abs_lc (w_db w'))"
  using assms
proof (induction env t items n w rule: reconcile_loop.induct)
  case (2 env t item items completed w)
  obtain x w1 where one: "reconcile_one env t item w = (x, w1)" by fastforce
  note s = reconcile_one_steps [OF 2(2) one]
  show ?case
  proof (cases x)
    case (Inl e)
    with 2(3) one s show ?thesis by simp
  next
    case (Inr b)
    with 2(1) [OF one [symmetric] Inr] 2(3) one s show ?thesis by (auto intro: rtranclp_trans)
  qed
qed simp

lemma ReconcileExpiredGrace_steps:
  assumes "wf_db (w_db w)" "ReconcileExpiredGrace env w = (res, w')"
  shows "wf_db (w_db w') \<and> lc_step\<^sup>*\<^sup>* (abs_lc (w_db w)) (abs_lc (w_db w'))"
proof -
  let ?t = "clock env (w_ticks w)"
  obtain x w1 where s: "select env rotations (expired_grace ?t) (tick w) = (x, w1)" by fastforce
  note w1 = select_db [OF s]
  show ?thesis
  proof (cases x)
    case (Inl e)
    with assms s w1 show ?thesis by (simp add: ReconcileExpiredGrace_def Let_def)
  next
    case (Inr rows)
    with assms(2) s have "reconcile_loop env ?t rows 0 w1 = (res, w')"
      by (simp add: ReconcileExpiredGrace_def Let_def)
    from reconcile_loop_steps [OF _ this] assms(1) w1 show ?thesis by simp
  qed
qed

lemma revokeReplacement_Inr:
  assumes "wf_table cr_ID (creds (w_db w))"
  shows "revokeReplacement env i dv st t w = (Inr u, w') \<longleftrightarrow> \<not> stmt_fault env (w_ticks w) \<and>
     (\<exists>c. tmap cr_ID (creds (w_db w)) i = Some c \<and> cr_DeviceID c = dv \<and> cr_Status c = st) \<and>
     w' = (tick w)\<lparr>w_db := creds_update (upd_rows (\<lambda>c. cr_ID c = i \<and> cr_DeviceID c = dv \<and> cr_Status c = st)
             (\<lambda>c. c\<lparr>cr_Status := CRevoked, cr_RevokedAt := Some t\<rparr>)) (w_db w)\<rparr>"
  using cred_rows.affected_one [OF assms, of i "\<lambda>c. cr_DeviceID c = dv \<and> cr_Status c = st"]
  by (auto simp: revokeReplacement_def op_simps)

lemma Rollback_success:
  assumes wf: "wf_db (w_db w)" and ok: "Rollback env k dv reason w = (Inr u, w')"
  obtains r w0 w1 t where
    "rot_map (w_db w) k = Some r" "rot_DeviceID r = dv" "w_db w0 = w_db w"
    "rollback_credentials env dv r w0 = (Inr (), w1)"
    "w_db w' = rotations_update (upd_rows (\<lambda>x. rot_ID x = k)
        (\<lambda>x. x\<lparr>rot_Status := RRolledBack, rot_RolledBackAt := Some t, rot_LastError := reason\<rparr>)) (w_db w1)"
proof -
  note run = Rollback_def op_simps loadRotation_Inr wf
  from ok obtain r w1 where r: "rot_map (w_db w) k = Some r" "rot_DeviceID r = dv"
    "rollback_credentials env dv r (tick (tick w)) = (Inr (), w1)"
    "w_db w' = rotations_update (upd_rows (\<lambda>x. rot_ID x = rot_ID r)
        (\<lambda>x. x\<lparr>rot_Status := RRolledBack, rot_RolledBackAt := Some (clock env (w_ticks w1)),
               rot_LastError := reason\<rparr>)) (w_db w1)"
    by (auto simp: run)
  with rot_rows.tmap_key [OF r(1)] show thesis
    by (intro that [of r "tick (tick w)" w1]) auto
qed

text \<open>What a rollback writes, for each state of the rotation.\<close>

lemma Rollback_cases:
  assumes wf: "wf_db (w_db w)" and inv: "lc_inv (abs_lc (w_db w))" and ok: "Rollback env k dv reason w = (Inr u, w')"
  obtains r t t' where
    "rot_map (w_db w) k = Some r" "rot_DeviceID r = dv" "dev_map (w_db w') = dev_map (w_db w)" "wf_db (w_db w')"
    "rot_map (w_db w') = (rot_map (w_db w))(k \<mapsto>
       r\<lparr>rot_Status := RRolledBack, rot_RolledBackAt := Some t, rot_LastError := reason\<rparr>)"
    "rot_Status r = RRequested \<and> cred_map (w_db w') = cred_map (w_db w) \<or>
     (\<exists>n c st. (rot_Status r, st) \<in> {(RStaged, CPending), (RValidating, CActive)} \<and> rot_NewCredentialID r = Some n \<and>
       cred_map (w_db w) n = Some c \<and> cr_DeviceID c = dv \<and> cr_Status c = st \<and>
       cred_map (w_db w') = (cred_map (w_db w))(n \<mapsto> c\<lparr>cr_Status := CRevoked, cr_RevokedAt := Some t'\<rparr>)) \<or>
     (\<exists>n c p u. rot_Status r = RGrace \<and> rot_GraceUntil r = Some u \<and> t' < u \<and> rot_NewCredentialID r = Some n \<and>
       n \<noteq> rot_PreviousCredentialID r \<and>
       cred_map (w_db w) (rot_PreviousCredentialID r) = Some p \<and> cr_DeviceID p = dv \<and> cr_Status p = CGrace \<and>
       cred_map (w_db w) n = Some c \<and> cr_DeviceID c = dv \<and> cr_Status c = CActive \<and>
       cred_map (w_db w') = (cred_map (w_db w))
         (rot_PreviousCredentialID r \<mapsto> p\<lparr>cr_Status := CActive, cr_GraceUntil := None\<rparr>,
          n \<mapsto> c\<lparr>cr_Status := CRevoked, cr_RevokedAt := Some t'\<rparr>))"
  using wf ok
proof (rule Rollback_success)
  fix r :: rotation and w0 w1 :: world and t :: time
  let ?s = "abs_lc (w_db w)"
  let ?f = "\<lambda>x. x\<lparr>rot_Status := RRolledBack, rot_RolledBackAt := Some t, rot_LastError := reason\<rparr>"
  let ?g = "\<lambda>t' c. c\<lparr>cr_Status := CRevoked, cr_RevokedAt := Some t'\<rparr>"
  assume r: "rot_map (w_db w) k = Some r" "rot_DeviceID r = dv" and w0: "w_db w0 = w_db w"
    and run: "rollback_credentials env dv r w0 = (Inr (), w1)"
    and w': "w_db w' = rotations_update (upd_rows (\<lambda>x. rot_ID x = k) ?f) (w_db w1)"
  have lr: "l_rots ?s k = Some (abs_rot r)" using r by simp
  consider "rot_Status r = RRequested"
    | n st where "rot_NewCredentialID r = Some n" "(rot_Status r, st) \<in> {(RStaged, CPending), (RValidating, CActive)}"
    | n where "rot_Status r = RGrace" "rot_NewCredentialID r = Some n"
    using run by (cases "rot_Status r"; cases "rot_NewCredentialID r") (auto simp: rollback_credentials_def)
  then show thesis
  proof cases
    case 1
    then have w1: "w_db w1 = w_db w" using run w0 by (auto simp: rollback_credentials_def)
    note e = effect_rot [where f = ?f, OF wf r(1) _ w' [unfolded w1], simplified]
    show thesis by (rule that [OF r e(1,4,3)]) (use 1 e(2) in simp)
  next
    case (2 n st)
    from run 2 obtain c t' where c: "cred_map (w_db w) n = Some c" "cr_DeviceID c = dv" "cr_Status c = st"
      and w1: "w_db w1 = creds_update (upd_rows (\<lambda>c. cr_ID c = n \<and> cr_DeviceID c = dv \<and> cr_Status c = st) (?g t')) (w_db w)"
    proof -
      from 2 run have "revokeReplacement env n dv st (clock env (w_ticks w0)) (tick w0) = (Inr (), w1)"
        by (auto simp: rollback_credentials_def op_simps)
      then show thesis
        using revokeReplacement_Inr [of "tick w0"] wf_dbD(2) [OF wf] w0 by (auto intro: that)
    qed
    note e = effect_rot_cred [where f = ?f and g = "?g t'" and Q = "\<lambda>c. cr_DeviceID c = dv \<and> cr_Status c = st",
        OF wf r(1) _ c(1) _ _ w' [unfolded w1], simplified, OF conjI [OF c(2,3)]]
    show thesis by (rule that [OF r e(1,4,3), of t']) (use 2 c e(2) in auto)
  next
    case (3 n)
    let ?pv = "rot_PreviousCredentialID r"
    have op: "n \<noteq> ?pv" "has_cred (l_creds ?s) ?pv dv CGrace" "has_cred (l_creds ?s) n dv CActive"
      using lc_open_status [OF inv lr] 3 r by auto
    then obtain p c where p: "cred_map (w_db w) ?pv = Some p" "cr_DeviceID p = dv" "cr_Status p = CGrace"
      and c: "cred_map (w_db w) n = Some c" "cr_DeviceID c = dv" "cr_Status c = CActive"
      by auto
    let ?P = "\<lambda>c. cr_ID c = ?pv \<and> cr_DeviceID c = dv \<and> cr_Status c = CGrace"
    let ?h = "\<lambda>c. c\<lparr>cr_Status := CActive, cr_GraceUntil := None\<rparr>"
    from run 3 obtain t' u where u: "rot_GraceUntil r = Some u" "t' < u" and
      w1: "w_db w1 = creds_update (\<lambda>tb. upd_rows (\<lambda>c. cr_ID c = n \<and> cr_DeviceID c = dv \<and> cr_Status c = CActive)
          (?g t') (upd_rows ?P ?h tb)) (w_db w)"
      by (auto simp: rollback_credentials_def revokeReplacement_def op_simps w0 comp_def
          split: option.splits simp del: table_simps)
    have m: "tmap cr_ID (upd_rows ?P ?h (creds (w_db w))) = (cred_map (w_db w))(?pv \<mapsto> ?h p)"
      by (rule cred_rows.tmap_upd_key) (use p in simp_all)
    then have n': "tmap cr_ID (upd_rows ?P ?h (creds (w_db w))) n = Some c" using op(1) c by simp
    note e = effect_rot_cred2 [where f = ?f and g = "?g t'" and h = ?h and P = ?P and
        Q = "\<lambda>c. cr_DeviceID c = dv \<and> cr_Status c = CActive", OF wf r(1) _ n' _ _ _ w' [unfolded w1], simplified,
        OF conjI [OF c(2,3)]]
    show thesis by (rule that [OF r e(1,4,3), of t']) (use 3 op(1) p c u e(2) m in auto)
  qed
qed

lemma Rollback_step:
  assumes wf: "wf_db (w_db w)" and inv: "lc_inv (abs_lc (w_db w))" and ok: "Rollback env k dv reason w = (Inr u, w')"
  shows "wf_db (w_db w') \<and> lc_step (abs_lc (w_db w)) (abs_lc (w_db w'))"
  using assms
proof (rule Rollback_cases)
  fix r :: rotation and t t' :: time
  let ?s = "abs_lc (w_db w)" and ?pv = "rot_PreviousCredentialID r"
  let ?r = "r\<lparr>rot_Status := RRolledBack, rot_RolledBackAt := Some t, rot_LastError := reason\<rparr>"
  let ?g = "\<lambda>c. c\<lparr>cr_Status := CRevoked, cr_RevokedAt := Some t'\<rparr>"
  assume r: "rot_map (w_db w) k = Some r" "rot_DeviceID r = dv" and dm: "dev_map (w_db w') = dev_map (w_db w)"
    and wf': "wf_db (w_db w')" and rm: "rot_map (w_db w') = (rot_map (w_db w))(k \<mapsto> ?r)"
    and cases: "rot_Status r = RRequested \<and> cred_map (w_db w') = cred_map (w_db w) \<or>
     (\<exists>n c st. (rot_Status r, st) \<in> {(RStaged, CPending), (RValidating, CActive)} \<and> rot_NewCredentialID r = Some n \<and>
       cred_map (w_db w) n = Some c \<and> cr_DeviceID c = dv \<and> cr_Status c = st \<and>
       cred_map (w_db w') = (cred_map (w_db w))(n \<mapsto> ?g c)) \<or>
     (\<exists>n c p u. rot_Status r = RGrace \<and> rot_GraceUntil r = Some u \<and> t' < u \<and> rot_NewCredentialID r = Some n \<and>
       n \<noteq> ?pv \<and> cred_map (w_db w) ?pv = Some p \<and> cr_DeviceID p = dv \<and> cr_Status p = CGrace \<and>
       cred_map (w_db w) n = Some c \<and> cr_DeviceID c = dv \<and> cr_Status c = CActive \<and>
       cred_map (w_db w') = (cred_map (w_db w))
         (?pv \<mapsto> p\<lparr>cr_Status := CActive, cr_GraceUntil := None\<rparr>, n \<mapsto> ?g c))"
  have lr: "l_rots ?s k = Some (abs_rot r)" using r by simp
  have ar: "abs_rot ?r = (abs_rot r)\<lparr>lr_st := RRolledBack\<rparr>" by (simp add: abs_rot_def)
  note eq = abs_lc_eqI [OF dm _ rm, unfolded ar]
  from cases have "lc_step ?s (abs_lc (w_db w'))"
  proof (elim disjE exE conjE)
    assume "cred_map (w_db w') = cred_map (w_db w)" "rot_Status r = RRequested"
    then show ?thesis using lc_step.rollback_requested [OF lr] eq [of "l_creds ?s"] by simp
  next
    fix n c st
    assume st: "(rot_Status r, st) \<in> {(RStaged, CPending), (RValidating, CActive)}" "rot_NewCredentialID r = Some n"
      and c: "cred_map (w_db w) n = Some c" "cr_DeviceID c = dv" "cr_Status c = st"
      and cm: "cred_map (w_db w') = (cred_map (w_db w))(n \<mapsto> ?g c)"
    have "abs_lc (w_db w') = ?s\<lparr>l_creds := upd_cred (l_creds ?s) n (to_status CRevoked),
        l_rots := (l_rots ?s)(k \<mapsto> (abs_rot r)\<lparr>lr_st := RRolledBack\<rparr>)\<rparr>"
      by (rule eq) (use cm c(1) in \<open>auto simp: upd_cred_def abs_cred_def to_status_def\<close>)
    then show ?thesis
      using lc_step.rollback_staged [OF lr] lc_step.rollback_validating [OF lr] st c r by auto
  next
    fix n c p u
    assume st: "rot_Status r = RGrace" "rot_NewCredentialID r = Some n" "n \<noteq> ?pv"
      and p: "cred_map (w_db w) ?pv = Some p" "cr_DeviceID p = dv" "cr_Status p = CGrace"
      and c: "cred_map (w_db w) n = Some c" "cr_DeviceID c = dv" "cr_Status c = CActive"
      and cm: "cred_map (w_db w') = (cred_map (w_db w))
         (?pv \<mapsto> p\<lparr>cr_Status := CActive, cr_GraceUntil := None\<rparr>, n \<mapsto> ?g c)"
    have "abs_lc (w_db w') = ?s\<lparr>l_creds := upd_cred (upd_cred (l_creds ?s) ?pv back_to_active) n (to_status CRevoked),
        l_rots := (l_rots ?s)(k \<mapsto> (abs_rot r)\<lparr>lr_st := RRolledBack\<rparr>)\<rparr>"
      by (rule eq) (use cm c(1) p(1) st(3) in \<open>auto simp: upd_cred_def abs_cred_def back_to_active_def to_status_def\<close>)
    then show ?thesis
      using lc_step.rollback_grace [OF lr] st p c r by simp
  qed
  with wf' show ?thesis by simp
qed

lemma create_device_success:
  assumes wf: "wf_db (w_db w)" and ok: "create_device_rows env name dn ty w = (Inr (d, key), w')"
  obtains c t where
    "dev_ID d = Suc (tbl_seq (devices (w_db w)))" "dev_Name d = name" "dev_Status d = ''active''"
    "cr_ID c = Suc (tbl_seq (creds (w_db w)))" "cr_DeviceID c = dev_ID d" "cr_Status c = CActive"
    "cr_GraceUntil c = None" "cr_KeyID c = gk_ID key" "cr_SecretHash c = gk_Hash key"
    "w_db w' = creds_update (ins_row c) (devices_update (ins_row d) (w_db w))"
proof -
  from ok obtain w1 where g: "GenerateDDNSKey env w = (Inr key, w1)" by (auto simp: create_device_rows_def op_simps)
  have w1: "w_db w1 = w_db w" using g by (auto simp: GenerateDDNSKey_def dest: generateKey_db)
  let ?c = "\<lparr>cr_ID = Suc (tbl_seq (creds (w_db w))), cr_CreatedAt = clock env (w_ticks w1 + 3), cr_DeviceID = dev_ID d,
                cr_KeyID = gk_ID key, cr_SecretHash = gk_Hash key, cr_Status = CActive,
                cr_ActivatedAt = Some (clock env (w_ticks w1)),
                cr_ConfirmedAt = None, cr_ExpiresAt = None, cr_RevokedAt = None,
                cr_GraceUntil = None, cr_LastUsedAt = None, cr_LastUsedIP = [],
                cr_ReplacesCredentialID = None\<rparr>"
  show thesis
    by (rule that [of ?c]) (use ok g w1 in \<open>auto simp: create_device_rows_def op_simps numeral_3_eq_3\<close>)
qed

lemma create_device_step:
  assumes wf: "wf_db (w_db w)" and ok: "create_device_rows env name dn ty w = (Inr (d, key), w')"
  shows "wf_db (w_db w') \<and> lc_step (abs_lc (w_db w)) (abs_lc (w_db w'))"
  using assms
proof (rule create_device_success)
  fix c :: ddns_credential
  assume d: "dev_ID d = Suc (tbl_seq (devices (w_db w)))"
    and c: "cr_ID c = Suc (tbl_seq (creds (w_db w)))" "cr_DeviceID c = dev_ID d" "cr_Status c = CActive"
      "cr_GraceUntil c = None"
    and w': "w_db w' = creds_update (ins_row c) (devices_update (ins_row d) (w_db w))"
  note wfs = wf_dbD [OF wf]
  have m: "dev_map (w_db w') = (dev_map (w_db w))(dev_ID d \<mapsto> d)"
    "cred_map (w_db w') = (cred_map (w_db w))(cr_ID c \<mapsto> c)" "rot_map (w_db w') = rot_map (w_db w)"
    using device_rows.tmap_ins [OF wfs(1) d] cred_rows.tmap_ins [OF wfs(2) c(1)] by (simp_all add: w')
  have "abs_lc (w_db w') = (abs_lc (w_db w))\<lparr>l_devs := insert (dev_ID d) (l_devs (abs_lc (w_db w))),
      l_creds := (l_creds (abs_lc (w_db w)))(cr_ID c \<mapsto> \<lparr>lc_dev = dev_ID d, lc_st = CActive, lc_until = None\<rparr>)\<rparr>"
    unfolding abs_lc_def m using c by (auto simp: fun_eq_iff abs_cred_def)
  moreover have "dev_map (w_db w) (dev_ID d) = None" "cred_map (w_db w) (cr_ID c) = None"
    using device_rows.fresh_key [OF wfs(1)] cred_rows.fresh_key [OF wfs(2)] d c(1) by simp_all
  moreover have "wf_db (w_db w')"
    using device_rows.wf_ins [OF wfs(1) d] cred_rows.wf_ins [OF wfs(2) c(1)] wfs by (simp add: w' wf_db_def)
  ultimately show ?thesis
    using lc_step.new_device [of "dev_ID d" "abs_lc (w_db w)" "cr_ID c"] by auto
qed

section \<open>Failed runs\<close>

lemmas one_transaction = RequestRotation_def StageCandidate_def StartValidation_def
  ConfirmCredentialUse_def Rollback_def reconcile_one_def failIf_apply

lemma failed_run_keeps_tables:
  "RequestRotation env dv g w = (Inl e, w') \<Longrightarrow> w_db w' = w_db w"
  "StageCandidate env k dv key hash w = (Inl e, w') \<Longrightarrow> w_db w' = w_db w"
  "StartValidation env k dv w = (Inl e, w') \<Longrightarrow> w_db w' = w_db w"
  "ConfirmCredentialUse env i w = (Inl e, w') \<Longrightarrow> w_db w' = w_db w"
  "Rollback env k dv reason w = (Inl e, w') \<Longrightarrow> w_db w' = w_db w"
  by (auto simp: one_transaction Let_def split: if_splits dest: transaction_Inl_db)

lemma create_device_failed:
  assumes "create_device_rows env name dn ty w = (Inl e, w')"
  shows "w_db w' = w_db w"
proof -
  obtain x w1 where g: "GenerateDDNSKey env w = (x, w1)" by fastforce
  then have "w_db w1 = w_db w" by (auto simp: GenerateDDNSKey_def dest: generateKey_db)
  with assms g show ?thesis
    by (auto simp: create_device_rows_def bindE_def now_def split: sum.splits dest!: transaction_Inl_db)
qed

section \<open>The invariant of the concrete tables\<close>

definition rotation_ok :: "database \<Rightarrow> bool" where
  "rotation_ok d \<longleftrightarrow> wf_db d \<and> lc_inv (abs_lc d)"

lemma rotation_ok_empty: "rotation_ok empty_database"
proof -
  have "abs_lc empty_database = lc_init"
    by (simp add: abs_lc_def lc_init_def empty_database_def fun_eq_iff)
  then show ?thesis
    using lc_inv_init by (simp add: rotation_ok_def wf_db_def empty_database_def)
qed

lemma rotation_ok_step:
  "rotation_ok d \<Longrightarrow> wf_db d' \<and> lc_step (abs_lc d) (abs_lc d') \<Longrightarrow> rotation_ok d'"
  by (auto simp: rotation_ok_def intro: lc.inv_step)

lemma rotation_ok_steps:
  "rotation_ok d \<Longrightarrow> wf_db d' \<and> lc_step\<^sup>*\<^sup>* (abs_lc d) (abs_lc d') \<Longrightarrow> rotation_ok d'"
  by (auto simp: rotation_ok_def intro: lc.inv_steps)

text \<open>Every operation of the service keeps the invariant, whatever it returns.\<close>

lemma rotation_ok_ops:
  assumes "rotation_ok (w_db w)"
  shows "create_device_rows env name dn ty w = (r0, w') \<Longrightarrow> rotation_ok (w_db w')"
    "RequestRotation env dv g w = (r1, w') \<Longrightarrow> rotation_ok (w_db w')"
    "StageCandidate env k dv key hash w = (r2, w') \<Longrightarrow> rotation_ok (w_db w')"
    "StartValidation env k dv w = (r3, w') \<Longrightarrow> rotation_ok (w_db w')"
    "ConfirmCredentialUse env i w = (r4, w') \<Longrightarrow> rotation_ok (w_db w')"
    "Rollback env k dv reason w = (r5, w') \<Longrightarrow> rotation_ok (w_db w')"
    "ReconcileExpiredGrace env w = (r6, w') \<Longrightarrow> rotation_ok (w_db w')"
proof -
  have ok: "wf_db (w_db w)" "lc_inv (abs_lc (w_db w))" using assms by (simp_all add: rotation_ok_def)
  show "rotation_ok (w_db w')" if "create_device_rows env name dn ty w = (r0, w')"
    using that assms create_device_failed rotation_ok_step [OF assms create_device_step [OF ok(1)]]
    by (cases r0) force+
  show "rotation_ok (w_db w')" if "RequestRotation env dv g w = (r1, w')"
    using that assms failed_run_keeps_tables(1) rotation_ok_step [OF assms RequestRotation_step [OF ok(1)]]
    by (cases r1) force+
  show "rotation_ok (w_db w')" if "StageCandidate env k dv key hash w = (r2, w')"
    using that assms failed_run_keeps_tables(2) rotation_ok_step [OF assms StageCandidate_step [OF ok(1)]]
    by (cases r2) force+
  show "rotation_ok (w_db w')" if "StartValidation env k dv w = (r3, w')"
    using that assms failed_run_keeps_tables(3) rotation_ok_step [OF assms StartValidation_step [OF ok(1)]]
    by (cases r3) force+
  show "rotation_ok (w_db w')" if "ConfirmCredentialUse env i w = (r4, w')"
  proof (cases "r4 = Inr True")
    case False
    then have "(\<exists>e. r4 = Inl e) \<or> r4 = Inr False" by (cases r4) auto
    then show ?thesis using that assms failed_run_keeps_tables(4) ConfirmCredentialUse_False(1) by auto
  qed (use that rotation_ok_step [OF assms ConfirmCredentialUse_step [OF ok(1)]] in blast)
  show "rotation_ok (w_db w')" if "Rollback env k dv reason w = (r5, w')"
    using that assms failed_run_keeps_tables(5) rotation_ok_step [OF assms Rollback_step [OF ok]]
    by (cases r5) force+
  show "rotation_ok (w_db w')" if "ReconcileExpiredGrace env w = (r6, w')"
    by (rule rotation_ok_steps [OF assms ReconcileExpiredGrace_steps [OF ok(1) that]])
qed

section \<open>What a device has in a reachable state\<close>

definition active_credentials :: "database \<Rightarrow> nat \<Rightarrow> ddns_credential list" where
  "active_credentials d dv = filter (\<lambda>c. cr_DeviceID c = dv \<and> cr_Status c = CActive) (tbl_rows (creds d))"

definition open_rotations :: "database \<Rightarrow> nat \<Rightarrow> rotation list" where
  "open_rotations d dv =
     filter (\<lambda>r. rot_DeviceID r = dv \<and> rot_Status r \<in> set openRotationStatuses) (tbl_rows (rotations d))"

text \<open>The keys of the active credentials that go with an open rotation.\<close>

definition active_keys_of :: "rotation \<Rightarrow> nat list" where
  "active_keys_of r =
     (case rot_Status r of
        RValidating \<Rightarrow> rot_PreviousCredentialID r # (case rot_NewCredentialID r of None \<Rightarrow> [] | Some n \<Rightarrow> [n])
      | RGrace \<Rightarrow> (case rot_NewCredentialID r of None \<Rightarrow> [] | Some n \<Rightarrow> [n])
      | _ \<Rightarrow> [rot_PreviousCredentialID r])"

lemma active_keys_live:
  assumes "wf_db d"
  shows "set (map cr_ID (active_credentials d dv)) = {i. (i, CActive) \<in> live (l_creds (abs_lc d)) dv}"
  using cred_rows.tmap_Some [OF wf_dbD(2) [OF assms]]
  by (auto simp: active_credentials_def live_iff)

lemma distinct_active: "wf_db d \<Longrightarrow> distinct (map cr_ID (active_credentials d dv))"
  by (auto simp: active_credentials_def wf_db_def wf_table_def distinct_map_filter)

lemma open_rotations_abs:
  assumes "wf_db d"
  shows "r \<in> set (open_rotations d dv) \<longleftrightarrow>
     (rot_ID r, abs_rot r) \<in> open_rots (l_rots (abs_lc d)) dv \<and> rot_map d (rot_ID r) = Some r"
  using rot_rows.tmap_Some [OF wf_dbD(3) [OF assms]]
  by (auto simp: open_rotations_def open_rots_def)

lemma distinct_open: "wf_db d \<Longrightarrow> distinct (map rot_ID (open_rotations d dv))"
  by (auto simp: open_rotations_def wf_db_def wf_table_def distinct_map_filter)

lemma distinct_set_singleton: "distinct xs \<Longrightarrow> set xs = {a} \<Longrightarrow> xs = [a]"
  by (cases xs; cases "tl xs") auto

lemma expected_active_keys:
  "expected (abs_rot r) = Some L \<Longrightarrow> {i. (i, CActive) \<in> L} = set (active_keys_of r)"
  by (auto dest!: expectedD simp: active_keys_of_def)

lemma device_cases:
  assumes ok: "rotation_ok d" and dev: "dev_map d dv = Some x"
  obtains (idle) c where "open_rotations d dv = []" "active_credentials d dv = [c]"
  | (rotating) r where "open_rotations d dv = [r]" "rot_map d (rot_ID r) = Some r" "rot_DeviceID r = dv"
      "expected (abs_rot r) = Some (live (l_creds (abs_lc d)) dv)"
      "set (map cr_ID (active_credentials d dv)) = set (active_keys_of r)"
proof -
  have wf: "wf_db d" and inv: "lc_inv (abs_lc d)" using ok by (simp_all add: rotation_ok_def)
  have "dv \<in> l_devs (abs_lc d)" using dev by auto
  from lc_inv_dev [OF inv this] show thesis
    unfolding dev_ok_def
  proof (elim disjE conjE exE)
    fix i assume o: "open_rots (l_rots (abs_lc d)) dv = {}" and l: "live (l_creds (abs_lc d)) dv = {(i, CActive)}"
    have "set (map cr_ID (active_credentials d dv)) = {i}"
      unfolding active_keys_live [OF wf] l by auto
    then have "map cr_ID (active_credentials d dv) = [i]"
      by (rule distinct_set_singleton [OF distinct_active [OF wf]])
    moreover have "open_rotations d dv = []"
      using open_rotations_abs [OF wf, of _ dv] o by (metis empty_iff list.set_intros(1) list.exhaust)
    ultimately show thesis using idle by auto
  next
    fix k a
    assume o: "open_rots (l_rots (abs_lc d)) dv = {(k, a)}"
      and e: "expected a = Some (live (l_creds (abs_lc d)) dv)"
    have "(k, a) \<in> open_rots (l_rots (abs_lc d)) dv" using o by simp
    then obtain r where r: "rot_map d k = Some r" "a = abs_rot r" "rot_DeviceID r = dv"
      by (auto simp: open_rots_def)
    have k: "rot_ID r = k" using r(1) by (rule rot_rows.tmap_key)
    have mem: "y \<in> set (open_rotations d dv) \<longleftrightarrow> y = r" for y
      using open_rotations_abs [OF wf, of y dv] o r k by auto
    then have "set (map rot_ID (open_rotations d dv)) = {k}" using k by auto
    then have "length (open_rotations d dv) = 1"
      using distinct_set_singleton [OF distinct_open [OF wf]] by (metis length_map list.size(3,4) One_nat_def add_0)
    then have "open_rotations d dv = [r]"
      using mem by (cases "open_rotations d dv") auto
    moreover have "set (map cr_ID (active_credentials d dv)) = set (active_keys_of r)"
      unfolding active_keys_live [OF wf] by (rule expected_active_keys) (use e r(2) in simp)
    ultimately show thesis using rotating [of r] r k e by simp
  qed
qed

section \<open>Outcomes without a fault\<close>

lemmas find_active_device = device_rows.find_key_case [OF wf_dbD(1)]

lemma open_rotations_filter:
  "filter (\<lambda>r. rot_DeviceID r = dv \<and> is_open (rot_Status r)) (tbl_rows (rotations d)) = open_rotations d dv"
  by (simp add: open_rotations_def)

lemma no_clash [simp]: "\<not> list_ex (\<lambda>_. False) xs"
  by (simp add: list_ex_iff)

text \<open>What every branch of \<open>RequestRotation\<close> returns in a reachable state.\<close>

lemma RequestRotation_returns:
  assumes ok: "rotation_ok (w_db w)" and nf: "no_faults env"
  shows "fst (RequestRotation env dv g w) =
    (if g < 1 \<or> g > 1440 then Inl (ErrCredential CErrInvalidGracePeriod)
     else case dev_map (w_db w) dv of
        None \<Rightarrow> Inl (ErrCredential CErrDeviceNotFound)
      | Some d \<Rightarrow>
          if dev_Status d \<noteq> ''active'' then Inl (ErrCredential CErrDeviceNotFound)
          else if open_rotations (w_db w) dv \<noteq> [] then Inl (ErrCredential CErrRotationInProgress)
          else Inr \<lparr>rot_ID = Suc (tbl_seq (rotations (w_db w))), rot_CreatedAt = clock env (w_ticks w + 5),
                rot_DeviceID = dv, rot_PreviousCredentialID = cr_ID (hd (active_credentials (w_db w) dv)),
                rot_NewCredentialID = None, rot_Status = RRequested, rot_GraceMinutes = g,
                rot_RequestedAt = clock env (w_ticks w + 4),
                rot_StagedAt = None, rot_ValidationStartedAt = None, rot_ConfirmedAt = None,
                rot_GraceUntil = None, rot_CompletedAt = None, rot_RolledBackAt = None, rot_LastError = []\<rparr>)"
proof -
  have wf: "wf_db (w_db w)" using ok by (simp add: rotation_ok_def)
  note run = RequestRotation_def run_simps nf find_active_device [OF wf] MinGraceMinutes_def MaxGraceMinutes_def
    open_rotations_filter Let_def active_credentials_def [symmetric]
  show ?thesis
  proof (cases "dev_map (w_db w) dv")
    case None
    then show ?thesis by (simp add: run)
  next
    case (Some d)
    show ?thesis
    proof (cases rule: device_cases [OF ok Some])
      case (1 c)
      then show ?thesis by (simp add: run Some eval_nat_numeral)
    next
      case (2 r)
      then show ?thesis by (simp add: run Some)
    qed
  qed
qed

lemma CurrentRotation_returns:
  assumes ok: "rotation_ok (w_db w)" and nf: "no_faults env" and dev: "dev_map (w_db w) dv = Some d"
  shows "fst (CurrentRotation env dv w) =
    Inr (case open_rotations (w_db w) dv of [] \<Rightarrow> None | r # _ \<Rightarrow> Some r)"
  by (cases rule: device_cases [OF ok dev])
    (simp_all add: CurrentRotation_def run_simps nf open_rotations_filter newest_first_def)

text \<open>An open rotation with its credentials, read from the tables.\<close>

lemma open_rotation_rows:
  assumes ok: "rotation_ok d" and r: "rot_map d k = Some r" and op: "is_open (rot_Status r)"
  obtains (requested) p where "rot_Status r = RRequested" "rot_NewCredentialID r = None"
      "cred_map d (rot_PreviousCredentialID r) = Some p" "cr_DeviceID p = rot_DeviceID r" "cr_Status p = CActive"
  | (replacing) n p c where "rot_NewCredentialID r = Some n" "n \<noteq> rot_PreviousCredentialID r"
      "cred_map d (rot_PreviousCredentialID r) = Some p" "cr_DeviceID p = rot_DeviceID r"
      "cred_map d n = Some c" "cr_DeviceID c = rot_DeviceID r"
      "rot_Status r = RStaged \<and> cr_Status p = CActive \<and> cr_Status c = CPending \<or>
       rot_Status r = RValidating \<and> cr_Status p = CActive \<and> cr_Status c = CActive \<or>
       rot_Status r = RGrace \<and> cr_Status p = CGrace \<and> cr_Status c = CActive \<and>
         rot_GraceUntil r \<noteq> None \<and> cr_GraceUntil p = rot_GraceUntil r"
proof -
  have inv: "lc_inv (abs_lc d)" using ok by (simp add: rotation_ok_def)
  have lr: "l_rots (abs_lc d) k = Some (abs_rot r)" "is_open (lr_st (abs_rot r))" using r op by simp_all
  have dl: "deadline_ok (l_creds (abs_lc d)) (abs_rot r)" by (rule lc_inv_open(4) [OF inv lr])
  from lc_open_status [OF inv lr] show thesis
  proof (elim disjE exE conjE)
    assume "lr_st (abs_rot r) = RGrace"
    then show thesis if "lr_new (abs_rot r) = Some n" "n \<noteq> lr_prev (abs_rot r)"
      "has_cred (l_creds (abs_lc d)) (lr_prev (abs_rot r)) (lr_dev (abs_rot r)) CGrace"
      "has_cred (l_creds (abs_lc d)) n (lr_dev (abs_rot r)) CActive" for n
      using that dl replacing by (auto simp: deadline_ok_def)
  qed (use requested replacing in auto)
qed

lemmas find_rotation = rot_rows.find_key_case [OF wf_dbD(3)]
lemmas find_credential = cred_rows.find_key_case [OF wf_dbD(2)]
lemmas count_credential = cred_rows.affected_key [OF wf_dbD(2)]

lemma loadRotation_run:
  assumes "wf_db (w_db w)" "no_faults env"
  shows "loadRotation env k dv w =
    (case rot_map (w_db w) k of
       None \<Rightarrow> (Inl (ErrCredential CErrRotationNotFound), tick w)
     | Some r \<Rightarrow> if rot_DeviceID r = dv then (Inr r, tick w) else (Inl (ErrCredential CErrRotationNotFound), tick w))"
  by (simp add: loadRotation_def run_simps assms find_rotation split: option.splits)

lemma StageCandidate_returns:
  fixes key0 hash0
  defines "key \<equiv> ToLower (TrimSpace key0)" and "hash \<equiv> ToLower (TrimSpace hash0)"
  assumes ok: "rotation_ok (w_db w)" and nf: "no_faults env"
  shows "fst (StageCandidate env k dv key0 hash0 w) =
    (if \<not> validHexBytes key 8 then Inl (ErrCredential CErrInvalidCandidateKeyID)
     else if \<not> validHexBytes hash 32 then Inl (ErrCredential CErrInvalidCandidateHash)
     else case rot_map (w_db w) k of
        None \<Rightarrow> Inl (ErrCredential CErrRotationNotFound)
      | Some r \<Rightarrow>
          if rot_DeviceID r \<noteq> dv then Inl (ErrCredential CErrRotationNotFound)
          else if rot_Status r \<noteq> RRequested then Inl (ErrCredential CErrInvalidRotationState)
          else if \<exists>c \<in> set (tbl_rows (creds (w_db w))). cr_KeyID c = key then Inl DBError
          else Inr \<lparr>cr_ID = Suc (tbl_seq (creds (w_db w))), cr_CreatedAt = clock env (w_ticks w + 4), cr_DeviceID = dv,
                cr_KeyID = key, cr_SecretHash = hash, cr_Status = CPending, cr_ActivatedAt = None,
                cr_ConfirmedAt = None, cr_ExpiresAt = None, cr_RevokedAt = None,
                cr_GraceUntil = None, cr_LastUsedAt = None, cr_LastUsedIP = [],
                cr_ReplacesCredentialID = Some (rot_PreviousCredentialID r)\<rparr>)"
proof -
  have wf: "wf_db (w_db w)" using ok by (simp add: rotation_ok_def)
  note run = StageCandidate_def Let_def run_simps nf loadRotation_run find_credential wf key_def hash_def
  show ?thesis
  proof (cases "rot_map (w_db w) k")
    case None
    then show ?thesis by (simp add: run)
  next
    case (Some r)
    show ?thesis
    proof (cases "rot_Status r = RRequested")
      case False
      then show ?thesis by (simp add: run Some)
    next
      case True
      then have "is_open (rot_Status r)" by simp
      from ok Some this show ?thesis
      proof (cases rule: open_rotation_rows)
        case (requested p)
        moreover have "cr_ID p = rot_PreviousCredentialID r" using requested(3) by (rule cred_rows.tmap_key)
        ultimately show ?thesis by (auto simp add: run Some list_ex_iff eval_nat_numeral)
      qed (use True in auto)
    qed
  qed
qed

lemma StartValidation_returns:
  assumes ok: "rotation_ok (w_db w)" and nf: "no_faults env"
  shows "fst (StartValidation env k dv w) =
    (case rot_map (w_db w) k of
        None \<Rightarrow> Inl (ErrCredential CErrRotationNotFound)
      | Some r \<Rightarrow>
          if rot_DeviceID r \<noteq> dv then Inl (ErrCredential CErrRotationNotFound)
          else if rot_Status r \<noteq> RStaged then Inl (ErrCredential CErrInvalidRotationState)
          else Inr (r\<lparr>rot_Status := RValidating, rot_ValidationStartedAt := Some (clock env (w_ticks w + 2))\<rparr>))"
proof -
  have wf: "wf_db (w_db w)" using ok by (simp add: rotation_ok_def)
  note run = StartValidation_def run_simps nf loadRotation_run count_credential wf rot_rows.find_id rot_rows.tmap_upd
  show ?thesis
  proof (cases "rot_map (w_db w) k")
    case None
    then show ?thesis by (simp add: run)
  next
    case (Some r)
    have k: "rot_ID r = k" using Some by (rule rot_rows.tmap_key)
    show ?thesis
    proof (cases "rot_Status r = RStaged")
      case False
      then show ?thesis by (cases "rot_Status r") (simp_all add: run Some)
    next
      case True
      then have "is_open (rot_Status r)" by simp
      from ok Some this show ?thesis
      proof (cases rule: open_rotation_rows)
        case (replacing n p c)
        then show ?thesis by (auto simp add: run Some k True eval_nat_numeral simp del: table_simps)
      qed (use True in auto)
    qed
  qed
qed

text \<open>\<open>ConfirmCredentialUse\<close> never fails; it confirms exactly the replacement under validation.\<close>

lemma validating_credentials:
  assumes ok: "rotation_ok d" and r: "rot_map d k = Some r" "rot_NewCredentialID r = Some i" "rot_Status r = RValidating"
  obtains p c where "i \<noteq> rot_PreviousCredentialID r"
    "cred_map d (rot_PreviousCredentialID r) = Some p" "cr_DeviceID p = rot_DeviceID r" "cr_Status p = CActive"
    "cred_map d i = Some c" "cr_DeviceID c = rot_DeviceID r" "cr_Status c = CActive"
proof -
  have "is_open (rot_Status r)" using r by simp
  from ok r(1) this show thesis
    by (cases rule: open_rotation_rows) (use r(2,3) that in auto)
qed

lemma ConfirmCredentialUse_returns:
  assumes ok: "rotation_ok (w_db w)" and nf: "no_faults env"
  shows "fst (ConfirmCredentialUse env i w) =
    Inr (\<exists>r \<in> set (tbl_rows (rotations (w_db w))). rot_NewCredentialID r = Some i \<and> rot_Status r = RValidating)"
proof -
  have wf: "wf_db (w_db w)" using ok by (simp add: rotation_ok_def)
  let ?P = "\<lambda>r. rot_NewCredentialID r = Some i \<and> rot_Status r = RValidating"
  let ?up = "\<lambda>t. upd_rows (\<lambda>c. cr_ID c = i) (\<lambda>c. c\<lparr>cr_ConfirmedAt := Some t\<rparr>) (creds (w_db w))"
  have wfu: "wf_table cr_ID (?up t)" for t by (rule cred_rows.wf_upd) (simp_all add: wf_dbD(2) [OF wf])
  show ?thesis
  proof (cases "find ?P (tbl_rows (rotations (w_db w)))")
    case None
    then have "\<not> (\<exists>r \<in> set (tbl_rows (rotations (w_db w))). ?P r)" by (auto simp: find_None_iff)
    then show ?thesis by (simp add: ConfirmCredentialUse_def run_simps nf None)
  next
    case (Some r)
    from rot_rows.find_row [OF wf_dbD(3) [OF wf] Some] have r: "rot_map (w_db w) (rot_ID r) = Some r"
      "rot_NewCredentialID r = Some i" "rot_Status r = RValidating" by auto
    from ok r obtain p c where ne: "i \<noteq> rot_PreviousCredentialID r"
      and p: "cred_map (w_db w) (rot_PreviousCredentialID r) = Some p" "cr_DeviceID p = rot_DeviceID r" "cr_Status p = CActive"
      and c: "cred_map (w_db w) i = Some c" "cr_DeviceID c = rot_DeviceID r" "cr_Status c = CActive"
      by (rule validating_credentials)
    have k: "cr_ID c = i" "cr_ID p = rot_PreviousCredentialID r"
      using c(1) p(1) by (auto dest: cred_rows.tmap_key)
    have "tmap cr_ID (?up t) (rot_PreviousCredentialID r) = Some p" for t
      using p(1) ne k by (simp add: cred_rows.tmap_upd)
    moreover have "r \<in> set (tbl_rows (rotations (w_db w)))" using r(1) by (rule rot_rows.tmap_row)
    ultimately show ?thesis using r c p k
      by (auto simp: ConfirmCredentialUse_def Let_def run_simps nf Some find_credential [OF wf]
          cred_rows.affected_key [OF wfu] simp del: table_simps)
  qed
qed

text \<open>
  A confirmation starts the grace period: the replacement is marked as confirmed, the
  previous credential and the rotation carry the same deadline, and nothing else changes.
\<close>

lemma ConfirmCredentialUse_writes:
  assumes ok: "rotation_ok (w_db w)" and run: "ConfirmCredentialUse env i w = (Inr True, w')"
  obtains k r p c t g where
    "rot_map (w_db w) k = Some r" "rot_NewCredentialID r = Some i" "rot_Status r = RValidating"
    "i \<noteq> rot_PreviousCredentialID r" "g = t + duration_minutes (rot_GraceMinutes r)"
    "cred_map (w_db w) (rot_PreviousCredentialID r) = Some p" "cr_DeviceID p = rot_DeviceID r" "cr_Status p = CActive"
    "cred_map (w_db w) i = Some c" "cr_DeviceID c = rot_DeviceID r" "cr_Status c = CActive"
    "cred_map (w_db w') = (cred_map (w_db w))(i \<mapsto> c\<lparr>cr_ConfirmedAt := Some t\<rparr>,
       rot_PreviousCredentialID r \<mapsto> p\<lparr>cr_Status := CGrace, cr_GraceUntil := Some g\<rparr>)"
    "rot_map (w_db w') = (rot_map (w_db w))(k \<mapsto>
       r\<lparr>rot_Status := RGrace, rot_ConfirmedAt := Some t, rot_GraceUntil := Some g\<rparr>)"
    "dev_map (w_db w') = dev_map (w_db w)"
proof -
  have wf: "wf_db (w_db w)" using ok by (simp add: rotation_ok_def)
  show thesis using wf run
  proof (rule ConfirmCredentialUse_success)
    fix r :: rotation and c p :: ddns_credential and t :: time
    let ?g = "t + duration_minutes (rot_GraceMinutes r)" and ?pv = "rot_PreviousCredentialID r"
    let ?h = "\<lambda>c :: ddns_credential. c\<lparr>cr_ConfirmedAt := Some t\<rparr>"
    let ?m = "tmap cr_ID (upd_rows (\<lambda>c. cr_ID c = i) ?h (creds (w_db w)))"
    assume r: "rot_map (w_db w) (rot_ID r) = Some r" "rot_NewCredentialID r = Some i" "rot_Status r = RValidating"
      and c: "cred_map (w_db w) i = Some c" "cr_DeviceID c = rot_DeviceID r" "cr_Status c = CActive"
      and p: "?m ?pv = Some p" "cr_DeviceID p = rot_DeviceID r" "cr_Status p = CActive"
      and w': "w_db w' = rotations_update (upd_rows (\<lambda>x. rot_ID x = rot_ID r)
          (\<lambda>x. x\<lparr>rot_Status := RGrace, rot_ConfirmedAt := Some t, rot_GraceUntil := Some ?g\<rparr>))
          (creds_update (\<lambda>tb. upd_rows (\<lambda>c. cr_ID c = ?pv \<and> cr_DeviceID c = rot_DeviceID r \<and> cr_Status c = CActive)
            (\<lambda>c. c\<lparr>cr_Status := CGrace, cr_GraceUntil := Some ?g\<rparr>) (upd_rows (\<lambda>c. cr_ID c = i) ?h tb)) (w_db w))"
        (is "_ = rotations_update (upd_rows _ ?f) (creds_update (\<lambda>tb. upd_rows _ ?g' _) _)")
    note e = effect_rot_cred2 [where f = ?f and g = ?g' and h = ?h and
        Q = "\<lambda>c. cr_DeviceID c = rot_DeviceID r \<and> cr_Status c = CActive", OF wf r(1) _ p(1) _ _ _ w',
        simplified, OF conjI [OF p(2,3)]]
    from ok r obtain p0 where p0: "i \<noteq> ?pv" "cred_map (w_db w) ?pv = Some p0"
      by (rule validating_credentials) blast
    have m: "?m = (cred_map (w_db w))(i \<mapsto> ?h c)"
      by (rule cred_rows.tmap_upd_id) (use c in simp_all)
    then have "p = p0" using p(1) p0 by simp
    with m p0 show thesis
      by (intro that [of "rot_ID r" r ?g t p c]) (use r c p e m in simp_all)
  qed
qed

lemma Rollback_returns:
  assumes ok: "rotation_ok (w_db w)" and nf: "no_faults env"
  shows "fst (Rollback env k dv reason w) =
    (case rot_map (w_db w) k of
        None \<Rightarrow> Inl (ErrCredential CErrRotationNotFound)
      | Some r \<Rightarrow>
          if rot_DeviceID r \<noteq> dv then Inl (ErrCredential CErrRotationNotFound)
          else if \<not> is_open (rot_Status r) \<or>
                  rot_Status r = RGrace \<and> the (rot_GraceUntil r) \<le> clock env (w_ticks w + 2)
               then Inl (ErrCredential CErrInvalidRotationState)
          else Inr ())"
proof -
  have wf: "wf_db (w_db w)" using ok by (simp add: rotation_ok_def)
  have wfu: "wf_table cr_ID (upd_rows P (\<lambda>c. c\<lparr>cr_Status := CActive, cr_GraceUntil := None\<rparr>) (creds (w_db w)))" for P
    by (rule cred_rows.wf_upd) (simp_all add: wf_dbD(2) [OF wf])
  note run = Rollback_def rollback_credentials_def revokeReplacement_def run_simps nf loadRotation_run wf
    count_credential cred_rows.affected_key [OF wfu] cred_rows.tmap_upd
  show ?thesis
  proof (cases "rot_map (w_db w) k")
    case None
    then show ?thesis by (simp add: run)
  next
    case (Some r)
    show ?thesis
    proof (cases "is_open (rot_Status r)")
      case False
      then show ?thesis by (cases "rot_Status r") (simp_all add: run Some)
    next
      case True
      from ok Some this show ?thesis
      proof (cases rule: open_rotation_rows)
        case (requested p)
        then show ?thesis by (simp add: run Some)
      next
        case (replacing n p c)
        moreover have "cr_ID p = rot_PreviousCredentialID r" "cr_ID c = n"
          using replacing(3,5) by (auto dest: cred_rows.tmap_key)
        ultimately show ?thesis
          by (auto simp: run Some eval_nat_numeral simp del: table_simps)
      qed
    qed
  qed
qed

section \<open>Reconciliation of expired grace periods\<close>

definition completed_rotation :: "time \<Rightarrow> rotation \<Rightarrow> rotation" where
  "completed_rotation t r = r\<lparr>rot_Status := RCompleted, rot_CompletedAt := Some t\<rparr>"

definition revoked_credential :: "time \<Rightarrow> ddns_credential \<Rightarrow> ddns_credential" where
  "revoked_credential t c = c\<lparr>cr_Status := CRevoked, cr_RevokedAt := Some t\<rparr>"

lemma reconcile_one_expired:
  assumes ok: "rotation_ok (w_db w)" and nf: "no_faults env"
    and it: "rot_map (w_db w) (rot_ID it) = Some it" and ex: "expired_grace t it"
  obtains w' c where "reconcile_one env t it w = (Inr True, w')"
    "cred_map (w_db w) (rot_PreviousCredentialID it) = Some c" "cr_Status c = CGrace"
    "rot_map (w_db w') = (rot_map (w_db w))(rot_ID it \<mapsto> completed_rotation t it)"
    "cred_map (w_db w') = (cred_map (w_db w))(rot_PreviousCredentialID it \<mapsto> revoked_credential t c)"
    "dev_map (w_db w') = dev_map (w_db w)"
proof -
  have wf: "wf_db (w_db w)" using ok by (simp add: rotation_ok_def)
  have op: "is_open (rot_Status it)" and st: "rot_Status it = RGrace" using ex by (auto simp: expired_grace_def)
  obtain u where u: "rot_GraceUntil it = Some u" "u \<le> t" using ex by (auto simp: expired_grace_def split: option.splits)
  from ok it op obtain p where p: "cred_map (w_db w) (rot_PreviousCredentialID it) = Some p"
    "cr_DeviceID p = rot_DeviceID it" "cr_Status p = CGrace"
    by (cases rule: open_rotation_rows) (use st in auto)
  have "fst (reconcile_one env t it w) = Inr True"
    using it st u p by (auto simp: reconcile_one_def run_simps nf find_rotation [OF wf] count_credential [OF wf])
  then obtain w' where w': "reconcile_one env t it w = (Inr True, w')" by (cases "reconcile_one env t it w") auto
  from wf w' show thesis
  proof (rule reconcile_one_success)
    fix r :: rotation and c :: ddns_credential
    assume r: "rot_map (w_db w) (rot_ID it) = Some r"
      and c: "cred_map (w_db w) (rot_PreviousCredentialID r) = Some c" "cr_DeviceID c = rot_DeviceID r" "cr_Status c = CGrace"
      and db: "w_db w' = rotations_update (upd_rows (\<lambda>x. rot_ID x = rot_ID it)
        (\<lambda>x. x\<lparr>rot_Status := RCompleted, rot_CompletedAt := Some t\<rparr>))
        (creds_update (upd_rows (\<lambda>c. cr_ID c = rot_PreviousCredentialID r \<and> cr_DeviceID c = rot_DeviceID r
            \<and> cr_Status c = CGrace)
          (\<lambda>c. c\<lparr>cr_Status := CRevoked, cr_RevokedAt := Some t\<rparr>)) (w_db w))"
        (is "_ = rotations_update (upd_rows _ ?f) (creds_update (upd_rows _ ?g) _)")
    note e = effect_rot_cred [where f = ?f and g = ?g and
        Q = "\<lambda>c. cr_DeviceID c = rot_DeviceID r \<and> cr_Status c = CGrace", OF wf r _ c(1) _ _ db, simplified,
        OF conjI [OF c(2,3)]]
    have "r = it" using r it by simp
    with c e show thesis
      by (intro that [OF w', of c]) (simp_all add: completed_rotation_def revoked_credential_def)
  qed
qed

lemma reconcile_loop_expired:
  assumes "rotation_ok (w_db w)" "no_faults env" "distinct (map rot_ID items)"
    and "\<And>it. it \<in> set items \<Longrightarrow> rot_map (w_db w) (rot_ID it) = Some it \<and> expired_grace t it"
  shows "\<exists>w'. reconcile_loop env t items n w = ((n + length items, None), w') \<and>
     rot_map (w_db w') = (\<lambda>k. if k \<in> rot_ID ` set items then map_option (completed_rotation t) (rot_map (w_db w) k)
                              else rot_map (w_db w) k) \<and>
     cred_map (w_db w') = (\<lambda>i. if i \<in> rot_PreviousCredentialID ` set items
                               then map_option (revoked_credential t) (cred_map (w_db w) i) else cred_map (w_db w) i) \<and>
     dev_map (w_db w') = dev_map (w_db w)"
  using assms
proof (induction items arbitrary: n w)
  case (Cons it items)
  have "rot_map (w_db w) (rot_ID it) = Some it" "expired_grace t it" using Cons.prems(4) [of it] by simp_all
  from Cons.prems(1,2) this obtain w1 c where one: "reconcile_one env t it w = (Inr True, w1)"
    and c: "cred_map (w_db w) (rot_PreviousCredentialID it) = Some c"
    and m: "rot_map (w_db w1) = (rot_map (w_db w))(rot_ID it \<mapsto> completed_rotation t it)"
      "cred_map (w_db w1) = (cred_map (w_db w))(rot_PreviousCredentialID it \<mapsto> revoked_credential t c)"
      "dev_map (w_db w1) = dev_map (w_db w)"
    by (rule reconcile_one_expired)
  have wf: "wf_db (w_db w)" using Cons.prems(1) by (simp add: rotation_ok_def)
  have ok1: "rotation_ok (w_db w1)"
    using rotation_ok_step [OF Cons.prems(1) reconcile_one_step [OF wf one]] .
  have "\<exists>w'. reconcile_loop env t items (Suc n) w1 = ((Suc n + length items, None), w') \<and>
     rot_map (w_db w') = (\<lambda>k. if k \<in> rot_ID ` set items then map_option (completed_rotation t) (rot_map (w_db w1) k)
                              else rot_map (w_db w1) k) \<and>
     cred_map (w_db w') = (\<lambda>i. if i \<in> rot_PreviousCredentialID ` set items
                               then map_option (revoked_credential t) (cred_map (w_db w1) i) else cred_map (w_db w1) i) \<and>
     dev_map (w_db w') = dev_map (w_db w1)"
  proof (rule Cons.IH [OF ok1 Cons.prems(2)])
    fix i assume i: "i \<in> set items"
    then have "rot_ID i \<in> rot_ID ` set items" by (rule imageI)
    then have "rot_ID i \<noteq> rot_ID it" using Cons.prems(3) by auto
    then show "rot_map (w_db w1) (rot_ID i) = Some i \<and> expired_grace t i"
      using Cons.prems(4) [of i] i m(1) by simp
  qed (use Cons.prems(3) in simp)
  moreover have "revoked_credential t (revoked_credential t c) = revoked_credential t c"
    by (simp add: revoked_credential_def)
  moreover have "rot_map (w_db w) (rot_ID it) = Some it" using Cons.prems(4) by simp
  ultimately show ?case using one c m Cons.prems(3) by (auto simp: fun_eq_iff image_iff)
qed (simp add: fun_eq_iff)

section \<open>The length of the grace period\<close>

text \<open>Only lengths the request accepted are stored, so a deadline never wraps around.\<close>

definition grace_range :: "database \<Rightarrow> bool" where
  "grace_range d \<longleftrightarrow> (\<forall>r \<in> set (tbl_rows (rotations d)). 1 \<le> rot_GraceMinutes r \<and> rot_GraceMinutes r \<le> 1440)"

lemma grace_range_empty: "grace_range empty_database"
  by (simp add: grace_range_def empty_database_def empty_table_def)

lemma grace_range_upd:
  "grace_range d \<Longrightarrow> (\<And>r. rot_GraceMinutes (f r) = rot_GraceMinutes r) \<Longrightarrow>
   grace_range (rotations_update (upd_rows P f) (creds_update g d))"
  "grace_range d \<Longrightarrow> (\<And>r. rot_GraceMinutes (f r) = rot_GraceMinutes r) \<Longrightarrow>
   grace_range (rotations_update (upd_rows P f) d)"
  by (auto simp: grace_range_def)

lemma grace_range_same: "rotations d' = rotations d \<Longrightarrow> grace_range d \<Longrightarrow> grace_range d'"
  by (simp add: grace_range_def)

lemma rollback_credentials_rotations:
  "rollback_credentials env dv r w = (Inr u, w') \<Longrightarrow> rotations (w_db w') = rotations (w_db w)"
  by (cases "rot_Status r") (auto simp: rollback_credentials_def revokeReplacement_def op_simps)

lemma grace_range_reconcile_one:
  assumes "grace_range (w_db w)" "wf_db (w_db w)" "reconcile_one env t it w = (res, w')"
  shows "grace_range (w_db w')"
proof (cases "res = Inr True")
  case True
  show ?thesis using assms(2) assms(3) [unfolded True]
    by (rule reconcile_one_success) (use assms(1) in \<open>simp add: grace_range_upd\<close>)
next
  case False
  then have "(\<exists>e. res = Inl e) \<or> res = Inr False" by (cases res) auto
  then show ?thesis using assms reconcile_one_no_step by auto
qed

lemma grace_range_reconcile_loop:
  assumes "grace_range (w_db w)" "wf_db (w_db w)" "reconcile_loop env t items n w = (res, w')"
  shows "grace_range (w_db w')"
  using assms
proof (induction env t items n w rule: reconcile_loop.induct)
  case (2 env t item items completed w)
  obtain x w1 where one: "reconcile_one env t item w = (x, w1)" by fastforce
  have 1: "grace_range (w_db w1)" "wf_db (w_db w1)"
    using grace_range_reconcile_one [OF 2(2,3) one] reconcile_one_steps [OF 2(3) one] by simp_all
  show ?case
  proof (cases x)
    case (Inl e)
    with 2(4) one 1 show ?thesis by simp
  next
    case (Inr b)
    with 2(1) [OF one [symmetric] Inr 1] 2(4) one show ?thesis by simp
  qed
qed simp

lemma ReconcileExpiredGrace_loop:
  assumes "ReconcileExpiredGrace env w = (res, w')"
  obtains "w_db w' = w_db w"
  | rows w1 where "w_db w1 = w_db w" "reconcile_loop env (clock env (w_ticks w)) rows 0 w1 = (res, w')"
proof -
  obtain x w1 where s: "select env rotations (expired_grace (clock env (w_ticks w))) (tick w) = (x, w1)" by fastforce
  with select_db [OF s] assms that show thesis
    by (cases x) (auto simp: ReconcileExpiredGrace_def Let_def)
qed

lemma grace_range_reconcile:
  assumes "grace_range (w_db w)" "wf_db (w_db w)" "ReconcileExpiredGrace env w = (res, w')"
  shows "grace_range (w_db w')"
  using assms(3)
proof (rule ReconcileExpiredGrace_loop)
  show "grace_range (w_db w')" if "w_db w1 = w_db w"
    "reconcile_loop env (clock env (w_ticks w)) rows 0 w1 = (res, w')" for rows w1
    using grace_range_reconcile_loop [OF _ _ that(2)] that(1) assms(1,2) by simp
qed (use assms(1) in simp)

lemma grace_range_Rollback:
  assumes g: "grace_range (w_db w)" and wf: "wf_db (w_db w)" and run: "Rollback env k dv reason w = (res, w')"
  shows "grace_range (w_db w')"
proof (cases res)
  case (Inr r)
  show ?thesis
  proof (rule Rollback_success [OF wf run [unfolded Inr]])
    fix r w0 w1 t
    assume "w_db w0 = w_db w" "rollback_credentials env dv r w0 = (Inr (), w1)" and
      db: "w_db w' = rotations_update (upd_rows (\<lambda>x. rot_ID x = k)
        (\<lambda>x. x\<lparr>rot_Status := RRolledBack, rot_RolledBackAt := Some t, rot_LastError := reason\<rparr>)) (w_db w1)"
    then have "grace_range (w_db w1)" using rollback_credentials_rotations grace_range_same [OF _ g] by simp
    then show "grace_range (w_db w')" by (simp add: db grace_range_upd)
  qed
qed (use run failed_run_keeps_tables g in simp)

lemma grace_range_ops:
  assumes g: "grace_range (w_db w)" and ok: "rotation_ok (w_db w)"
  shows "create_device_rows env name dn ty w = (r0, w') \<Longrightarrow> grace_range (w_db w')"
    "RequestRotation env dv gm w = (r1, w') \<Longrightarrow> grace_range (w_db w')"
    "StageCandidate env k dv key hash w = (r2, w') \<Longrightarrow> grace_range (w_db w')"
    "StartValidation env k dv w = (r3, w') \<Longrightarrow> grace_range (w_db w')"
    "ConfirmCredentialUse env i w = (r4, w') \<Longrightarrow> grace_range (w_db w')"
    "Rollback env k dv reason w = (r5, w') \<Longrightarrow> grace_range (w_db w')"
    "ReconcileExpiredGrace env w = (r6, w') \<Longrightarrow> grace_range (w_db w')"
proof -
  have wf: "wf_db (w_db w)" using ok by (simp add: rotation_ok_def)
  note keep = grace_range_same [OF _ g] grace_range_upd [OF g]
  show "grace_range (w_db w')" if "create_device_rows env name dn ty w = (r0, w')"
  proof (cases r0)
    case (Inr x)
    obtain a b where x: "x = (a, b)" by fastforce
    show ?thesis
      by (rule create_device_success [OF wf that [unfolded Inr x]]) (simp add: keep)
  qed (use that create_device_failed g in simp)
  show "grace_range (w_db w')" if "RequestRotation env dv gm w = (r1, w')"
  proof (cases r1)
    case (Inr r)
    show ?thesis
      by (rule RequestRotation_success [OF wf that [unfolded Inr]]) (use g in \<open>auto simp: grace_range_def\<close>)
  qed (use that failed_run_keeps_tables g in simp)
  show "grace_range (w_db w')" if "StageCandidate env k dv key hash w = (r2, w')"
  proof (cases r2)
    case (Inr r)
    show ?thesis
      by (rule StageCandidate_success [OF wf that [unfolded Inr]]) (simp add: keep)
  qed (use that failed_run_keeps_tables g in simp)
  show "grace_range (w_db w')" if "StartValidation env k dv w = (r3, w')"
  proof (cases r3)
    case (Inr r)
    show ?thesis
      by (rule StartValidation_success [OF wf that [unfolded Inr]]) (simp add: keep)
  qed (use that failed_run_keeps_tables g in simp)
  show "grace_range (w_db w')" if "ConfirmCredentialUse env i w = (r4, w')"
  proof (cases "r4 = Inr True")
    case True
    show ?thesis
      by (rule ConfirmCredentialUse_success [OF wf that [unfolded True]]) (simp add: keep)
  next
    case False
    then have "(\<exists>e. r4 = Inl e) \<or> r4 = Inr False" by (cases r4) auto
    then show ?thesis using that g failed_run_keeps_tables(4) ConfirmCredentialUse_False(1) by auto
  qed
  show "grace_range (w_db w')" if "Rollback env k dv reason w = (r5, w')" by (rule grace_range_Rollback [OF g wf that])
  show "grace_range (w_db w')" if "ReconcileExpiredGrace env w = (r6, w')" by (rule grace_range_reconcile [OF g wf that])
qed

section \<open>Properties\<close>

text \<open>
  An operation implements a relation of the abstract lifecycle when, from a state with the
  invariant, an error leaves the tables alone and a result is a related state that has the
  invariant again.
\<close>

definition implements :: "(lifecycle \<Rightarrow> lifecycle \<Rightarrow> bool) \<Rightarrow> 'a dbop \<Rightarrow> bool" where
  "implements R f \<longleftrightarrow> (\<forall>w. rotation_ok (w_db w) \<longrightarrow>
     (case f w of
        (Inl e, w') \<Rightarrow> w_db w' = w_db w
      | (Inr x, w') \<Rightarrow> rotation_ok (w_db w') \<and> R (abs_lc (w_db w)) (abs_lc (w_db w'))))"

lemma implementsI:
  fixes f :: "'a dbop"
  assumes "\<And>w e w'. f w = (Inl e, w') \<Longrightarrow> w_db w' = w_db w"
    and "\<And>w x w'. rotation_ok (w_db w) \<Longrightarrow> f w = (Inr x, w') \<Longrightarrow>
           wf_db (w_db w') \<and> R (abs_lc (w_db w)) (abs_lc (w_db w'))"
    and "\<And>s s'. R s s' \<Longrightarrow> lc_inv s \<Longrightarrow> lc_inv s'"
  shows "implements R f"
  unfolding implements_def
proof (intro allI impI)
  fix w :: world assume ok: "rotation_ok (w_db w)"
  show "case f w of (Inl e, w') \<Rightarrow> w_db w' = w_db w
      | (Inr x, w') \<Rightarrow> rotation_ok (w_db w') \<and> R (abs_lc (w_db w)) (abs_lc (w_db w'))"
  proof (cases "f w")
    case (Pair r w')
    show ?thesis
    proof (cases r)
      case (Inl e)
      then show ?thesis using assms(1) [of w e w'] Pair by simp
    next
      case (Inr x)
      with Pair have "f w = (Inr x, w')" by simp
      from assms(2) [OF ok this] assms(3) [of "abs_lc (w_db w)" "abs_lc (w_db w')"] ok Pair Inr
      show ?thesis by (simp add: rotation_ok_def)
    qed
  qed
qed

end
