(* ===== verification/Hermes_Enrollment_Properties.thy ===== *)
theory Hermes_Enrollment_Properties
  imports Hermes_Enrollment
begin

text \<open>
  The properties of the enrollment service: the invariant of its tables under every
  operation of the two identity services, the soundness and single use of a token, the
  roll-back of a failed exchange, confirmation and revocation, and the whole way of an
  agent from a token to an authenticated request.
\<close>

section \<open>Every operation\<close>

definition keeps_enrollments :: "'a dbop \<Rightarrow> bool" where
  "keeps_enrollments f \<longleftrightarrow> (\<forall>w. enr_ok (w_db w) \<longrightarrow>
     (case f w of (res, w') \<Rightarrow> enr_ok (w_db w') \<and> evolves (w_db w) (w_db w')))"

lemma keeps_enrollmentsI:
  "(\<And>w res w'. enr_ok (w_db w) \<Longrightarrow> f w = (res, w') \<Longrightarrow> enr_ok (w_db w') \<and> evolves (w_db w) (w_db w')) \<Longrightarrow>
   keeps_enrollments f"
  by (auto simp: keeps_enrollments_def)

lemma keeps_enrollments_bind:
  assumes "keeps_enrollments m" "\<And>x. keeps_enrollments (f x)"
  shows "keeps_enrollments (bindE m f)"
  unfolding keeps_enrollments_def
proof (intro allI impI)
  fix w :: world assume ok: "enr_ok (w_db w)"
  obtain x w1 where m: "m w = (x, w1)" by fastforce
  have 1: "enr_ok (w_db w1) \<and> evolves (w_db w) (w_db w1)"
    using assms(1) ok m by (auto simp: keeps_enrollments_def)
  show "case bindE m f w of (res, w') \<Rightarrow> enr_ok (w_db w') \<and> evolves (w_db w) (w_db w')"
  proof (cases x)
    case (Inr y)
    obtain z w2 where f: "f y w1 = (z, w2)" by fastforce
    with 1 assms(2) [of y] have "enr_ok (w_db w2) \<and> evolves (w_db w1) (w_db w2)"
      by (auto simp: keeps_enrollments_def)
    with Inr m f 1 show ?thesis by (auto simp: bindE_def intro: evolves_trans)
  qed (use m 1 in \<open>simp add: bindE_def\<close>)
qed

lemma keeps_enrollments_read:
  "(\<And>w. w_db (snd (f w)) = w_db w) \<Longrightarrow> keeps_enrollments f"
  by (auto simp: keeps_enrollments_def split: prod.splits) (metis evolves_refl snd_conv)+

lemma stmt_read: "(\<And>d. snd (act d) = d) \<Longrightarrow> w_db (snd (stmt env act w)) = w_db w"
  by (auto simp: stmt_def split: prod.splits) (metis snd_conv)

lemma keeps_enrollments_reads:
  "keeps_enrollments (select env get P)" "keeps_enrollments (first env get P)"
  "keeps_enrollments (count_rows env get P)" "keeps_enrollments (ret x)" "keeps_enrollments (raise e)"
  "keeps_enrollments (orFail e y)"
  by (rule keeps_enrollments_read;
      simp add: select_def first_def count_rows_def stmt_read orFail_apply split: option.split)+

lemma keeps_enrollments_failIf: "keeps_enrollments m \<Longrightarrow> keeps_enrollments (failIf b e m)"
  by (cases b) (simp_all add: keeps_enrollments_reads)

text \<open>C10. Every operation of the enrollment and agent authentication services, whatever it returns and
  whichever statement fails, keeps the tables consistent (unique tokens, at most one open enrollment
  and one active identity per device, identities linked to their own device), deletes nothing, and
  moves a token only forward in its life: pending, issued, completed, or expired or revoked.\<close>

theorem enrollment_operations_keep_invariant:
  "keeps_enrollments (CreateEnrollment env dv ttl) \<and> keeps_enrollments (Exchange env token ip)
   \<and> keeps_enrollments (ConfirmEnrollment env dv cid ip ver) \<and> keeps_enrollments (RevokeEnrollment env dv i)
   \<and> keeps_enrollments (GetEnrollment env dv i) \<and> keeps_enrollments (ListEnrollments env dv)
   \<and> keeps_enrollments (IssueCredential env dv) \<and> keeps_enrollments (RevokeCredential env dv i)
   \<and> keeps_enrollments (AuthenticateAgent env key ip)"
proof (intro conjI)
  have rec: "keeps_enrollments (reconcileExpired env dv)"
    by (rule keeps_enrollmentsI) (rule reconcileExpired_effect)
  show "keeps_enrollments (GetEnrollment env dv i)"
    unfolding GetEnrollment_def
    by (intro keeps_enrollments_bind rec keeps_enrollments_reads)
  show "keeps_enrollments (ListEnrollments env dv)"
    unfolding ListEnrollments_def ensureDevice_def
    by (intro keeps_enrollments_bind rec keeps_enrollments_reads keeps_enrollments_failIf)
qed (rule keeps_enrollmentsI, erule (1) CreateEnrollment_effect Exchange_effect ConfirmEnrollment_effect
      RevokeEnrollment_effect IssueCredential_effect RevokeCredential_effect AuthenticateAgent_effect)+

section \<open>Exchange of a token\<close>

text \<open>C11. A successful exchange was made with the secret of a pending, unexpired token of a device
  without an active identity; it marks exactly that token as issued, links it to the new identity,
  and changes nothing else.\<close>

theorem exchange_issues_identity:
  assumes "enr_ok (w_db w)" "Exchange env token ip w = (Inr r, w')"
  shows "\<exists>i e t. enr_map (w_db w) i = Some e \<and> ParseEnrollmentKeyID token = Some (enr_TokenID e) \<and>
    enr_Status e = EPending \<and> HashAPIKey env token = enr_SecretHash e \<and> t < enr_ExpiresAt e \<and>
    \<not> active_identity (w_db w) (enr_DeviceID e) \<and>
    ex_Enrollment r = e\<lparr>enr_Status := EIssued, enr_IssuedAt := Some t, enr_UsedIP := ip,
        enr_AgentCredentialID := Some (idc_ID (ex_Credential r))\<rparr> \<and>
    idc_DeviceID (ex_Credential r) = enr_DeviceID e \<and> idc_Status (ex_Credential r) = CActive \<and>
    dev_map (w_db w) (enr_DeviceID e) = Some (ex_Device r) \<and>
    enr_map (w_db w') = (enr_map (w_db w))(i \<mapsto> ex_Enrollment r) \<and>
    ident_map (w_db w) (idc_ID (ex_Credential r)) = None \<and>
    ident_map (w_db w') = (ident_map (w_db w))(idc_ID (ex_Credential r) \<mapsto> ex_Credential r) \<and>
    dev_map (w_db w') = dev_map (w_db w)"
  using assms(2)
proof (cases rule: Exchange_cases)
  case (issued r' w0 w1 tokenID)
  then have r: "r' = r" and ok: "enr_ok (w_db w0)" using assms(1) by simp_all
  from ok issued(4) [unfolded r] show ?thesis
  proof (rule exchange_tx_writes)
    fix e t
    assume "enr_map (w_db w0) (enr_ID e) = Some e" "enr_TokenID e = tokenID" "enr_Status e = EPending"
    "HashAPIKey env token = enr_SecretHash e" "t < enr_ExpiresAt e"
    "ex_Enrollment r = e\<lparr>enr_Status := EIssued, enr_IssuedAt := Some t, enr_UsedIP := ip,
        enr_AgentCredentialID := Some (idc_ID (ex_Credential r))\<rparr>"
    "enr_map (w_db w1) = (enr_map (w_db w0))(enr_ID e \<mapsto> ex_Enrollment r)"
    "ident_map (w_db w0) (idc_ID (ex_Credential r)) = None"
    "ident_map (w_db w1) = (ident_map (w_db w0))(idc_ID (ex_Credential r) \<mapsto> ex_Credential r)"
    "idc_DeviceID (ex_Credential r) = enr_DeviceID e" "idc_Status (ex_Credential r) = CActive"
    "\<not> active_identity (w_db w0) (enr_DeviceID e)"
    "dev_map (w_db w1) = dev_map (w_db w0)" "dev_map (w_db w0) (enr_DeviceID e) = Some (ex_Device r)"
    with issued(2,3,5) show ?thesis by (intro exI [of _ "enr_ID e"] exI [of _ e] exI [of _ t]) simp
  qed
qed simp_all

lemma used_token_refused:
  assumes "enr_map d i = Some e" "enr_Status e \<noteq> EPending" "ParseEnrollmentKeyID token = Some (enr_TokenID e)"
    and "evolves d (w_db w)" "enr_ok (w_db w)"
  shows "\<exists>err. fst (Exchange env token ip w) = Inl err"
proof (cases "fst (Exchange env token ip w)")
  case (Inr r)
  then obtain w' where run: "Exchange env token ip w = (Inr r, w')" by (cases "Exchange env token ip w") auto
  then show ?thesis
  proof (cases rule: Exchange_cases)
    case (issued r' w0 w1 tokenID)
    have ok: "enr_ok (w_db w0)" using assms(5) issued(3) by simp
    from ok issued(4) show ?thesis
    proof (rule exchange_tx_success)
      fix x
      assume x: "enr_map (w_db w0) (enr_ID x) = Some x" "enr_TokenID x = tokenID" "enr_Status x = EPending"
      obtain e' where e': "enr_map (w_db w) i = Some e'" "same_token e e'" "enr_next\<^sup>*\<^sup>* (enr_Status e) (enr_Status e')"
        using evolvesD(1) [OF assms(4,1)] by blast
      have "enr_TokenID x = enr_TokenID e'" using x(2) e'(2) issued(2) assms(3) by (simp add: same_token_def)
      from enr_okD(3) [OF assms(5) _ e'(1) this] x(1) issued(3) have "enr_ID x = i" by simp
      with x e'(1) issued(3) have "enr_Status e' = EPending" by simp
      with e'(3) enr_next_irreversible assms(2) show ?thesis by auto
    qed
  qed simp_all
qed simp



section \<open>Confirmation and revocation\<close>

text \<open>A confirmation completes the device's issued enrollment once: it records the sighting of the
  device each time, and a repeated confirmation finds the completed enrollment unchanged.\<close>

lemma confirmation_completes:
  assumes "enr_ok (w_db w)" "ConfirmEnrollment env dv cid ip ver w = (Inr r, w')"
  shows "\<exists>i e t. enr_map (w_db w) i = Some e \<and> enr_DeviceID e = dv \<and> enr_AgentCredentialID e = Some cid \<and>
    enr_Status r = ECompleted \<and>
    (enr_Status e = EIssued \<and> r = e\<lparr>enr_Status := ECompleted, enr_CompletedAt := Some t\<rparr> \<or>
     enr_Status e = ECompleted \<and> r = e) \<and>
    enr_map (w_db w') = (enr_map (w_db w))(i \<mapsto> r) \<and> identities (w_db w') = identities (w_db w) \<and>
    dev_map (w_db w') dv = map_option (\<lambda>d. d\<lparr>dev_LastSeenAt := Some t, dev_LastIP := ip,
       dev_AgentVersion := (if ver \<noteq> [] then ver else dev_AgentVersion d)\<rparr>) (dev_map (w_db w) dv)"
  using assms
proof (rule ConfirmEnrollment_success)
  fix e t
  let ?f = "\<lambda>d. d\<lparr>dev_LastSeenAt := Some t, dev_LastIP := ip,
       dev_AgentVersion := (if ver \<noteq> [] then ver else dev_AgentVersion d)\<rparr>"
  assume e: "enr_map (w_db w) (enr_ID e) = Some e" "enr_DeviceID e = dv" "enr_AgentCredentialID e = Some cid"
    "enr_Status e = EIssued \<and> r = e\<lparr>enr_Status := ECompleted, enr_CompletedAt := Some t\<rparr> \<or>
     enr_Status e = ECompleted \<and> r = e"
    "enr_map (w_db w') = (enr_map (w_db w))(enr_ID e \<mapsto> r)" "identities (w_db w') = identities (w_db w)"
    and dev: "devices (w_db w') = upd_rows (\<lambda>d. dev_ID d = dv) ?f (devices (w_db w))"
  have "dev_map (w_db w') dv = map_option ?f (dev_map (w_db w) dv)"
    unfolding dev by (subst device_rows.tmap_upd) (auto simp: map_option_case dest: device_rows.tmap_key split: option.splits)
  with e show ?thesis by (intro exI [of _ "enr_ID e"] exI [of _ e] exI [of _ t]) auto
qed

text \<open>C20. A successful revocation ends the enrollment: it is revoked, a repeated revocation returns it as
  it is, and the identity that was issued for it is revoked with it.\<close>

theorem revocation_ends_enrollment:
  assumes "enr_ok (w_db w)" "RevokeEnrollment env dv i w = (Inr r, w')"
  shows "enr_map (w_db w') i = Some r \<and> enr_DeviceID r = dv \<and> enr_Status r = ERevoked \<and>
    (\<forall>e. enr_map (w_db w) i = Some e \<longrightarrow>
       (enr_Status e = ERevoked \<longrightarrow> r = e) \<and> enr_Status e \<notin> {ECompleted, EExpired} \<and>
       (enr_Status e = EIssued \<longrightarrow> (\<exists>n c. enr_AgentCredentialID e = Some n \<and> ident_map (w_db w') n = Some c \<and>
          idc_DeviceID c = dv \<and> idc_Status c = CRevoked)))"
  using assms
proof (cases rule: RevokeEnrollment_cases)
  case (revoked r' w1 w2)
  have r: "r' = r" and ok1: "enr_ok (w_db w1)" and ev: "evolves (w_db w) (w_db w1)" using revoked by simp_all
  from ok1 revoked(3) [unfolded r] show ?thesis
  proof (rule revoke_tx_success)
    fix e
    assume e: "enr_map (w_db w1) i = Some e" "enr_DeviceID e = dv" "enr_Status r = ERevoked"
      "enr_map (w_db w2) = (enr_map (w_db w1))(i \<mapsto> r)" "enr_Status e \<in> {EPending, EIssued, ERevoked}"
      "enr_Status e = ERevoked \<Longrightarrow> r = e \<and> w_db w2 = w_db w1" "same_token e r"
      and cred: "enr_Status e = EIssued \<Longrightarrow> \<exists>n c. enr_AgentCredentialID e = Some n \<and> ident_map (w_db w2) n = Some c \<and>
        idc_DeviceID c = dv \<and> idc_Status c = CRevoked"
    have old: "enr_Status x \<noteq> EPending \<Longrightarrow> x = e" if "enr_map (w_db w) i = Some x" for x
      using revoked(5) [OF that] e(1) by simp
    have "\<forall>x. enr_map (w_db w) i = Some x \<longrightarrow>
       (enr_Status x = ERevoked \<longrightarrow> r = x) \<and> enr_Status x \<notin> {ECompleted, EExpired} \<and>
       (enr_Status x = EIssued \<longrightarrow> (\<exists>n c. enr_AgentCredentialID x = Some n \<and> ident_map (w_db w2) n = Some c \<and>
          idc_DeviceID c = dv \<and> idc_Status c = CRevoked))"
    proof (intro allI impI)
      fix x assume x: "enr_map (w_db w) i = Some x"
      show "(enr_Status x = ERevoked \<longrightarrow> r = x) \<and> enr_Status x \<notin> {ECompleted, EExpired} \<and>
       (enr_Status x = EIssued \<longrightarrow> (\<exists>n c. enr_AgentCredentialID x = Some n \<and> ident_map (w_db w2) n = Some c \<and>
          idc_DeviceID c = dv \<and> idc_Status c = CRevoked))"
      proof (cases "enr_Status x = EPending")
        case False
        then have "x = e" by (rule old [OF x])
        with e(5,6) cred show ?thesis by auto
      qed simp
    qed
    with e revoked(4) r show ?thesis by (simp add: same_token_def)
  qed
qed simp

section \<open>From a token to an authenticated request\<close>

text \<open>The random source delivers, and what it delivers is not an identifier in use.\<close>

definition fresh_random :: "env \<Rightarrow> database \<Rightarrow> bool" where
  "fresh_random env d \<longleftrightarrow> rand_fills env \<and> (\<forall>n. rand_read env n 32 \<noteq> None) \<and>
     (\<forall>n. \<exists>bs. rand_read env n 8 = Some bs \<and>
        (\<forall>c \<in> set (tbl_rows (identities d)). idc_CredentialID c \<noteq> hex_encode bs))"

lemma generateKey_delivers:
  assumes "fresh_random env d"
  obtains k where "generateKey env p w = (Inr k, tick (tick w))"
    "\<forall>c \<in> set (tbl_rows (identities d)). idc_CredentialID c \<noteq> gk_ID k"
proof -
  obtain a where a: "rand_read env (w_ticks w) 8 = Some a"
    "\<forall>c \<in> set (tbl_rows (identities d)). idc_CredentialID c \<noteq> hex_encode a"
    using assms unfolding fresh_random_def by blast
  obtain b where b: "rand_read env (Suc (w_ticks w)) 32 = Some b"
    using assms unfolding fresh_random_def by blast
  show thesis
    by (rule that) (use a b in \<open>auto simp: generateKey_def bindE_def read_random_def Let_def\<close>)
qed

lemma IssueCredentialTx_run:
  assumes nf: "no_faults env" and fr: "fresh_random env (w_db w)"
    and dev: "find (\<lambda>d. dev_ID d = dv \<and> dev_Status d = ''active'') (tbl_rows (devices (w_db w))) \<noteq> None"
    and no: "\<not> active_identity (w_db w) dv" "wf_table idc_ID (identities (w_db w))"
  obtains c k w' where "IssueCredentialTx env dv w = (Inr (c, k), w')"
proof -
  obtain k where k: "generateKey env agentKeyPrefix (tick (tick w)) = (Inr k, tick (tick (tick (tick w))))"
    "\<forall>c \<in> set (tbl_rows (identities (w_db w))). idc_CredentialID c \<noteq> gk_ID k"
    by (rule generateKey_delivers [OF fr])
  have "filter (\<lambda>c. idc_DeviceID c = dv \<and> idc_Status c = CActive) (tbl_rows (identities (w_db w))) = []"
    using no ident_rows.row_tmap [OF no(2)] unfolding active_identity_def filter_empty_conv by blast
  moreover have "\<not> list_ex (\<lambda>c'. gk_ID k = idc_CredentialID c') (tbl_rows (identities (w_db w)))"
    using k(2) by (auto simp: list_ex_iff)
  ultimately have "\<exists>c w'. IssueCredentialTx env dv w = (Inr (c, k), w')"
    using dev k(1) by (auto simp: IssueCredentialTx_def GenerateAgentKey_def run_simps nf Let_def)
  then show thesis using that by blast
qed

lemma Exchange_run:
  assumes ok: "enr_ok (w_db w)" and nf: "no_faults env" and fr: "fresh_random env (w_db w)"
    and e: "enr_map (w_db w) i = Some e" "enr_Status e = EPending" "HashAPIKey env token = enr_SecretHash e"
      "ParseEnrollmentKeyID token = Some (enr_TokenID e)" "clock env (w_ticks w + 2) < enr_ExpiresAt e"
    and dev: "find (\<lambda>d. dev_ID d = enr_DeviceID e \<and> dev_Status d = ''active'') (tbl_rows (devices (w_db w))) \<noteq> None"
    and no: "\<not> active_identity (w_db w) (enr_DeviceID e)"
  obtains r w' where "Exchange env token ip w = (Inr r, w')"
proof -
  note o = enr_okD [OF ok]
  have k: "enr_ID e = i" using e(1) by (rule enr_rows.tmap_key)
  have f: "find (\<lambda>x. enr_TokenID x = enr_TokenID e) (tbl_rows (enrollments (w_db w))) = Some e"
  proof (cases "find (\<lambda>x. enr_TokenID x = enr_TokenID e) (tbl_rows (enrollments (w_db w)))")
    case None
    then show ?thesis using enr_rows.tmap_row [OF e(1)] by (auto simp: find_None_iff)
  next
    case (Some x)
    note x = enr_rows.find_row [OF o(1) Some]
    have "enr_ID x = i" by (rule o(3) [OF conjunct1 [OF x] e(1)]) (use x in simp)
    with x e(1) have "x = e" by auto
    with Some show ?thesis by simp
  qed
  let ?t = "clock env (Suc (Suc (w_ticks w)))"
  let ?f = "\<lambda>x. x\<lparr>enr_Status := EIssued, enr_IssuedAt := Some ?t, enr_UsedIP := ip\<rparr>"
  let ?w1 = "(tick (tick (tick (tick w))))\<lparr>w_db := enrollments_update
      (upd_rows (\<lambda>x. enr_ID x = enr_ID e \<and> enr_Status x = EPending) ?f) (w_db w)\<rparr>"
  have fr1: "fresh_random env (w_db ?w1)" using fr by (simp add: fresh_random_def)
  have no1: "\<not> active_identity (w_db ?w1) (enr_DeviceID e)" using no by (simp add: active_identity_def)
  have wf1: "wf_table idc_ID (identities (w_db ?w1))" using ident_okD(1) [OF o(2)] by simp
  have dev1: "find (\<lambda>d. dev_ID d = enr_DeviceID e \<and> dev_Status d = ''active'') (tbl_rows (devices (w_db ?w1))) \<noteq> None"
    using dev by simp
  obtain c ak w2 where issue: "IssueCredentialTx env (enr_DeviceID e) ?w1 = (Inr (c, ak), w2)"
    by (rule IssueCredentialTx_run [OF nf fr1 dev1 no1 wf1])
  have dev2: "find (\<lambda>d. dev_ID d = enr_DeviceID e) (tbl_rows (devices (w_db w2))) \<noteq> None"
    using dev IssueCredentialTx_success(1) [OF issue] by (auto simp: find_None_iff)
  have cnt: "length (filter (\<lambda>x. enr_ID x = enr_ID e \<and> enr_Status x = EPending) (tbl_rows (enrollments (w_db w)))) = 1"
    unfolding enr_rows.affected_key [OF o(1)] using e k by simp
  obtain r w3 where "exchange_tx env token (enr_TokenID e) ip (tick w) = (Inr (Inr r), w3)"
    using issue dev2 f e cnt
    by (auto simp: exchange_tx_def run_simps nf VerifyAPIKey_iff eval_nat_numeral simp del: table_simps)
  then show thesis
    using that e(4) by (simp add: Exchange_def run_simps nf)
qed

lemma created_exchange:
  assumes ok: "enr_ok (w_db w)"
    and nf: "no_faults env" and fr: "fresh_random env (w_db w)"
    and create: "CreateEnrollment env dv ttl w = (Inr (e, k), w1)"
    and intime: "clock env (w_ticks w1 + 2) < enr_ExpiresAt e"
  obtains r w2 where "Exchange env (gk_Plaintext k) ip w1 = (Inr r, w2)"
    "enr_map (w_db w1) (enr_ID e) = Some e" "enr_DeviceID e = dv"
    "ParseEnrollmentKeyID (gk_Plaintext k) = Some (enr_TokenID e)"
    "devices (w_db w1) = devices (w_db w)" "enr_ok (w_db w1)" "enr_ok (w_db w2)"
    "find (\<lambda>d. dev_ID d = dv \<and> dev_Status d = ''active'') (tbl_rows (devices (w_db w))) \<noteq> None"
proof -
  have fills: "rand_fills env" using fr by (simp add: fresh_random_def)
  obtain wa wb where gen: "generateKey env enrollmentKeyPrefix wa = (Inr k, wb)" using CreateEnrollment_key [OF create] by blast
  note key = generated_key_parses [OF fills gen]
  have ok1: "enr_ok (w_db w1)" using CreateEnrollment_effect [OF ok create] by simp
  from create obtain d1 t where
    d1: "d1 = enrollments_update (upd_rows (\<lambda>e. enr_Status e = EPending \<and> enr_ExpiresAt e \<le> t
      \<and> (dv \<noteq> 0 \<longrightarrow> enr_DeviceID e = dv)) (\<lambda>e. e\<lparr>enr_Status := EExpired\<rparr>)) (w_db w)"
    and e: "enr_DeviceID e = dv" "enr_Status e = EPending" "enr_TokenID e = gk_ID k" "enr_SecretHash e = gk_Hash k"
    and pre: "find (\<lambda>d. dev_ID d = dv \<and> dev_Status d = ''active'') (tbl_rows (devices (w_db w))) \<noteq> None"
      "filter (\<lambda>c. idc_DeviceID c = dv \<and> idc_Status c = CActive) (tbl_rows (identities (w_db w))) = []"
    and db: "w_db w1 = enrollments_update (ins_row e) d1"
    by (rule CreateEnrollment_success)
  have tabs: "identities (w_db w1) = identities (w_db w)" "devices (w_db w1) = devices (w_db w)" by (simp_all add: db d1)
  have m: "enr_map (w_db w1) (enr_ID e) = Some e"
    by (rule enr_rows.row_tmap [OF enr_okD(1) [OF ok1]]) (simp add: db)
  have no: "\<not> active_identity (w_db w1) (enr_DeviceID e)"
    using pre(2) ident_rows.tmap_row by (fastforce simp: active_identity_def filter_empty_conv tabs e)
  have hash: "HashAPIKey env (gk_Plaintext k) = enr_SecretHash e" using key(2) e(4) by (simp add: VerifyAPIKey_iff)
  have parse: "ParseEnrollmentKeyID (gk_Plaintext k) = Some (enr_TokenID e)" using key(1) e(3) by (simp add: ParseEnrollmentKeyID_def)
  have dev: "find (\<lambda>d. dev_ID d = enr_DeviceID e \<and> dev_Status d = ''active'') (tbl_rows (devices (w_db w1))) \<noteq> None"
    using pre(1) tabs e by simp
  have fr1: "fresh_random env (w_db w1)" using fr tabs by (simp add: fresh_random_def)
  obtain r w2 where run: "Exchange env (gk_Plaintext k) ip w1 = (Inr r, w2)"
    by (rule Exchange_run [OF ok1 nf fr1 m e(2) hash parse intime dev no])
  show thesis by (rule that [OF run m e(1) parse tabs(2) ok1 Exchange_effect [OF ok1 run, THEN conjunct1] pre(1)])
qed

text \<open>The identity that an exchange issues is one for the device of the token, which is then spent.\<close>

lemma exchange_issues_for:
  assumes ok: "enr_ok (w_db w0)" and e: "enr_map (w_db w0) (enr_ID e) = Some e"
    and tx: "exchange_tx env token (enr_TokenID e) ip w0 = (Inr (Inr r), w3)"
  obtains wx wy where "IssueCredentialTx env (enr_DeviceID e) wx = (Inr (ex_Credential r, ex_AgentKey r), wy)"
    "ident_map (w_db w3) (idc_ID (ex_Credential r)) = Some (ex_Credential r)" "devices (w_db w3) = devices (w_db w0)"
    "enr_map (w_db w3) (enr_ID e) = Some (ex_Enrollment r)" "enr_Status (ex_Enrollment r) = EIssued"
    "enr_TokenID (ex_Enrollment r) = enr_TokenID e"
  using ok tx
proof (rule exchange_tx_writes)
  fix e1 t
  assume e1: "enr_map (w_db w0) (enr_ID e1) = Some e1" "enr_TokenID e1 = enr_TokenID e"
    and exr: "ex_Enrollment r = e1\<lparr>enr_Status := EIssued, enr_IssuedAt := Some t, enr_UsedIP := ip,
      enr_AgentCredentialID := Some (idc_ID (ex_Credential r))\<rparr>"
    and em: "enr_map (w_db w3) = (enr_map (w_db w0))(enr_ID e1 \<mapsto> ex_Enrollment r)"
    and im: "ident_map (w_db w3) = (ident_map (w_db w0))(idc_ID (ex_Credential r) \<mapsto> ex_Credential r)"
    and dm: "devices (w_db w3) = devices (w_db w0)"
    and issue: "\<exists>wx wy. IssueCredentialTx env (enr_DeviceID e1) wx = (Inr (ex_Credential r, ex_AgentKey r), wy)"
  have id: "enr_ID e1 = enr_ID e" by (rule enr_okD(3) [OF ok e1(1) e e1(2)])
  then have "Some e1 = Some e" using e1(1) e by metis
  then have "e1 = e" by simp
  with issue obtain wx wy where "IssueCredentialTx env (enr_DeviceID e) wx = (Inr (ex_Credential r, ex_AgentKey r), wy)" by blast
  moreover have "enr_map (w_db w3) (enr_ID e) = Some (ex_Enrollment r)" by (simp add: em id)
  moreover have "enr_Status (ex_Enrollment r) = EIssued" "enr_TokenID (ex_Enrollment r) = enr_TokenID e"
    using e1(2) by (simp_all add: exr)
  moreover have "ident_map (w_db w3) (idc_ID (ex_Credential r)) = Some (ex_Credential r)" using im by simp
  ultimately show thesis using that dm by blast
qed

text \<open>C21. The way of a new agent, with a database and a random source that deliver: a token created for
  a device is accepted before it expires, the key it is exchanged for authenticates as that
  device, and the token is then spent.\<close>

theorem agent_onboarding:
  assumes ok: "enr_ok (w_db w)" and wfd: "wf_table dev_ID (devices (w_db w))"
    and nf: "no_faults env" and fr: "fresh_random env (w_db w)"
    and create: "CreateEnrollment env dv ttl w = (Inr (e, k), w1)"
    and intime: "clock env (w_ticks w1 + 2) < enr_ExpiresAt e"
  shows "\<exists>r w2 x c'. Exchange env (gk_Plaintext k) ip w1 = (Inr r, w2) \<and>
    fst (AuthenticateAgent env (gk_Plaintext (ex_AgentKey r)) ip w2) = Inr (x, c') \<and> dev_ID x = dv \<and>
    (\<exists>err. fst (Exchange env (gk_Plaintext k) ip w2) = Inl err)"
proof -
  have fills: "rand_fills env" using fr by (simp add: fresh_random_def)
  obtain r w2 where run: "Exchange env (gk_Plaintext k) ip w1 = (Inr r, w2)"
    and m: "enr_map (w_db w1) (enr_ID e) = Some e" and e: "enr_DeviceID e = dv"
    and parse: "ParseEnrollmentKeyID (gk_Plaintext k) = Some (enr_TokenID e)"
    and tabs: "devices (w_db w1) = devices (w_db w)" and ok1: "enr_ok (w_db w1)" and ok2: "enr_ok (w_db w2)"
    and pre: "find (\<lambda>d. dev_ID d = dv \<and> dev_Status d = ''active'') (tbl_rows (devices (w_db w))) \<noteq> None"
    by (rule created_exchange [OF ok nf fr create intime])
  from run obtain w0 w3 where tx: "exchange_tx env (gk_Plaintext k) (enr_TokenID e) ip w0 = (Inr (Inr r), w3)"
    and w0: "w_db w0 = w_db w1" and w3: "w_db w2 = w_db w3"
    by (cases rule: Exchange_cases) (use parse in auto)
  obtain x where x: "dev_map (w_db w1) dv = Some x" "dev_Status x = ''active''"
    using pre wfd tabs by (auto simp: device_rows.find_key_case split: option.splits if_splits)
  obtain wx wy where issue: "IssueCredentialTx env dv wx = (Inr (ex_Credential r, ex_AgentKey r), wy)"
    and im: "ident_map (w_db w3) (idc_ID (ex_Credential r)) = Some (ex_Credential r)" and dm: "devices (w_db w3) = devices (w_db w1)"
    and em: "enr_map (w_db w3) (enr_ID e) = Some (ex_Enrollment r)" "enr_Status (ex_Enrollment r) = EIssued"
      "enr_TokenID (ex_Enrollment r) = enr_TokenID e"
    by (rule exchange_issues_for [of w0 e, unfolded w0 e, OF ok1 m tx])
  obtain wz ww where gen: "generateKey env agentKeyPrefix wz = (Inr (ex_AgentKey r), ww)"
    using IssueCredentialTx_key [OF issue] by blast
  note key = generated_key_parses [OF fills gen] and s = IssueCredentialTx_success(3-7) [OF issue]
  have "accepts_key env (w_db w2) (clock env (Suc (w_ticks w2))) (gk_Plaintext (ex_AgentKey r)) (ex_Credential r) x"
    unfolding accepts_key_def using key s x im dm w3 by (simp add: ParseAgentKeyID_def VerifyAPIKey_iff has_expired_def)
  moreover have "wf_table dev_ID (devices (w_db w2))" using wfd dm tabs w3 by simp
  ultimately have "fst (AuthenticateAgent env (gk_Plaintext (ex_AgentKey r)) ip w2) = Inr (x,
      (ex_Credential r)\<lparr>idc_LastUsedAt := Some (clock env (Suc (w_ticks w2))), idc_LastUsedIP := ip\<rparr>)"
    by (rule AuthenticateAgent_accepts [OF enr_okD(2) [OF ok2] _ nf, rotated])
  moreover have "\<exists>err. fst (Exchange env (gk_Plaintext k) ip w2) = Inl err"
    by (rule used_token_refused [OF em(1) [folded w3] _ _ evolves_refl ok2]) (simp_all add: em(2,3) parse)
  ultimately show ?thesis using run device_rows.tmap_key [OF x(1)] by blast
qed

section \<open>Instances\<close>

lemma demo_fresh: "identities d = empty_table \<Longrightarrow> fresh_random demo_env d"
  by (simp add: fresh_random_def demo_fills) (simp add: demo_env_def empty_table_def)

lemma demo_enr_ok: "enr_ok (w_db demo_base)"
  using demo_ident_ok(1) by (simp add: enr_ok_def)

lemma demo_ttl: "duration_minutes 15 = 900000000000"
  by (simp add: duration_minutes_exact)

lemma demo_created:
  obtains e k w1 where "CreateEnrollment demo_env 1 15 demo_base = (Inr (e, k), w1)"
    "clock demo_env (w_ticks w1 + 2) < enr_ExpiresAt e"
proof -
  have "\<forall>w. \<exists>k. GenerateEnrollmentKey demo_env w = (Inr k, tick (tick w))"
    by (simp add: GenerateEnrollmentKey_def generateKey_def bindE_def read_random_def Let_def demo_env_def)
  then obtain g where g: "\<And>w. GenerateEnrollmentKey demo_env w = (Inr (g w), tick (tick w))" by metis
  have "\<exists>e k w1. CreateEnrollment demo_env 1 15 demo_base = (Inr (e, k), w1) \<and> clock demo_env (w_ticks w1 + 2) < enr_ExpiresAt e"
    by (simp add: CreateEnrollment_def expirePending_def run_simps demo_no_faults g Let_def demo_device_def empty_table_def
        MinTTLMinutes_def MaxTTLMinutes_def demo_ttl)
  with that show thesis by blast
qed

definition demo_identity :: identity_credential where
  "demo_identity = \<lparr>idc_ID = 1, idc_CreatedAt = 0, idc_DeviceID = 1, idc_CredentialID = ''00ff'', idc_SecretHash = ''h'',
     idc_Status = CActive, idc_ActivatedAt = Some 0, idc_ExpiresAt = None, idc_RevokedAt = None, idc_LastUsedAt = None,
     idc_LastUsedIP = []\<rparr>"

definition demo_issued :: enrollment where
  "demo_issued = \<lparr>enr_ID = 1, enr_CreatedAt = 0, enr_DeviceID = 1, enr_TokenID = ''00aa'', enr_SecretHash = ''t'',
     enr_Status = EIssued, enr_ExpiresAt = 900000000000, enr_IssuedAt = Some 0, enr_CompletedAt = None,
     enr_RevokedAt = None, enr_UsedIP = ''192.0.2.1'', enr_AgentCredentialID = Some 1\<rparr>"

text \<open>A world in which a device has exchanged its token and not yet confirmed.\<close>

definition demo_enrolled :: world where
  "demo_enrolled = demo_base\<lparr>w_db := (w_db demo_base)\<lparr>identities := \<lparr>tbl_rows = [demo_identity], tbl_seq = 1\<rparr>,
     enrollments := \<lparr>tbl_rows = [demo_issued], tbl_seq = 1\<rparr>\<rparr>\<rparr>"

lemma demo_enrolled_simps [simp]:
  "w_ticks demo_enrolled = 0" "devices (w_db demo_enrolled) = \<lparr>tbl_rows = [demo_device], tbl_seq = 1\<rparr>"
  "identities (w_db demo_enrolled) = \<lparr>tbl_rows = [demo_identity], tbl_seq = 1\<rparr>"
  "enrollments (w_db demo_enrolled) = \<lparr>tbl_rows = [demo_issued], tbl_seq = 1\<rparr>"
  by (simp_all add: demo_enrolled_def)

lemma demo_enrolled_ok: "enr_ok (w_db demo_enrolled)"
  by (simp add: enr_ok_def ident_ok_def wf_table_def tmap_def demo_issued_def demo_identity_def enr_row_ok_def)

lemma demo_exchanged:
  obtains e k w1 r w2 where "CreateEnrollment demo_env 1 15 demo_base = (Inr (e, k), w1)"
    "Exchange demo_env (gk_Plaintext k) ''192.0.2.1'' w1 = (Inr r, w2)" "enr_ok (w_db w1)"
proof -
  obtain e k w1 where c: "CreateEnrollment demo_env 1 15 demo_base = (Inr (e, k), w1)"
    "clock demo_env (w_ticks w1 + 2) < enr_ExpiresAt e" by (rule demo_created)
  have "fresh_random demo_env (w_db demo_base)" by (rule demo_fresh) simp
  then show thesis by (rule created_exchange [OF demo_enr_ok demo_no_faults _ c]) (rule that [OF c(1)])
qed

theorem exchange_issues_identity_witness:
  "\<exists>(k :: generated_key) r (w :: world) w'. Exchange demo_env (gk_Plaintext k) ''192.0.2.1'' w = (Inr r, w') \<and>
     enr_Status (ex_Enrollment r) = EIssued \<and> idc_Status (ex_Credential r) = CActive"
proof -
  obtain e k w1 r w2 where run: "CreateEnrollment demo_env 1 15 demo_base = (Inr (e, k), w1)"
    "Exchange demo_env (gk_Plaintext k) ''192.0.2.1'' w1 = (Inr r, w2)" "enr_ok (w_db w1)" by (rule demo_exchanged)
  have "enr_Status (ex_Enrollment r) = EIssued \<and> idc_Status (ex_Credential r) = CActive"
    using exchange_issues_identity [OF run(3,2)] by auto
  with run(2) show ?thesis by blast
qed



theorem revocation_ends_enrollment_witness:
  "\<exists>r w' c. RevokeEnrollment demo_env 1 1 demo_enrolled = (Inr r, w') \<and> enr_Status r = ERevoked \<and>
     ident_map (w_db w') 1 = Some c \<and> idc_Status c = CRevoked"
proof -
  have "\<exists>r w'. RevokeEnrollment demo_env 1 1 demo_enrolled = (Inr r, w')"
    by (simp add: RevokeEnrollment_def reconcileExpired_def expirePending_def revoke_tx_def revoke_issued_def
        RevokeCredentialTx_def run_simps demo_no_faults demo_issued_def demo_identity_def open_status_def)
  then obtain r w' where run: "RevokeEnrollment demo_env 1 1 demo_enrolled = (Inr r, w')" by blast
  from revocation_ends_enrollment [OF demo_enrolled_ok run] run show ?thesis
    by (auto simp: tmap_def demo_issued_def)
qed

theorem agent_onboarding_witness:
  "\<exists>e k w1 r w2 x c'. CreateEnrollment demo_env 1 15 demo_base = (Inr (e, k), w1) \<and>
     Exchange demo_env (gk_Plaintext k) ''192.0.2.1'' w1 = (Inr r, w2) \<and>
     fst (AuthenticateAgent demo_env (gk_Plaintext (ex_AgentKey r)) ''192.0.2.1'' w2) = Inr (x, c') \<and> dev_ID x = 1"
proof -
  obtain e k w1 where c: "CreateEnrollment demo_env 1 15 demo_base = (Inr (e, k), w1)"
    "clock demo_env (w_ticks w1 + 2) < enr_ExpiresAt e" by (rule demo_created)
  have "fresh_random demo_env (w_db demo_base)" by (rule demo_fresh) simp
  from agent_onboarding [OF demo_enr_ok demo_ident_ok(2) demo_no_faults this c, of "''192.0.2.1''"] c(1) show ?thesis by blast
qed

end
