(* ===== verification/Hermes_Server.thy ===== *)
theory Hermes_Server
  imports Hermes_Frames Hermes_Rotation Hermes_Enrollment_Properties
begin

text \<open>
  The server as a whole: the invariants of all components hold together in every state that
  requests, runs of the reconciler and restarts can reach. Each service changes its own
  tables only (\<open>Hermes_Frames\<close>), so its own invariant is all that has to be shown for it.
\<close>

section \<open>The state of the server\<close>

text \<open>The invariants of all components together.\<close>

definition server_ok :: "database \<Rightarrow> bool" where
  "server_ok d \<longleftrightarrow> rotation_ok d \<and> grace_range d \<and> enr_ok d \<and> tel_ok d \<and> net_ok d \<and> hosts_ok d \<and> domains_ok d \<and>
     distinct (map dev_Name (tbl_rows (devices d)))"

lemma dev_keysD:
  assumes "dev_keys d' = dev_keys d"
  shows "wf_table dev_ID (devices d') = wf_table dev_ID (devices d)" "dom (dev_map d') = dom (dev_map d)"
    "map dev_Name (tbl_rows (devices d')) = map dev_Name (tbl_rows (devices d))"
proof -
  from assms have rows: "map (\<lambda>x. (dev_ID x, dev_Name x)) (tbl_rows (devices d')) = map (\<lambda>x. (dev_ID x, dev_Name x)) (tbl_rows (devices d))"
    and seq: "tbl_seq (devices d') = tbl_seq (devices d)" by (simp_all add: dev_keys_def)
  from arg_cong [OF rows, of "map fst"] have ids: "map dev_ID (tbl_rows (devices d')) = map dev_ID (tbl_rows (devices d))"
    by (simp add: comp_def)
  from arg_cong [OF rows, of "map snd"] show "map dev_Name (tbl_rows (devices d')) = map dev_Name (tbl_rows (devices d))"
    by (simp add: comp_def)
  from arg_cong [OF ids, of set] have keys: "dev_ID ` set (tbl_rows (devices d')) = dev_ID ` set (tbl_rows (devices d))" by simp
  have wf: "wf_table dev_ID t \<longleftrightarrow> distinct (map dev_ID (tbl_rows t)) \<and> (\<forall>i \<in> dev_ID ` set (tbl_rows t). 1 \<le> i \<and> i \<le> tbl_seq t)" for t
    by (simp add: wf_table_def)
  show "wf_table dev_ID (devices d') = wf_table dev_ID (devices d)" unfolding wf ids keys seq ..
  have dom: "i \<in> dom (dev_map x) \<longleftrightarrow> i \<in> dev_ID ` set (tbl_rows (devices x))" for x i
    by (auto simp: dom_def tmap_def find_None_iff image_iff simp flip: not_None_eq) blast?
  show "dom (dev_map d') = dom (dev_map d)" by (rule set_eqI) (simp only: dom keys)
qed

lemma cred_factsD:
  assumes "cred_facts d' = cred_facts d"
  shows "wf_table cr_ID (creds d') = wf_table cr_ID (creds d)"
    "map_option abs_cred (cred_map d' i) = map_option abs_cred (cred_map d i)"
proof -
  let ?clear = "\<lambda>c :: ddns_credential. c\<lparr>cr_LastUsedAt := None, cr_LastUsedIP := []\<rparr>"
  from assms have rows: "map ?clear (tbl_rows (creds d')) = map ?clear (tbl_rows (creds d))"
    and seq: "tbl_seq (creds d') = tbl_seq (creds d)" by (simp_all add: cred_facts_def)
  have id: "cr_ID (?clear c) = cr_ID c" and ab: "abs_cred (?clear c) = abs_cred c" for c by (simp_all add: abs_cred_def)
  from arg_cong [OF rows, of "map cr_ID"] have ids: "map cr_ID (tbl_rows (creds d')) = map cr_ID (tbl_rows (creds d))"
    by (simp add: comp_def)
  from arg_cong [OF ids, of set] have keys: "cr_ID ` set (tbl_rows (creds d')) = cr_ID ` set (tbl_rows (creds d))" by simp
  have wf: "wf_table cr_ID t \<longleftrightarrow> distinct (map cr_ID (tbl_rows t)) \<and> (\<forall>i \<in> cr_ID ` set (tbl_rows t). 1 \<le> i \<and> i \<le> tbl_seq t)" for t
    by (simp add: wf_table_def)
  show "wf_table cr_ID (creds d') = wf_table cr_ID (creds d)" unfolding wf ids keys seq ..
  have f: "map_option abs_cred (find (\<lambda>c. cr_ID c = i) cs) = map_option abs_cred (find (\<lambda>c. cr_ID c = i) (map ?clear cs))" for cs
    by (induction cs) (simp_all add: abs_cred_def)
  show "map_option abs_cred (cred_map d' i) = map_option abs_cred (cred_map d i)"
    unfolding tmap_def using f [of "tbl_rows (creds d')"] f [of "tbl_rows (creds d)"] rows by simp
qed

lemma rotation_ok_cong:
  assumes "dev_keys d' = dev_keys d" "cred_facts d' = cred_facts d" "rotations d' = rotations d"
  shows "rotation_ok d \<Longrightarrow> rotation_ok d'"
proof -
  have "abs_lc d' = abs_lc d"
    using dev_keysD(2) [OF assms(1)] cred_factsD(2) [OF assms(2)] assms(3) by (simp add: abs_lc_def fun_eq_iff)
  then show "rotation_ok d \<Longrightarrow> rotation_ok d'"
    using dev_keysD(1) [OF assms(1)] cred_factsD(1) [OF assms(2)] assms(3) by (simp add: rotation_ok_def wf_db_def)
qed

lemma part_congs:
  "enr_part d' = enr_part d \<Longrightarrow> enr_ok d \<Longrightarrow> enr_ok d'"
  "telemetries d' = telemetries d \<Longrightarrow> tel_ok d \<Longrightarrow> tel_ok d'"
  "net_part d' = net_part d \<Longrightarrow> net_ok d \<Longrightarrow> net_ok d'"
  "name_part d' = name_part d \<Longrightarrow> hosts_ok d \<Longrightarrow> hosts_ok d'"
  "name_part d' = name_part d \<Longrightarrow> domains_ok d \<Longrightarrow> domains_ok d'"
  "rotations d' = rotations d \<Longrightarrow> grace_range d \<Longrightarrow> grace_range d'"
  by (simp_all add: part_defs enr_ok_def ident_ok_def enr_row_ok_def tel_ok_def net_ok_def net_snapshot_of_def device_wans_def
      device_segments_def hosts_ok_def domains_ok_def grace_range_def)

lemma server_ok_transfer:
  assumes "server_ok d" "dev_keys d' = dev_keys d"
    and "rotation_ok d \<Longrightarrow> grace_range d \<Longrightarrow> rotation_ok d' \<and> grace_range d'"
    and "enr_ok d \<Longrightarrow> enr_ok d'" "tel_ok d \<Longrightarrow> tel_ok d'" "net_ok d \<Longrightarrow> net_ok d'"
    and "hosts_ok d \<Longrightarrow> domains_ok d \<Longrightarrow> hosts_ok d' \<and> domains_ok d'"
  shows "server_ok d'"
  using assms(1) assms(3-7) dev_keysD(3) [OF assms(2)] unfolding server_ok_def by presburger

section \<open>Preserving the invariant\<close>

named_theorems preserves

definition preserves :: "(database \<Rightarrow> bool) \<Rightarrow> (world \<Rightarrow> 'r \<times> world) \<Rightarrow> bool" where
  "preserves I m \<longleftrightarrow> (\<forall>w. I (w_db w) \<longrightarrow> I (w_db (snd (m w))))"

lemma preservesI: "(\<And>w r w'. I (w_db w) \<Longrightarrow> m w = (r, w') \<Longrightarrow> I (w_db w')) \<Longrightarrow> preserves I m"
  by (metis preserves_def prod.collapse)

lemma preservesD: "preserves I m \<Longrightarrow> m w = (r, w') \<Longrightarrow> I (w_db w) \<Longrightarrow> I (w_db w')"
  by (metis preserves_def snd_conv)

lemma preserves_keeps: "keeps (\<lambda>d. d) m \<Longrightarrow> preserves I m"
  by (simp add: preserves_def keeps_def)

lemmas beyond_defs = beyond_credentials_def beyond_enrollment_def beyond_telemetry_def beyond_network_def
  beyond_names_def beyond_devices_def beyond_sighting_def

text \<open>An operation of one component preserves the invariant of the server when it preserves that of its own.\<close>

lemma server_ok_component:
  assumes ok: "server_ok d"
  shows "beyond_credentials d' = beyond_credentials d \<Longrightarrow> (rotation_ok d \<Longrightarrow> grace_range d \<Longrightarrow> rotation_ok d' \<and> grace_range d') \<Longrightarrow> server_ok d'"
    and "beyond_enrollment d' = beyond_enrollment d \<Longrightarrow> (enr_ok d \<Longrightarrow> enr_ok d') \<Longrightarrow> server_ok d'"
    and "beyond_telemetry d' = beyond_telemetry d \<Longrightarrow> (tel_ok d \<Longrightarrow> tel_ok d') \<Longrightarrow> server_ok d'"
    and "beyond_network d' = beyond_network d \<Longrightarrow> (net_ok d \<Longrightarrow> net_ok d') \<Longrightarrow> server_ok d'"
    and "beyond_names d' = beyond_names d \<Longrightarrow> (hosts_ok d \<Longrightarrow> domains_ok d \<Longrightarrow> hosts_ok d' \<and> domains_ok d') \<Longrightarrow> server_ok d'"
    and "beyond_sighting d' = beyond_sighting d \<Longrightarrow> server_ok d'"
proof -
  note same = part_congs [of d' d] rotation_ok_cong [of d' d]
  note I = server_ok_transfer [OF ok, of d'] 
  show "server_ok d'" if "beyond_credentials d' = beyond_credentials d" "rotation_ok d \<Longrightarrow> grace_range d \<Longrightarrow> rotation_ok d' \<and> grace_range d'"
    using that(1) unfolding beyond_defs prod.inject by (intro I that(2)) (blast intro: same)+
  show "server_ok d'" if "beyond_enrollment d' = beyond_enrollment d" "enr_ok d \<Longrightarrow> enr_ok d'"
    using that(1) unfolding beyond_defs prod.inject by (intro I that(2)) (blast intro: same)+
  show "server_ok d'" if "beyond_telemetry d' = beyond_telemetry d" "tel_ok d \<Longrightarrow> tel_ok d'"
    using that(1) unfolding beyond_defs prod.inject by (intro I that(2)) (blast intro: same)+
  show "server_ok d'" if "beyond_network d' = beyond_network d" "net_ok d \<Longrightarrow> net_ok d'"
    using that(1) unfolding beyond_defs prod.inject by (intro I that(2)) (blast intro: same)+
  show "server_ok d'" if "beyond_names d' = beyond_names d" "hosts_ok d \<Longrightarrow> domains_ok d \<Longrightarrow> hosts_ok d' \<and> domains_ok d'"
    using that(1) unfolding beyond_defs prod.inject by (intro I that(2)) (blast intro: same)+
  show "server_ok d'" if "beyond_sighting d' = beyond_sighting d"
    using that(1) unfolding beyond_defs prod.inject by (intro I) (blast intro: same)+
qed

lemma preserves_service:
  "keeps beyond_credentials m \<Longrightarrow> (\<And>w r w'. rotation_ok (w_db w) \<Longrightarrow> grace_range (w_db w) \<Longrightarrow> m w = (r, w') \<Longrightarrow>
     rotation_ok (w_db w') \<and> grace_range (w_db w')) \<Longrightarrow> preserves server_ok m"
  "keeps beyond_enrollment m \<Longrightarrow> (\<And>w r w'. enr_ok (w_db w) \<Longrightarrow> m w = (r, w') \<Longrightarrow> enr_ok (w_db w')) \<Longrightarrow> preserves server_ok m"
  "keeps beyond_telemetry m \<Longrightarrow> (\<And>w r w'. tel_ok (w_db w) \<Longrightarrow> m w = (r, w') \<Longrightarrow> tel_ok (w_db w')) \<Longrightarrow> preserves server_ok m"
  "keeps beyond_network m \<Longrightarrow> (\<And>w r w'. net_ok (w_db w) \<Longrightarrow> m w = (r, w') \<Longrightarrow> net_ok (w_db w')) \<Longrightarrow> preserves server_ok m"
  "keeps beyond_names m \<Longrightarrow> (\<And>w r w'. hosts_ok (w_db w) \<Longrightarrow> domains_ok (w_db w) \<Longrightarrow> m w = (r, w') \<Longrightarrow>
     hosts_ok (w_db w') \<and> domains_ok (w_db w')) \<Longrightarrow> preserves server_ok m"
  "keeps beyond_sighting m \<Longrightarrow> preserves server_ok m"
  by (rule preservesI, erule server_ok_component, erule (1) keepsD; blast)+

lemma preserves_bindE [preserves]: "preserves I m \<Longrightarrow> (\<And>x. preserves I (k x)) \<Longrightarrow> preserves I (bindE m k)"
  by (simp add: preserves_def bindE_def split: prod.split sum.split) (metis snd_conv)

lemma preserves_transaction [preserves]: "preserves I m \<Longrightarrow> preserves I (transaction env m)"
  by (simp add: preserves_def transaction_def split: prod.split sum.split) (metis snd_conv tick_simps(1))

lemma preserves_create [preserves]:
  assumes "\<And>r d. I d \<Longrightarrow> \<not> list_ex (clash r) (tbl_rows (get d)) \<Longrightarrow> I (upd (ins_row r) d)"
  shows "preserves I (create env get upd clash mk)"
  using assms by (simp add: preserves_def create_def stmt_def Let_def)

lemma preserves_reads [preserves]:
  "preserves I (select env get P)" "preserves I (first env get P)" "preserves I (count_rows env get P)" "preserves I (now env)"
  "preserves I (ret x)" "preserves I (raise e)" "preserves I (orFail e y)" "preserves I (generateKey env p)"
  "preserves I (stmt env (\<lambda>d. (z, d)))"
  by (rule preserves_keeps, rule keeps)+

lemma preserves_answer [preserves]: "preserves I (answer status body)"
  by (simp add: preserves_def answer_def)

lemma preserves_call [preserves]: "preserves I m \<Longrightarrow> (\<And>x. preserves I (k x)) \<Longrightarrow> preserves I (call m onError k)"
  by (simp add: preserves_def call_def split: prod.split sum.split) (metis snd_conv)

lemma preserves_parse_param [preserves]: "(\<And>n. preserves I (k n)) \<Longrightarrow> preserves I (parse_param v msg k)"
  by (simp add: parse_param_def preserves_answer split: option.split)

lemma preserves_bind_body [preserves]: "(\<And>r. preserves I (k r)) \<Longrightarrow> preserves I (bind_body b valid k)"
  by (simp add: bind_body_def preserves_answer split: bound.split)

lemma preserves_bind_optional [preserves]: "(\<And>r. preserves I (k r)) \<Longrightarrow> preserves I (bind_optional z b valid k)"
  by (simp add: bind_optional_def preserves_answer split: bound.split)

lemma preserves_case [preserves]:
  "preserves I m \<Longrightarrow> (\<And>x. preserves I (h x)) \<Longrightarrow> preserves I (case y of None \<Rightarrow> m | Some x \<Rightarrow> h x)"
  "(\<And>a b. preserves I (g a b)) \<Longrightarrow> preserves I (case p of (a, b) \<Rightarrow> g a b)"
  "preserves I m \<Longrightarrow> preserves I n \<Longrightarrow> preserves I (if c then m else n)"
  "(\<And>x. preserves I (h x)) \<Longrightarrow> preserves I (let x = z in h x)"
  "preserves I (Pair r)"
  by (simp_all add: preserves_def split: option.split prod.split)

section \<open>Every service operation\<close>

lemma status_loop_reads [keeps]: "keeps f (status_loop env m ds)"
  unfolding statusFrom_def by (induction ds) (auto intro!: keeps simp: statusFrom_def Let_def)

lemma reading_operations [preserves]:
  "preserves I (Status env dv)" "preserves I (ListStatuses env)" "preserves I (GetContext env dv)" "preserves I (ListContexts env)"
  "preserves I (CurrentRotation env dv)" "preserves I (ensureDeviceExists env dv)"
  by (rule preserves_keeps,
      auto intro!: keeps simp: Status_def statusFrom_def ListStatuses_def GetContext_def ListContexts_def CurrentRotation_def
        ensureDeviceExists_def Let_def)+

lemma credential_operations [preserves]:
  "preserves server_ok (RequestRotation env dv g)" "preserves server_ok (StageCandidate env k dv key hash)"
  "preserves server_ok (StartValidation env k dv)" "preserves server_ok (ConfirmCredentialUse env i)"
  "preserves server_ok (Rollback env k dv reason)"
  by (rule preserves_service(1), rule credential_service_frame,
      blast intro: rotation_ok_ops grace_range_ops)+

lemma reconcile_frame: "keeps beyond_credentials (ReconcileExpiredGrace env)"
proof -
  have "keeps beyond_credentials (select env rotations (expired_grace t))" for t by (rule keeps)
  moreover have "keeps beyond_credentials (reconcile_loop env t rows 0)" for t rows
    by (rule keeps_reconcile_loop) (rule credential_service_frame)
  ultimately show ?thesis
    unfolding keeps_def ReconcileExpiredGrace_def Let_def
    by (auto split: prod.split sum.split) (metis snd_conv tick_simps(1))+
qed

lemma reconcile_operation [preserves]: "preserves server_ok (ReconcileExpiredGrace env)"
  by (rule preserves_service(1) [OF reconcile_frame]) (blast intro: rotation_ok_ops grace_range_ops)

lemma enrollment_reads_keep: "keeps_enrollments (GetEnrollment env dv i)" "keeps_enrollments (ListEnrollments env dv)"
  unfolding GetEnrollment_def ListEnrollments_def ensureDevice_def
  by (intro keeps_enrollments_bind keeps_enrollments_reads keeps_enrollments_failIf keeps_enrollmentsI reconcileExpired_effect | assumption)+

lemma keeps_enrollmentsD: "keeps_enrollments m \<Longrightarrow> enr_ok (w_db w) \<Longrightarrow> m w = (r, w') \<Longrightarrow> enr_ok (w_db w')"
  by (auto simp: keeps_enrollments_def)

lemma enrollment_operations [preserves]:
  "preserves server_ok (IssueCredential env dv)" "preserves server_ok (AuthenticateAgent env key cip)"
  "preserves server_ok (RevokeCredential env dv i)" "preserves server_ok (CreateEnrollment env dv ttl)"
  "preserves server_ok (Exchange env token cip)" "preserves server_ok (ConfirmEnrollment env dv i cip ver)"
  "preserves server_ok (ListEnrollments env dv)" "preserves server_ok (GetEnrollment env dv i)"
  "preserves server_ok (RevokeEnrollment env dv i)"
  by (rule preserves_service(2), rule enrollment_service_frame,
      erule (1) IssueCredential_effect [THEN conjunct1] AuthenticateAgent_effect [THEN conjunct1]
        RevokeCredential_effect [THEN conjunct1] CreateEnrollment_effect [THEN conjunct1] Exchange_effect [THEN conjunct1]
        ConfirmEnrollment_effect [THEN conjunct1] RevokeEnrollment_effect [THEN conjunct1]
        keeps_enrollmentsD [OF enrollment_reads_keep(1)] keeps_enrollmentsD [OF enrollment_reads_keep(2)])+

lemma heartbeat_operation [preserves]: "preserves server_ok (ReportHeartbeat env dv cip inp)"
  by (rule preserves_service(3) [OF heartbeat_frame])
    (metis ReportHeartbeat_effect(1) ReportHeartbeat_failed sum.exhaust)

lemma report_operation [preserves]: "preserves server_ok (ReportContext env dv cip inp)"
  by (rule preserves_service(4) [OF report_frame])
    (metis ReportContext_effect ReportContext_failed sum.exhaust)

lemma ddns_operations [preserves]:
  "preserves server_ok (AuthenticateDDNS env user key cip)" "preserves server_ok (UpdateDDNS env sv auth fqdn rip cip ua)"
   apply (rule preserves_service(6) [OF AuthenticateDDNS_frame])
  apply (rule preserves_service(5) [OF UpdateDDNS_frame])
  using UpdateDDNS_effect(1) by (auto simp: update_step_def)

lemma create_device_names:
  "preserves (\<lambda>d. distinct (map dev_Name (tbl_rows (devices d)))) (create_device_rows env name dn ty)"
  unfolding create_device_rows_def GenerateDDNSKey_def by (intro preserves) (auto simp: list_ex_iff)

lemma create_device_operation [preserves]: "preserves server_ok (create_device_rows env name dn ty)"
proof (rule preservesI)
  fix w r w' assume ok: "server_ok (w_db w)" and run: "create_device_rows env name dn ty w = (r, w')"
  have "beyond_devices (w_db w') = beyond_devices (w_db w)" using keepsD [OF create_device_frame run] .
  then have "enr_ok (w_db w')" "tel_ok (w_db w')" "net_ok (w_db w')" "hosts_ok (w_db w')" "domains_ok (w_db w')"
    unfolding beyond_devices_def prod.inject using ok part_congs [of "w_db w'" "w_db w"] by (simp_all add: server_ok_def)
  moreover have "rotation_ok (w_db w')" "grace_range (w_db w')"
    using ok run by (auto simp: server_ok_def intro: rotation_ok_ops grace_range_ops)
  moreover have "distinct (map dev_Name (tbl_rows (devices (w_db w'))))"
    using preservesD [OF create_device_names run] ok by (simp add: server_ok_def)
  ultimately show "server_ok (w_db w')" by (simp add: server_ok_def)
qed

text \<open>The creation of a domain row, by an administrator or at the startup.\<close>

lemma ins_domain_ok:
  assumes ok: "server_ok d" and clash: "\<not> list_ex (\<lambda>d'. dom_Name r = dom_Name d') (tbl_rows (domains d))"
    and key: "dom_ID r = Suc (tbl_seq (domains d))"
  shows "server_ok (domains_update (ins_row r) d)"
proof (rule server_ok_component(5) [OF ok])
  show "beyond_names (domains_update (ins_row r) d) = beyond_names d" by (simp add: beyond_defs part_defs)
  assume "hosts_ok d" "domains_ok d"
  then show "hosts_ok (domains_update (ins_row r) d) \<and> domains_ok (domains_update (ins_row r) d)"
    using clash dom_rows.wf_ins [OF _ key] by (auto simp: hosts_ok_def domains_ok_def list_ex_iff)
qed

lemma create_domain_operation [preserves]:
  assumes "\<And>i t. dom_ID (mk i t) = i"
  shows "preserves server_ok (create env domains domains_update (\<lambda>d d'. dom_Name d = dom_Name d') mk)"
  using ins_domain_ok by (auto simp: preserves_def create_def stmt_def Let_def assms)

section \<open>The server as a transition system\<close>

lemmas handler_defs = health_def createDomain_def listDomains_def createDevice_def listDevices_def listCredentials_def
  listLogs_def issueAgentCredential_def listAgentCredentials_def revokeAgentCredential_def requestCredentialRotation_def
  listCredentialRotations_def getCredentialRotation_def rollbackCredentialRotation_def createAgentEnrollment_def
  listAgentEnrollments_def getAgentEnrollment_def revokeAgentEnrollment_def exchangeAgentEnrollment_def getAgentStatus_def
  listAgentStatuses_def getNetworkContext_def listNetworkContexts_def agentMe_def agentHeartbeat_def agentNetworkContext_def
  confirmAgentEnrollment_def agentCurrentRotation_def agentStageCandidate_def agentStartValidation_def

text \<open>
  A request to any endpoint, served with any configuration, a run of the background
  reconciler, or a restart. One step is one whole request; \<open>Hermes_Interleaving\<close> is about
  requests whose interactions are interleaved.
\<close>

inductive server_step :: "env \<Rightarrow> world \<Rightarrow> world \<Rightarrow> bool" for env where
  request: "serve env srv rq ep w = (rp, w') \<Longrightarrow> server_step env w w'"
| reconciler: "ReconcileExpiredGrace env w = (outcome, w') \<Longrightarrow> server_step env w w'"
| restart: "startup env getenv w = (r, w') \<Longrightarrow> server_step env w w'"

inductive_cases server_stepE: "server_step env w w'"

text \<open>
  A property of the database that every operation of the services preserves is preserved by
  every request, by the reconciler and by the startup.
\<close>

locale service_invariant =
  fixes I :: "database \<Rightarrow> bool"
  assumes credential_ops:
      "\<And>env name dn ty. preserves I (create_device_rows env name dn ty)" "\<And>env dv g. preserves I (RequestRotation env dv g)"
      "\<And>env k dv key hash. preserves I (StageCandidate env k dv key hash)" "\<And>env k dv. preserves I (StartValidation env k dv)"
      "\<And>env i. preserves I (ConfirmCredentialUse env i)" "\<And>env k dv reason. preserves I (Rollback env k dv reason)"
      "\<And>env. preserves I (ReconcileExpiredGrace env)"
    and enrollment_ops:
      "\<And>env dv. preserves I (IssueCredential env dv)" "\<And>env key cip. preserves I (AuthenticateAgent env key cip)"
      "\<And>env dv i. preserves I (RevokeCredential env dv i)" "\<And>env dv ttl. preserves I (CreateEnrollment env dv ttl)"
      "\<And>env token cip. preserves I (Exchange env token cip)"
      "\<And>env dv i cip ver. preserves I (ConfirmEnrollment env dv i cip ver)"
      "\<And>env dv. preserves I (ListEnrollments env dv)" "\<And>env dv i. preserves I (GetEnrollment env dv i)"
      "\<And>env dv i. preserves I (RevokeEnrollment env dv i)"
    and report_ops:
      "\<And>env dv cip inp. preserves I (ReportHeartbeat env dv cip inp)" "\<And>env dv cip rep. preserves I (ReportContext env dv cip rep)"
    and ddns_ops:
      "\<And>env user key cip. preserves I (AuthenticateDDNS env user key cip)"
      "\<And>env sv auth fqdn rip cip ua. preserves I (UpdateDDNS env sv auth fqdn rip cip ua)"
    and domain_ops:
      "\<And>env mk. (\<And>i t. dom_ID (mk i t) = i) \<Longrightarrow>
         preserves I (create env domains domains_update (\<lambda>d d'. dom_Name d = dom_Name d') mk)"
begin

lemmas service_ops = credential_ops enrollment_ops report_ops ddns_ops domain_ops

lemma EnsureDomains_preserves: "preserves I (EnsureDomains env names ttl wild)"
  by (induction names) (auto intro!: preserves domain_ops)

lemma reconcile_handler_preserves: "preserves I (reconcileCredentialRotations env)"
proof (rule preservesI)
  fix w r w' assume "I (w_db w)" "reconcileCredentialRotations env w = (r, w')"
  then show "I (w_db w')"
    using preservesD [OF credential_ops(7)]
    by (auto simp: reconcileCredentialRotations_def answer_def split: prod.splits option.splits)
qed

lemma ddnsUpdate_preserves: "preserves I (ddnsUpdate env srv rq hostname myip)"
proof -
  have "preserves I (\<lambda>w. answer st body (snd (ConfirmCredentialUse env i w)))" for st body i
    using credential_ops(5) by (simp add: preserves_def answer_def)
  then show ?thesis unfolding ddnsUpdate_def Let_def by (intro preserves ddns_ops | assumption | simp)+
qed

lemma endpoints_preserve:
  "preserves I (public_endpoint env srv rq ep)" "preserves I (admin_endpoint env srv ep)"
  "preserves I (agent_endpoint env srv rq auth ep)"
proof -
  show "preserves I (public_endpoint env srv rq ep)"
    by (cases ep; simp add: handler_defs; (intro preserves service_ops ddnsUpdate_preserves)?)
  show "preserves I (admin_endpoint env srv ep)"
    by (cases ep; simp add: handler_defs; (intro preserves service_ops reconcile_handler_preserves; simp)?)
  show "preserves I (agent_endpoint env srv rq auth ep)"
    by (cases ep; simp add: handler_defs; (intro preserves service_ops)?)
qed

lemma serve_preserves: "preserves I (serve env srv rq ep)"
  unfolding serve_def admin_guard_def authenticateAgent_def
  by (auto intro!: preserves service_ops endpoints_preserve split: access.split option.split bool.split)

lemma startup_preserves: "preserves I (startup env getenv)"
proof (rule preservesI)
  fix w r w' assume ok: "I (w_db w)" and run: "startup env getenv w = (r, w')"
  then show "I (w_db w')"
    using preservesD [OF EnsureDomains_preserves _ ok]
    by (auto simp: startup_def split: prod.splits option.splits sum.splits)
qed

lemma server_step_preserves: "server_step env w w' \<Longrightarrow> I (w_db w) \<Longrightarrow> I (w_db w')"
  using preservesD [OF serve_preserves] preservesD [OF credential_ops(7)] preservesD [OF startup_preserves]
  by (elim server_stepE) blast+

end

interpretation server_invariant: service_invariant server_ok
  by unfold_locales (rule credential_operations create_device_operation reconcile_operation enrollment_operations
      heartbeat_operation report_operation ddns_operations create_domain_operation, assumption?)+

lemma server_ok_empty: "server_ok empty_database"
proof -
  have "hosts_ok empty_database \<and> domains_ok empty_database"
    by (simp add: hosts_ok_def domains_ok_def empty_database_def) (simp add: empty_table_def)
  moreover have "enr_ok empty_database"
    by (simp add: enr_ok_def ident_ok_def empty_database_def)
  moreover have "tel_ok empty_database" "net_ok empty_database"
    by (simp_all add: tel_ok_def net_ok_def net_snapshot_of_def device_wans_def device_segments_def wans_ok_def empty_database_def)
      (simp_all add: empty_table_def)
  ultimately show ?thesis
    using rotation_ok_empty grace_range_empty by (simp add: server_ok_def) (simp add: empty_database_def empty_table_def)
qed

interpretation server_system: invariant_system "\<lambda>w. w = initial_world" "server_step env" "\<lambda>w. server_ok (w_db w)"
proof
  show "server_ok (w_db s)" if "s = initial_world" for s using that server_ok_empty by (simp add: initial_world_def)
qed (rule server_invariant.server_step_preserves)

text \<open>C1. In every state the server can reach, from an empty database, by any requests to any endpoint,
  runs of the reconciler and restarts, with any failures, the invariants of all components hold
  together: the rotations follow their lifecycle, tokens and identities are consistent, stored
  snapshots and network reports are valid, and host, domain and device names are unique.\<close>

theorem reachable_states_ok:
  "(server_step env)\<^sup>*\<^sup>* initial_world w \<Longrightarrow> server_ok (w_db w)"
  by (rule server_system.inv_reachable [OF refl])

theorem reachable_states_ok_witness:
  "server_ok (w_db (snd (startup demo_env demo_getenv initial_world)))"
proof -
  obtain r w' where run: "startup demo_env demo_getenv initial_world = (r, w')" by fastforce
  then have "(server_step demo_env)\<^sup>*\<^sup>* initial_world w'" by (blast intro: server_step.restart)
  then have "server_ok (w_db w')" by (rule reachable_states_ok)
  with run show ?thesis by simp
qed

end
