(* ===== verification/Hermes_Access.thy ===== *)
theory Hermes_Access
  imports Hermes_Server
begin

text \<open>
  What a request without a valid secret can do: nothing. Covers the middleware of the route
  groups, the DDNS endpoint and the exchange of tokens.
\<close>

section \<open>Requests without a valid secret\<close>

text \<open>
  A request presents a valid secret when its password is the administrator's, or when its
  password or bearer token has the hash of a stored secret that is still in use.
\<close>

definition presents_secret :: "env \<Rightarrow> server \<Rightarrow> http_request \<Rightarrow> database \<Rightarrow> bool" where
  "presents_secret env srv rq d \<longleftrightarrow>
     (\<exists>user password. rq_BasicAuth rq = Some (user, password) \<and>
        (authenticateAdmin srv user password = Some True \<or>
         (\<exists>c \<in> set (tbl_rows (creds d)). (cr_Status c = CActive \<or> cr_Status c = CGrace) \<and> HashAPIKey env password = cr_SecretHash c))) \<or>
     (\<exists>token. bearerToken (rq_Authorization rq) = Some token \<and>
        ((\<exists>c \<in> set (tbl_rows (identities d)). idc_Status c = CActive \<and> HashAPIKey env token = idc_SecretHash c) \<or>
         (\<exists>e \<in> set (tbl_rows (enrollments d)). enr_Status e = EPending \<and> HashAPIKey env token = enr_SecretHash e)))"

definition unchanged :: "world \<Rightarrow> world \<Rightarrow> bool" where
  "unchanged w w' \<longleftrightarrow> w_db w' = w_db w \<and> w_dns w' = w_dns w"

lemma AuthenticateAgent_refused:
  assumes "\<forall>c \<in> set (tbl_rows (identities (w_db w))). idc_Status c = CActive \<longrightarrow> HashAPIKey env token \<noteq> idc_SecretHash c"
    and "AuthenticateAgent env token cip w = (r, w')"
  shows "(\<exists>e. r = Inl e) \<and> unchanged w w'"
  using assms
  by (auto simp: AuthenticateAgent_def bindE_def errTo_def orFail_apply failIf_apply first_def stmt_def now_def VerifyAPIKey_iff unchanged_def
      dest!: find_SomeD split: if_splits option.splits sum.splits prod.splits)

lemma authenticate_loop_refused:
  assumes "\<forall>c \<in> set cs. HashAPIKey env key \<noteq> cr_SecretHash c"
  shows "authenticate_loop env t key cip x cs w = (Inl (ErrDDNS DErrBadAuth), w)"
  using assms by (induction cs) (simp_all add: usable_credential_def VerifyAPIKey_iff)

lemma AuthenticateDDNS_refused:
  assumes "\<forall>c \<in> set (tbl_rows (creds (w_db w))). cr_Status c = CActive \<or> cr_Status c = CGrace \<longrightarrow> HashAPIKey env key \<noteq> cr_SecretHash c"
    and "AuthenticateDDNS env user key cip w = (r, w')"
  shows "(\<exists>e. r = Inl e) \<and> unchanged w w'"
proof -
  have "authenticate_loop env t key cip x (filter (\<lambda>c. cr_DeviceID c = dev_ID x \<and> (cr_Status c = CActive \<or> cr_Status c = CGrace))
      (tbl_rows (creds (w_db w)))) v = (Inl (ErrDDNS DErrBadAuth), v)" for t x v
    using assms(1) by (intro authenticate_loop_refused) auto
  with assms(2) show ?thesis
    by (auto simp: AuthenticateDDNS_def bindE_def errTo_def orFail_apply first_def select_def stmt_def now_def unchanged_def
        split: if_splits option.splits sum.splits prod.splits)
qed

lemma Exchange_refused:
  assumes "\<forall>e \<in> set (tbl_rows (enrollments (w_db w))). enr_Status e = EPending \<longrightarrow> HashAPIKey env token \<noteq> enr_SecretHash e"
    and "Exchange env token cip w = (r, w')"
  shows "(r = Inl (ErrEnrollment EErrBadAuth) \<or> r = Inl DBError) \<and> unchanged w w'"
proof -
  have tx: "\<exists>v. exchange_tx env token i cip v0 = (if stmt_fault env (w_ticks v0) then Inl DBError else Inr (Inl (ErrEnrollment EErrBadAuth)), v) \<and> unchanged v0 v"
    if "w_db v0 = w_db w" for i v0
    using assms(1) that
    by (auto simp: exchange_tx_def bindE_def first_def stmt_def VerifyAPIKey_iff unchanged_def dest!: find_SomeD split: option.splits)
  show ?thesis
  proof (cases "ParseEnrollmentKeyID token")
    case (Some i)
    obtain v where v: "exchange_tx env token i cip (tick w) =
        (if stmt_fault env (w_ticks (tick w)) then Inl DBError else Inr (Inl (ErrEnrollment EErrBadAuth)), v)" "unchanged (tick w) v"
      using tx [of "tick w" i] by auto
    with assms(2) Some show ?thesis
      by (auto simp: Exchange_def transaction_def bindE_def unchanged_def split: if_splits)
  qed (use assms(2) in \<open>auto simp: Exchange_def unchanged_def\<close>)
qed

text \<open>The refusals of the protected endpoints: no reply carries data.\<close>

definition refusal :: "reply \<Rightarrow> bool" where
  "refusal rp \<longleftrightarrow> rp_Status rp \<in> {401, 500} \<and>
     rp_Body rp \<in> {NoContent, PlainText (''badauth'' @ [nl]), ErrorMessage ''badauth'', ErrorOf DBError}"

lemma ddnsUpdate_refused:
  assumes "\<not> presents_secret env srv rq (w_db w)" "ddnsUpdate env srv rq h m w = (rp, w')"
  shows "unchanged w w' \<and> refusal rp"
proof (cases "rq_BasicAuth rq")
  case (Some up)
  obtain u p where up: "up = (u, p)" by fastforce
  obtain r v where a: "AuthenticateDDNS env u p (callerIP srv rq) w = (r, v)" by fastforce
  have "(\<exists>e. r = Inl e) \<and> unchanged w v"
    by (rule AuthenticateDDNS_refused [OF _ a]) (use assms(1) Some up in \<open>auto simp: presents_secret_def\<close>)
  with a assms(2) Some up show ?thesis
    by (auto simp: ddnsUpdate_def call_def reply_of_def refusal_def Let_def)
qed (use assms(2) in \<open>auto simp: ddnsUpdate_def answer_def reply_of_def unchanged_def refusal_def\<close>)

lemma exchange_refused:
  assumes "\<not> presents_secret env srv rq (w_db w)" "exchangeAgentEnrollment env srv rq w = (rp, w')"
  shows "unchanged w w' \<and> refusal rp"
proof (cases "bearerToken (rq_Authorization rq)")
  case (Some token)
  obtain r v where a: "Exchange env token (callerIP srv rq) w = (r, v)" by fastforce
  have "(r = Inl (ErrEnrollment EErrBadAuth) \<or> r = Inl DBError) \<and> unchanged w v"
    by (rule Exchange_refused [OF _ a]) (use assms(1) Some in \<open>auto simp: presents_secret_def\<close>)
  with a assms(2) Some show ?thesis
    by (auto simp: exchangeAgentEnrollment_def call_def reply_of_def enrollmentUnauthorized_def enrollmentAdminError_def refusal_def)
qed (use assms(2) in \<open>auto simp: exchangeAgentEnrollment_def enrollmentUnauthorized_def unchanged_def refusal_def\<close>)

lemma agent_refused:
  assumes "\<not> presents_secret env srv rq (w_db w)" "access_of ep = Agent" "serve env srv rq ep w = (rp, w')"
  shows "unchanged w w' \<and> refusal rp"
proof (cases "bearerToken (rq_Authorization rq)")
  case (Some token)
  obtain r v where a: "AuthenticateAgent env token (callerIP srv rq) w = (r, v)" by fastforce
  have "(\<exists>e. r = Inl e) \<and> unchanged w v"
    by (rule AuthenticateAgent_refused [OF _ a]) (use assms(1) Some in \<open>auto simp: presents_secret_def\<close>)
  with a assms(2,3) Some show ?thesis
    by (auto simp: serve_def authenticateAgent_def call_def agentUnauthorized_def refusal_def)
qed (use assms(2,3) in \<open>auto simp: serve_def authenticateAgent_def agentUnauthorized_def unchanged_def refusal_def\<close>)

text \<open>C3. Access control: with a configured administrator login, a request that presents no valid secret
  is refused on every endpoint except the health check and the version: with 401, or with 500
  when the check itself failed. It changes nothing in the database or the DNS, and the reply
  carries no data.\<close>

theorem unauthenticated_requests_change_nothing:
  assumes "\<not> presents_secret env srv rq (w_db w)" "cf_AdminLogin (srv_Config srv) \<noteq> []"
    and "ep \<noteq> Health" "ep \<noteq> SystemVersion" and "serve env srv rq ep w = (rp, w')"
  shows "unchanged w w' \<and> rp_Status rp \<in> {401, 500} \<and>
    rp_Body rp \<in> {NoContent, PlainText (''badauth'' @ [nl]), ErrorMessage ''badauth'', ErrorOf DBError}"
  unfolding refusal_def [symmetric]
proof (cases "access_of ep")
  case Public
  then consider h m where "ep = DDNSUpdate h m" | "ep = Enroll" using assms(3,4) by (cases ep) auto
  then show "unchanged w w' \<and> refusal rp"
    using assms(5) ddnsUpdate_refused [OF assms(1)] exchange_refused [OF assms(1)] by cases (auto simp: serve_def)
next
  case Admin
  with assms(1,2,5) show "unchanged w w' \<and> refusal rp"
    by (auto simp: serve_def admin_guard_def answer_def reply_of_def presents_secret_def unchanged_def refusal_def
        split: option.splits bool.splits)
next
  case Agent
  from agent_refused [OF assms(1) this assms(5)] show "unchanged w w' \<and> refusal rp" .
qed

text \<open>A concrete server: an administrator with one password, and a validator that accepts everything.\<close>

definition demo_server :: server where
  "demo_server = \<lparr>srv_Config = demo_config, srv_DDNS = demo_service,
     srv_Validator = \<lparr>valid_domain = \<lambda>_. True, valid_device = \<lambda>_. True, valid_stage = \<lambda>_. True, valid_grace = \<lambda>_. True,
       valid_ttl = \<lambda>_. True, valid_version = \<lambda>_. True, valid_heartbeat = \<lambda>_. True, valid_report = \<lambda>_. True\<rparr>,
     srv_Htpasswd = \<lambda>file user password. Some (user = ''admin'' \<and> password = ''secret'')\<rparr>"

definition demo_request :: "(string \<times> string) option \<Rightarrow> string \<Rightarrow> http_request" where
  "demo_request basic authorization = \<lparr>rq_BasicAuth = basic, rq_Authorization = authorization, rq_XRealIP = [],
     rq_XForwardedFor = [], rq_RemoteAddr = ''192.0.2.1:4711'', rq_UserAgent = ''agent''\<rparr>"

lemma demo_admin_login: "cf_AdminLogin (srv_Config demo_server) \<noteq> []"
  by (simp add: demo_server_def) code_simp

theorem unauthenticated_requests_change_nothing_witness:
  "\<exists>rp w'. serve demo_env demo_server (demo_request (Some (''admin'', ''guess'')) []) ListDevices demo_base = (rp, w') \<and>
     unchanged demo_base w' \<and> rp_Status rp \<in> {401, 500}"
proof -
  let ?rq = "demo_request (Some (''admin'', ''guess'')) []"
  obtain rp w' where run: "serve demo_env demo_server ?rq ListDevices demo_base = (rp, w')" by fastforce
  have "\<not> presents_secret demo_env demo_server ?rq (w_db demo_base)"
    by (simp add: presents_secret_def demo_request_def authenticateAdmin_def demo_server_def) (simp add: empty_table_def)
  from unauthenticated_requests_change_nothing [OF this demo_admin_login _ _ run] run show ?thesis by auto
qed

end
