(* ===== verification/Hermes_Rotation_Properties.thy ===== *)
theory Hermes_Rotation_Properties
  imports Hermes_Rotation
begin

text \<open>
  The properties of the credential service, with one instance of each: the result of every
  operation on every branch, what it writes, and the rotation as a whole. The concrete
  worlds hold one device with one rotation in each of its open states.
\<close>

section \<open>Concrete worlds\<close>

definition demo_credential :: "nat \<Rightarrow> cred_status \<Rightarrow> time option \<Rightarrow> ddns_credential" where
  "demo_credential i st until = \<lparr>cr_ID = i, cr_CreatedAt = 0, cr_DeviceID = 1, cr_KeyID = [char_of (i + 48)],
     cr_SecretHash = ''00'', cr_Status = st, cr_ActivatedAt = None, cr_ConfirmedAt = None, cr_ExpiresAt = None,
     cr_RevokedAt = None, cr_GraceUntil = until, cr_LastUsedAt = None, cr_LastUsedIP = [],
     cr_ReplacesCredentialID = None\<rparr>"

definition demo_rotation :: "rot_status \<Rightarrow> nat option \<Rightarrow> time option \<Rightarrow> rotation" where
  "demo_rotation st new until = \<lparr>rot_ID = 1, rot_CreatedAt = 0, rot_DeviceID = 1, rot_PreviousCredentialID = 1,
     rot_NewCredentialID = new, rot_Status = st, rot_GraceMinutes = 60, rot_RequestedAt = 0, rot_StagedAt = None,
     rot_ValidationStartedAt = None, rot_ConfirmedAt = None, rot_GraceUntil = until, rot_CompletedAt = None,
     rot_RolledBackAt = None, rot_LastError = []\<rparr>"

definition demo_world :: "ddns_credential list \<Rightarrow> rotation list \<Rightarrow> world" where
  "demo_world cs rs = initial_world\<lparr>w_db := empty_database\<lparr>
     devices := \<lparr>tbl_rows = [demo_device], tbl_seq = 1\<rparr>, creds := \<lparr>tbl_rows = cs, tbl_seq = 2\<rparr>,
     rotations := \<lparr>tbl_rows = rs, tbl_seq = 1\<rparr>\<rparr>\<rparr>"

definition demo_idle :: world where
  "demo_idle = demo_world [demo_credential 1 CActive None] []"
definition demo_requested :: world where
  "demo_requested = demo_world [demo_credential 1 CActive None] [demo_rotation RRequested None None]"
definition demo_staged :: world where
  "demo_staged = demo_world [demo_credential 1 CActive None, demo_credential 2 CPending None]
     [demo_rotation RStaged (Some 2) None]"
definition demo_validating :: world where
  "demo_validating = demo_world [demo_credential 1 CActive None, demo_credential 2 CActive None]
     [demo_rotation RValidating (Some 2) None]"
definition demo_grace :: "time \<Rightarrow> world" where
  "demo_grace u = demo_world [demo_credential 1 CGrace (Some u), demo_credential 2 CActive None]
     [demo_rotation RGrace (Some 2) (Some u)]"

lemmas demo_defs = demo_world_def demo_device_def demo_credential_def demo_rotation_def initial_world_def
  empty_database_def empty_table_def
lemmas demo_worlds = demo_idle_def demo_requested_def demo_staged_def demo_validating_def demo_grace_def

lemma demo_tables [simp]:
  "tbl_rows (devices (w_db (demo_world cs rs))) = [demo_device]"
  "tbl_rows (creds (w_db (demo_world cs rs))) = cs" "tbl_seq (creds (w_db (demo_world cs rs))) = 2"
  "tbl_rows (rotations (w_db (demo_world cs rs))) = rs" "tbl_seq (rotations (w_db (demo_world cs rs))) = 1"
  "tbl_seq (devices (w_db (demo_world cs rs))) = 1" "w_ticks (demo_world cs rs) = 0"
  by (simp_all add: demo_world_def initial_world_def)

lemma demo_device_map: "dev_map (w_db (demo_world cs rs)) i = (if i = 1 then Some demo_device else None)"
  by (simp add: tmap_def demo_device_def)

lemmas demo_abs = abs_lc_def tmap_def abs_cred_def abs_rot_def demo_device_def demo_credential_def demo_rotation_def
  demo_worlds fun_eq_iff dom_def has_cred_def upd_cred_def to_status_def to_grace_def lc_init_def

lemma demo_invariant:
  "lc_inv (abs_lc (w_db demo_idle))" "lc_inv (abs_lc (w_db demo_requested))"
  "lc_inv (abs_lc (w_db demo_staged))" "lc_inv (abs_lc (w_db demo_validating))"
  "lc_inv (abs_lc (w_db (demo_grace u)))"
proof -
  have e: "abs_lc (w_db demo_idle) = lc_init\<lparr>l_devs := insert 1 (l_devs lc_init),
      l_creds := (l_creds lc_init)(1 \<mapsto> \<lparr>lc_dev = 1, lc_st = CActive, lc_until = None\<rparr>)\<rparr>"
    by (auto simp: demo_abs)
  show idle: "lc_inv (abs_lc (w_db demo_idle))"
    unfolding e by (rule lc.inv_step [OF lc_step.new_device lc_inv_init]) (simp_all add: lc_init_def)
  have e: "abs_lc (w_db demo_requested) = (abs_lc (w_db demo_idle))\<lparr>l_rots := (l_rots (abs_lc (w_db demo_idle)))(1 \<mapsto>
      \<lparr>lr_dev = 1, lr_prev = 1, lr_new = None, lr_st = RRequested, lr_until = None\<rparr>)\<rparr>"
    by (auto simp: demo_abs)
  show req: "lc_inv (abs_lc (w_db demo_requested))"
    unfolding e by (rule lc.inv_step [OF lc_step.request idle]) (auto simp: demo_abs)
  let ?r = "\<lparr>lr_dev = 1, lr_prev = 1, lr_new = None, lr_st = RRequested, lr_until = None\<rparr>"
  have e: "abs_lc (w_db demo_staged) = (abs_lc (w_db demo_requested))\<lparr>
      l_creds := (l_creds (abs_lc (w_db demo_requested)))(2 \<mapsto> \<lparr>lc_dev = lr_dev ?r, lc_st = CPending, lc_until = None\<rparr>),
      l_rots := (l_rots (abs_lc (w_db demo_requested)))(1 \<mapsto> ?r\<lparr>lr_new := Some 2, lr_st := RStaged\<rparr>)\<rparr>"
    by (auto simp: demo_abs)
  show st: "lc_inv (abs_lc (w_db demo_staged))"
    unfolding e by (rule lc.inv_step [OF lc_step.stage req]) (auto simp: demo_abs)
  let ?r = "\<lparr>lr_dev = 1, lr_prev = 1, lr_new = Some 2, lr_st = RStaged, lr_until = None\<rparr>"
  have e: "abs_lc (w_db demo_validating) = (abs_lc (w_db demo_staged))\<lparr>
      l_creds := upd_cred (l_creds (abs_lc (w_db demo_staged))) 2 (to_status CActive),
      l_rots := (l_rots (abs_lc (w_db demo_staged)))(1 \<mapsto> ?r\<lparr>lr_st := RValidating\<rparr>)\<rparr>"
    by (auto simp: demo_abs)
  show va: "lc_inv (abs_lc (w_db demo_validating))"
    unfolding e by (rule lc.inv_step [OF lc_step.validate st]) (auto simp: demo_abs)
  let ?r = "\<lparr>lr_dev = 1, lr_prev = 1, lr_new = Some 2, lr_st = RValidating, lr_until = None\<rparr>"
  have e: "abs_lc (w_db (demo_grace u)) = (abs_lc (w_db demo_validating))\<lparr>
      l_creds := upd_cred (l_creds (abs_lc (w_db demo_validating))) (lr_prev ?r) (to_grace u),
      l_rots := (l_rots (abs_lc (w_db demo_validating)))(1 \<mapsto> ?r\<lparr>lr_st := RGrace, lr_until := Some u\<rparr>)\<rparr>"
    by (auto simp: demo_abs)
  show "lc_inv (abs_lc (w_db (demo_grace u)))"
    unfolding e by (rule lc.inv_step [OF lc_step.confirm va]) (auto simp: demo_abs)
qed

lemma demo_rotation_ok:
  "rotation_ok (w_db demo_idle)" "rotation_ok (w_db demo_requested)" "rotation_ok (w_db demo_staged)"
  "rotation_ok (w_db demo_validating)" "rotation_ok (w_db (demo_grace u))"
  by (simp_all add: rotation_ok_def demo_invariant wf_db_def wf_table_def)
    (simp_all add: demo_worlds demo_device_def demo_credential_def demo_rotation_def)

section \<open>The lifecycle\<close>

lemma credential_implements:
  "implements lc_step (create_device_rows env name dn ty)"
  "implements lc_step (RequestRotation env dv g)"
  "implements lc_step (StageCandidate env k dv key hash)"
  "implements lc_step (StartValidation env k dv)"
  "implements lc_step\<^sup>=\<^sup>= (ConfirmCredentialUse env i)"
  "implements lc_step (Rollback env k dv reason)"
proof -
  note wf = rotation_ok_def [THEN iffD1, THEN conjunct1]
  show "implements lc_step (create_device_rows env name dn ty)"
    by (rule implementsI [OF create_device_failed]) (auto intro: lc.inv_step dest: create_device_step [OF wf])
  show "implements lc_step (RequestRotation env dv g)"
    by (rule implementsI, rule failed_run_keeps_tables(1), assumption, rule RequestRotation_step, erule wf, assumption,
      rule lc.inv_step)
  show "implements lc_step (StageCandidate env k dv key hash)"
    by (rule implementsI, rule failed_run_keeps_tables(2), assumption, rule StageCandidate_step, erule wf, assumption,
      rule lc.inv_step)
  show "implements lc_step (StartValidation env k dv)"
    by (rule implementsI, rule failed_run_keeps_tables(3), assumption, rule StartValidation_step, erule wf, assumption,
      rule lc.inv_step)
  show "implements lc_step (Rollback env k dv reason)"
    by (rule implementsI, rule failed_run_keeps_tables(5), assumption, rule Rollback_step,
      auto simp: rotation_ok_def intro: lc.inv_step)
  show "implements lc_step\<^sup>=\<^sup>= (ConfirmCredentialUse env i)"
  proof (rule implementsI [OF failed_run_keeps_tables(4)])
    fix w x w'
    assume "rotation_ok (w_db w)" "ConfirmCredentialUse env i w = (Inr x, w')"
    then show "wf_db (w_db w') \<and> lc_step\<^sup>=\<^sup>= (abs_lc (w_db w)) (abs_lc (w_db w'))"
      using ConfirmCredentialUse_step [of w env i w'] ConfirmCredentialUse_False(1) [of env i w w'] wf [of "w_db w"]
      by (cases x) auto
  qed (auto intro: lc.inv_step)
qed


lemma expected_distinct_keys:
  "expected (abs_rot r) = Some L \<Longrightarrow> distinct (active_keys_of r) \<and> active_keys_of r \<noteq> []"
  by (auto dest!: expectedD simp: active_keys_of_def)



section \<open>Results of the operations\<close>

text \<open>\<open>RequestRotation\<close> without a database fault: the grace period is checked first, then
  that the device is active, then that it has no open rotation; otherwise a rotation of the one
  active credential is created. \<open>ErrNoActiveCredential\<close> and \<open>ErrMultipleActive\<close> are never returned.\<close>

lemma RequestRotation_outcome:
  assumes "rotation_ok (w_db w)" "no_faults env"
  shows "fst (RequestRotation env dv g w) =
    (if g < 1 \<or> g > 1440 then Inl (ErrCredential CErrInvalidGracePeriod)
     else case dev_map (w_db w) dv of
        None \<Rightarrow> Inl (ErrCredential CErrDeviceNotFound)
      | Some d \<Rightarrow>
          if dev_Status d \<noteq> ''active'' then Inl (ErrCredential CErrDeviceNotFound)
          else if open_rotations (w_db w) dv \<noteq> [] then Inl (ErrCredential CErrRotationInProgress)
          else Inr \<lparr>rot_ID = Suc (tbl_seq (rotations (w_db w))), rot_CreatedAt = clock env (w_ticks w + 5),
                rot_DeviceID = dv, rot_PreviousCredentialID = cr_ID (hd (active_credentials (w_db w) dv)),
                rot_NewCredentialID = None, rot_Status = RRequested, rot_GraceMinutes = g,
                rot_RequestedAt = clock env (w_ticks w + 4),
                rot_StagedAt = None, rot_ValidationStartedAt = None, rot_ConfirmedAt = None,
                rot_GraceUntil = None, rot_CompletedAt = None, rot_RolledBackAt = None, rot_LastError = []\<rparr>)"
  using assms by (rule RequestRotation_returns)

text \<open>\<open>StageCandidate\<close> without a database fault, on every branch: malformed identifiers and
  hashes, an unknown rotation or one of another device, a rotation that is not just requested and a
  duplicate key identifier are refused; otherwise a pending credential of the device is created.\<close>

lemma StageCandidate_outcome:
  assumes "rotation_ok (w_db w)" "no_faults env"
  shows "fst (StageCandidate env k dv key0 hash0 w) =
    (let key = ToLower (TrimSpace key0); hash = ToLower (TrimSpace hash0) in
     if \<not> validHexBytes key 8 then Inl (ErrCredential CErrInvalidCandidateKeyID)
     else if \<not> validHexBytes hash 32 then Inl (ErrCredential CErrInvalidCandidateHash)
     else case rot_map (w_db w) k of
        None \<Rightarrow> Inl (ErrCredential CErrRotationNotFound)
      | Some r \<Rightarrow>
          if rot_DeviceID r \<noteq> dv then Inl (ErrCredential CErrRotationNotFound)
          else if rot_Status r \<noteq> RRequested then Inl (ErrCredential CErrInvalidRotationState)
          else if \<exists>c \<in> set (tbl_rows (creds (w_db w))). cr_KeyID c = key then Inl DBError
          else Inr \<lparr>cr_ID = Suc (tbl_seq (creds (w_db w))), cr_CreatedAt = clock env (w_ticks w + 4), cr_DeviceID = dv,
                cr_KeyID = key, cr_SecretHash = hash, cr_Status = CPending, cr_ActivatedAt = None,
                cr_ConfirmedAt = None, cr_ExpiresAt = None, cr_RevokedAt = None,
                cr_GraceUntil = None, cr_LastUsedAt = None, cr_LastUsedIP = [],
                cr_ReplacesCredentialID = Some (rot_PreviousCredentialID r)\<rparr>)"
  using StageCandidate_returns [OF assms] by (simp add: Let_def)

text \<open>\<open>StartValidation\<close> without a database fault: exactly the staged rotation of the device starts
  its validation, and the returned row is the stored one.\<close>

theorem StartValidation_outcome:
  assumes "rotation_ok (w_db w)" "no_faults env"
  shows "fst (StartValidation env k dv w) =
    (case rot_map (w_db w) k of
        None \<Rightarrow> Inl (ErrCredential CErrRotationNotFound)
      | Some r \<Rightarrow>
          if rot_DeviceID r \<noteq> dv then Inl (ErrCredential CErrRotationNotFound)
          else if rot_Status r \<noteq> RStaged then Inl (ErrCredential CErrInvalidRotationState)
          else Inr (r\<lparr>rot_Status := RValidating, rot_ValidationStartedAt := Some (clock env (w_ticks w + 2))\<rparr>))"
  using assms by (rule StartValidation_returns)

theorem StartValidation_outcome_witness:
  "(\<exists>r. fst (StartValidation demo_env 1 1 demo_staged) = Inr r \<and> rot_Status r = RValidating) \<and>
   fst (StartValidation demo_env 1 1 demo_requested) = Inl (ErrCredential CErrInvalidRotationState) \<and>
   fst (StartValidation demo_env 1 2 demo_staged) = Inl (ErrCredential CErrRotationNotFound)"
  using StartValidation_outcome [OF demo_rotation_ok(3) demo_no_faults, of 1 1]
    StartValidation_outcome [OF demo_rotation_ok(3) demo_no_faults, of 1 2]
    StartValidation_outcome [OF demo_rotation_ok(2) demo_no_faults, of 1 1]
  by (simp add: demo_worlds tmap_def demo_rotation_def)

lemma demo_rot_map:
  "rot_map (w_db (demo_world cs [demo_rotation st n u])) i = (if i = 1 then Some (demo_rotation st n u) else None)"
  by (simp add: tmap_def demo_rotation_def)

lemma demo_rotation_fields [simp]:
  "rot_PreviousCredentialID (demo_rotation st n u) = 1" "rot_NewCredentialID (demo_rotation st n u) = n"
  "rot_Status (demo_rotation st n u) = st" "rot_DeviceID (demo_rotation st n u) = 1"
  "rot_GraceMinutes (demo_rotation st n u) = 60" "rot_GraceUntil (demo_rotation st n u) = u"
  by (simp_all add: demo_rotation_def)

text \<open>\<open>ConfirmCredentialUse\<close> never fails without a database fault, and its value says whether the
  credential is the replacement of a rotation under validation.\<close>

theorem ConfirmCredentialUse_outcome:
  assumes "rotation_ok (w_db w)" "no_faults env"
  shows "fst (ConfirmCredentialUse env i w) =
    Inr (\<exists>r \<in> set (tbl_rows (rotations (w_db w))). rot_NewCredentialID r = Some i \<and> rot_Status r = RValidating)"
  using assms by (rule ConfirmCredentialUse_returns)

theorem ConfirmCredentialUse_outcome_witness:
  "fst (ConfirmCredentialUse demo_env 2 demo_validating) = Inr True \<and>
   fst (ConfirmCredentialUse demo_env 1 demo_validating) = Inr False \<and>
   fst (ConfirmCredentialUse demo_env 2 demo_staged) = Inr False"
  using ConfirmCredentialUse_outcome [OF demo_rotation_ok(4) demo_no_faults, of 2]
    ConfirmCredentialUse_outcome [OF demo_rotation_ok(4) demo_no_faults, of 1]
    ConfirmCredentialUse_outcome [OF demo_rotation_ok(3) demo_no_faults, of 2]
  by (simp add: demo_worlds demo_rotation_def)

text \<open>C16. A confirmation starts the grace period of exactly the requested number of minutes, in
  nanoseconds and without wrap-around: the previous credential and the rotation carry the same
  deadline, the replacement is marked as confirmed, and no other row changes.\<close>

theorem confirmation_starts_grace:
  assumes "rotation_ok (w_db w)" "grace_range (w_db w)" "ConfirmCredentialUse env i w = (Inr True, w')"
  shows "\<exists>k r p c t.
    rot_map (w_db w) k = Some r \<and> rot_NewCredentialID r = Some i \<and> rot_Status r = RValidating \<and>
    i \<noteq> rot_PreviousCredentialID r \<and>
    cred_map (w_db w) (rot_PreviousCredentialID r) = Some p \<and> cr_Status p = CActive \<and>
    cred_map (w_db w) i = Some c \<and> cr_Status c = CActive \<and>
    cred_map (w_db w') = (cred_map (w_db w))(i \<mapsto> c\<lparr>cr_ConfirmedAt := Some t\<rparr>,
       rot_PreviousCredentialID r \<mapsto>
         p\<lparr>cr_Status := CGrace, cr_GraceUntil := Some (t + rot_GraceMinutes r * 60000000000)\<rparr>) \<and>
    rot_map (w_db w') = (rot_map (w_db w))(k \<mapsto>
       r\<lparr>rot_Status := RGrace, rot_ConfirmedAt := Some t,
         rot_GraceUntil := Some (t + rot_GraceMinutes r * 60000000000)\<rparr>) \<and>
    dev_map (w_db w') = dev_map (w_db w)"
  using assms(1,3)
proof (rule ConfirmCredentialUse_writes)
  fix k r p c t g
  assume r: "rot_map (w_db w) k = Some r" and g: "g = t + duration_minutes (rot_GraceMinutes r)"
    and rest: "rot_NewCredentialID r = Some i" "rot_Status r = RValidating" "i \<noteq> rot_PreviousCredentialID r"
    "cred_map (w_db w) (rot_PreviousCredentialID r) = Some p" "cr_Status p = CActive"
    "cred_map (w_db w) i = Some c" "cr_Status c = CActive"
    "cred_map (w_db w') = (cred_map (w_db w))(i \<mapsto> c\<lparr>cr_ConfirmedAt := Some t\<rparr>,
       rot_PreviousCredentialID r \<mapsto> p\<lparr>cr_Status := CGrace, cr_GraceUntil := Some g\<rparr>)"
    "rot_map (w_db w') = (rot_map (w_db w))(k \<mapsto>
       r\<lparr>rot_Status := RGrace, rot_ConfirmedAt := Some t, rot_GraceUntil := Some g\<rparr>)"
    "dev_map (w_db w') = dev_map (w_db w)"
  have "1 \<le> rot_GraceMinutes r \<and> rot_GraceMinutes r \<le> 1440"
    using assms(2) rot_rows.tmap_row [OF r] by (simp add: grace_range_def)
  then have "g = t + rot_GraceMinutes r * 60000000000" using g by (simp add: duration_minutes_exact)
  with r rest show ?thesis by blast
qed

theorem confirmation_starts_grace_witness:
  "\<exists>w' p. ConfirmCredentialUse demo_env 2 demo_validating = (Inr True, w') \<and>
     cred_map (w_db w') 1 = Some p \<and> cr_Status p = CGrace"
proof -
  have "fst (ConfirmCredentialUse demo_env 2 demo_validating) = Inr True"
    using ConfirmCredentialUse_returns [OF demo_rotation_ok(4) demo_no_faults, of 2]
    by (simp add: demo_worlds demo_rotation_def)
  then obtain w' where w': "ConfirmCredentialUse demo_env 2 demo_validating = (Inr True, w')"
    by (cases "ConfirmCredentialUse demo_env 2 demo_validating") auto
  have "grace_range (w_db demo_validating)"
    by (simp add: grace_range_def demo_worlds demo_rotation_def)
  from confirmation_starts_grace [OF demo_rotation_ok(4) this w'] w' show ?thesis
    by (auto simp: demo_worlds demo_rot_map split: if_splits)
qed

text \<open>\<open>Rollback\<close> without a database fault succeeds exactly for an open rotation of the device whose
  grace period, if it is in one, has not ended.\<close>

theorem Rollback_outcome:
  assumes "rotation_ok (w_db w)" "no_faults env"
  shows "fst (Rollback env k dv reason w) =
    (case rot_map (w_db w) k of
        None \<Rightarrow> Inl (ErrCredential CErrRotationNotFound)
      | Some r \<Rightarrow>
          if rot_DeviceID r \<noteq> dv then Inl (ErrCredential CErrRotationNotFound)
          else if \<not> is_open (rot_Status r) \<or>
                  rot_Status r = RGrace \<and> the (rot_GraceUntil r) \<le> clock env (w_ticks w + 2)
               then Inl (ErrCredential CErrInvalidRotationState)
          else Inr ())"
  using assms by (rule Rollback_returns)

theorem Rollback_outcome_witness:
  "fst (Rollback demo_env 1 1 ''undo'' (demo_grace 2000000000)) = Inl (ErrCredential CErrInvalidRotationState) \<and>
   fst (Rollback demo_env 1 1 ''undo'' (demo_grace 2000000001)) = Inr () \<and>
   fst (Rollback demo_env 1 1 ''undo'' demo_staged) = Inr ()"
  using Rollback_outcome [OF demo_rotation_ok(5) demo_no_faults, of 1 1 "''undo''" 2000000000]
    Rollback_outcome [OF demo_rotation_ok(5) demo_no_faults, of 1 1 "''undo''" 2000000001]
    Rollback_outcome [OF demo_rotation_ok(3) demo_no_faults, of 1 1 "''undo''"]
  by (simp add: demo_worlds tmap_def demo_rotation_def demo_world_def initial_world_def)

text \<open>A device without an open rotation, and its one active credential.\<close>

lemma no_open_rotation:
  assumes "wf_db d" "\<And>y. rot_map d (rot_ID y) = Some y \<Longrightarrow> rot_DeviceID y = dv \<Longrightarrow> is_open (rot_Status y) \<Longrightarrow> False"
  shows "open_rotations d dv = []"
  unfolding open_rotations_def filter_empty_conv
  using assms(2) rot_rows.row_tmap [OF wf_dbD(3) [OF assms(1)]] by auto

lemma only_active_credential:
  assumes "rotation_ok d" "dev_map d dv = Some x" "open_rotations d dv = []"
    and "cred_map d i = Some c" "cr_Status c = CActive" "cr_DeviceID c = dv"
  shows "map cr_ID (active_credentials d dv) = [i]"
  using assms(1,2)
proof (cases rule: device_cases)
  case (idle a)
  have "c \<in> set (active_credentials d dv)"
    using cred_rows.tmap_row [OF assms(4)] assms(5,6) by (simp add: active_credentials_def)
  then show ?thesis using idle cred_rows.tmap_key [OF assms(4)] by simp
qed (use assms(3) in simp)



text \<open>\<open>CurrentRotation\<close> without a database fault returns the one open rotation of the device, or
  nothing when there is none.\<close>

theorem CurrentRotation_outcome:
  assumes "rotation_ok (w_db w)" "no_faults env" "dev_map (w_db w) dv = Some d"
  shows "fst (CurrentRotation env dv w) =
      Inr (case open_rotations (w_db w) dv of [] \<Rightarrow> None | r # _ \<Rightarrow> Some r) \<and>
    (\<forall>k r. rot_map (w_db w) k = Some r \<and> rot_DeviceID r = dv \<and> is_open (rot_Status r) \<longrightarrow>
       fst (CurrentRotation env dv w) = Inr (Some r))"
proof -
  have wf: "wf_db (w_db w)" using assms(1) by (simp add: rotation_ok_def)
  have "open_rotations (w_db w) dv = [r]"
    if "rot_map (w_db w) k = Some r" "rot_DeviceID r = dv" "is_open (rot_Status r)" for k r
  proof -
    have "r \<in> set (open_rotations (w_db w) dv)"
      using that rot_rows.tmap_row [OF that(1)] by (simp add: open_rotations_def)
    then show ?thesis by (cases rule: device_cases [OF assms(1,3)]) auto
  qed
  then show ?thesis using CurrentRotation_returns [OF assms] by auto
qed

theorem CurrentRotation_outcome_witness:
  "fst (CurrentRotation demo_env 1 demo_staged) = Inr (Some (demo_rotation RStaged (Some 2) None)) \<and>
   fst (CurrentRotation demo_env 1 demo_idle) = Inr None"
  using CurrentRotation_outcome [OF demo_rotation_ok(3) demo_no_faults, of 1 demo_device]
    CurrentRotation_outcome [OF demo_rotation_ok(1) demo_no_faults, of 1 demo_device]
  by (simp add: demo_worlds demo_device_map open_rotations_def)

lemma reconcile_expired_run:
  assumes ok: "rotation_ok (w_db w)" and nf: "no_faults env"
  shows "\<exists>w'. ReconcileExpiredGrace env w =
      ((length (filter (expired_grace (clock env (w_ticks w))) (tbl_rows (rotations (w_db w)))), None), w') \<and>
    rot_map (w_db w') = (\<lambda>k. map_option (\<lambda>r. if expired_grace (clock env (w_ticks w)) r
        then completed_rotation (clock env (w_ticks w)) r else r) (rot_map (w_db w) k)) \<and>
    cred_map (w_db w') = (\<lambda>i. if \<exists>k r. rot_map (w_db w) k = Some r \<and> expired_grace (clock env (w_ticks w)) r \<and>
          rot_PreviousCredentialID r = i
        then map_option (revoked_credential (clock env (w_ticks w))) (cred_map (w_db w) i) else cred_map (w_db w) i) \<and>
    dev_map (w_db w') = dev_map (w_db w)"
proof -
  have wf: "wf_db (w_db w)" using ok by (simp add: rotation_ok_def)
  let ?t = "clock env (w_ticks w)"
  let ?due = "filter (expired_grace ?t) (tbl_rows (rotations (w_db w)))"
  note rows = rot_rows.tmap_Some [OF wf_dbD(3) [OF wf]]
  have "distinct (map rot_ID ?due)"
    using wf by (auto simp: wf_db_def wf_table_def distinct_map_filter)
  moreover have "rot_map (w_db (tick (tick w))) (rot_ID it) = Some it \<and> expired_grace ?t it" if "it \<in> set ?due" for it
    using that by (simp add: rows)
  moreover have "rotation_ok (w_db (tick (tick w)))" using ok by simp
  ultimately have "\<exists>w'. reconcile_loop env ?t ?due 0 (tick (tick w)) = ((0 + length ?due, None), w') \<and>
    rot_map (w_db w') = (\<lambda>k. if k \<in> rot_ID ` set ?due then map_option (completed_rotation ?t) (rot_map (w_db (tick (tick w))) k)
        else rot_map (w_db (tick (tick w))) k) \<and>
    cred_map (w_db w') = (\<lambda>i. if i \<in> rot_PreviousCredentialID ` set ?due
        then map_option (revoked_credential ?t) (cred_map (w_db (tick (tick w))) i) else cred_map (w_db (tick (tick w))) i) \<and>
    dev_map (w_db w') = dev_map (w_db (tick (tick w)))"
    using nf by (intro reconcile_loop_expired)
  then obtain w' where w': "reconcile_loop env ?t ?due 0 (tick (tick w)) = ((0 + length ?due, None), w')"
    "rot_map (w_db w') = (\<lambda>k. if k \<in> rot_ID ` set ?due then map_option (completed_rotation ?t) (rot_map (w_db w) k)
        else rot_map (w_db w) k)"
    "cred_map (w_db w') = (\<lambda>i. if i \<in> rot_PreviousCredentialID ` set ?due
        then map_option (revoked_credential ?t) (cred_map (w_db w) i) else cred_map (w_db w) i)"
    "dev_map (w_db w') = dev_map (w_db w)"
    unfolding tick_simps by (elim exE conjE)
  have "ReconcileExpiredGrace env w = ((length ?due, None), w')"
    using w'(1) by (simp add: ReconcileExpiredGrace_def run_ok nf)
  moreover have "k \<in> rot_ID ` set ?due \<longleftrightarrow> (\<exists>r. rot_map (w_db w) k = Some r \<and> expired_grace ?t r)" for k
    by (auto simp: rows image_iff)
  moreover have "i \<in> rot_PreviousCredentialID ` set ?due \<longleftrightarrow>
      (\<exists>k r. rot_map (w_db w) k = Some r \<and> expired_grace ?t r \<and> rot_PreviousCredentialID r = i)" for i
    by (auto simp: rows image_iff)
  moreover have "rot_map (w_db w') = (\<lambda>k. map_option (\<lambda>r. if expired_grace ?t r then completed_rotation ?t r else r)
      (rot_map (w_db w) k))"
  proof
    fix k show "rot_map (w_db w') k = map_option (\<lambda>r. if expired_grace ?t r then completed_rotation ?t r else r)
      (rot_map (w_db w) k)"
      using calculation(2) [of k] w'(2) by (cases "rot_map (w_db w) k") auto
  qed
  ultimately show ?thesis using w'(3,4) by (intro exI [of _ w']) simp
qed

text \<open>C14. \<open>ReconcileExpiredGrace\<close> without a database fault completes exactly the rotations whose grace
  period has ended at the time it reads, revokes their previous credentials and no other, and leaves
  no expired grace period behind; its count is their number.\<close>

theorem reconcile_completes_expired:
  assumes ok: "rotation_ok (w_db w)" and nf: "no_faults env"
  shows "\<exists>w'. ReconcileExpiredGrace env w =
      ((length (filter (expired_grace (clock env (w_ticks w))) (tbl_rows (rotations (w_db w)))), None), w') \<and>
    rot_map (w_db w') = (\<lambda>k. map_option (\<lambda>r. if expired_grace (clock env (w_ticks w)) r
        then completed_rotation (clock env (w_ticks w)) r else r) (rot_map (w_db w) k)) \<and>
    cred_map (w_db w') = (\<lambda>i. if \<exists>k r. rot_map (w_db w) k = Some r \<and> expired_grace (clock env (w_ticks w)) r \<and>
          rot_PreviousCredentialID r = i
        then map_option (revoked_credential (clock env (w_ticks w))) (cred_map (w_db w) i) else cred_map (w_db w) i) \<and>
    dev_map (w_db w') = dev_map (w_db w)"
  using assms by (rule reconcile_expired_run)

theorem reconcile_completes_expired_witness:
  "fst (ReconcileExpiredGrace demo_env (demo_grace 0)) = (1, None) \<and>
   fst (ReconcileExpiredGrace demo_env (demo_grace 1)) = (0, None)"
  using reconcile_completes_expired [OF demo_rotation_ok(5) demo_no_faults, of 0]
    reconcile_completes_expired [OF demo_rotation_ok(5) demo_no_faults, of 1]
  by (auto simp: demo_grace_def demo_world_def initial_world_def expired_grace_def)

end
