(* ===== verification/Hermes_Cycle.thy ===== *)
theory Hermes_Cycle
  imports Hermes_Access Hermes_Rotation_Properties
begin

text \<open>
  One rotation from its request to its end, through the endpoints of the server: the request
  of the administrator, the candidate and the validation of the Agent, the first DDNS update
  with the new key, and the reconciler.
\<close>

lemma ParseUint64_dec_string: "n < 2 ^ 64 \<Longrightarrow> ParseUint64 (dec_string n) = Some n"
  using dec_string_facts [of n] by (simp add: ParseUint64_def)

lemma hex_char_not_space: "n < 16 \<Longrightarrow> \<not> is_space (hex_char n)"
  by (simp add: is_space_def hex_char_code split: if_splits)

lemma TrimSpace_hex_encode [simp]: "TrimSpace (hex_encode bs) = hex_encode bs"
  by (rule TrimSpace_no_space) (use hex_encode_chars hex_char_not_space in blast)

lemma validHexBytes_hash: "length (sha256 env p) = 32 \<Longrightarrow> validHexBytes (HashAPIKey env p) 32"
  by (simp add: validHexBytes_def HashAPIKey_def hex_decode_encode)

section \<open>The first three steps\<close>

lemma request_step:
  assumes ok: "rotation_ok (w_db w)" and nf: "no_faults env" and g: "1 \<le> g" "g \<le> 1440" "valid_grace (srv_Validator srv) g"
    and dev: "dev_map (w_db w) dv = Some x" "dev_Status x = ''active''" "open_rotations (w_db w) dv = []" "dv < 2 ^ 64"
  obtains r w' where
    "admin_endpoint env srv (RequestCredentialRotation (dec_string dv) (Bound g)) w =
       (reply_of 201 (RotationBody r ''agent_stage_candidate''), w')"
    "rot_ID r = Suc (tbl_seq (rotations (w_db w)))" "rot_DeviceID r = dv" "rot_Status r = RRequested"
    "rot_NewCredentialID r = None" "rot_GraceMinutes r = g" "rotation_ok (w_db w')"
    "w_db w' = rotations_update (ins_row r) (w_db w)" "rot_map (w_db w') (rot_ID r) = Some r"
proof -
  have wf: "wf_db (w_db w)" using ok by (simp add: rotation_ok_def)
  obtain r w' where run: "RequestRotation env dv g w = (Inr r, w')"
    using RequestRotation_returns [OF ok nf, of dv g] dev g by (cases "RequestRotation env dv g w") auto
  from wf run show thesis
  proof (rule RequestRotation_success)
    fix d p t ct
    assume r: "r = \<lparr>rot_ID = Suc (tbl_seq (rotations (w_db w))), rot_CreatedAt = ct, rot_DeviceID = dv,
                rot_PreviousCredentialID = cr_ID p, rot_NewCredentialID = None,
                rot_Status = RRequested, rot_GraceMinutes = g, rot_RequestedAt = t,
                rot_StagedAt = None, rot_ValidationStartedAt = None, rot_ConfirmedAt = None,
                rot_GraceUntil = None, rot_CompletedAt = None, rot_RolledBackAt = None,
                rot_LastError = []\<rparr>" and w': "w_db w' = rotations_update (ins_row r) (w_db w)"
    have "rot_map (w_db w') (rot_ID r) = Some r"
      using rot_rows.tmap_ins [OF wf_dbD(3) [OF wf], of r] r w' by simp
    moreover have "rotation_ok (w_db w')" using rotation_ok_ops(2) [OF ok run] .
    ultimately show thesis
      using run w' g dev(4)
      by (intro that [of r w'])
        (simp_all add: requestCredentialRotation_def parse_param_def ParseUint64_dec_string bind_optional_def call_def answer_def, simp_all add: r)
  qed
qed

lemma stage_step:
  assumes ok: "rotation_ok (w_db w)" and nf: "no_faults env"
    and r: "rot_map (w_db w) k = Some r" "rot_DeviceID r = dv" "rot_Status r = RRequested" "k < 2 ^ 64"
    and v: "valid_stage (srv_Validator srv) \<lparr>st_KeyID = key, st_SecretHash = HashAPIKey env p\<rparr>"
    and key: "validHexBytes key 8" "ToLower (TrimSpace key) = key" "length (sha256 env p) = 32"
      "\<forall>c \<in> set (tbl_rows (creds (w_db w))). cr_KeyID c \<noteq> key"
    and auth: "dev_ID (fst auth) = dv"
  obtains c t w' where
    "agent_endpoint env srv rq auth (AgentStageCandidate (dec_string k) (Bound \<lparr>st_KeyID = key, st_SecretHash = HashAPIKey env p\<rparr>)) w =
       (reply_of 201 (CandidateBody c ''install_candidate_then_start_validation''), w')"
    "cr_DeviceID c = dv" "cr_Status c = CPending" "cr_SecretHash c = HashAPIKey env p" "cr_ExpiresAt c = None"
    "rotation_ok (w_db w')" "creds (w_db w') = ins_row c (creds (w_db w))" "cr_ID c = Suc (tbl_seq (creds (w_db w)))"
    "rot_map (w_db w') k = Some (r\<lparr>rot_NewCredentialID := Some (cr_ID c), rot_Status := RStaged, rot_StagedAt := Some t\<rparr>)"
    "devices (w_db w') = devices (w_db w)"
proof -
  have wf: "wf_db (w_db w)" using ok by (simp add: rotation_ok_def)
  let ?h = "HashAPIKey env p"
  have lower: "ToLower (TrimSpace ?h) = ?h" by (simp add: HashAPIKey_def)
  let ?c = "\<lparr>cr_ID = Suc (tbl_seq (creds (w_db w))), cr_CreatedAt = clock env (w_ticks w + 4), cr_DeviceID = dv,
                cr_KeyID = key, cr_SecretHash = ?h, cr_Status = CPending, cr_ActivatedAt = None,
                cr_ConfirmedAt = None, cr_ExpiresAt = None, cr_RevokedAt = None,
                cr_GraceUntil = None, cr_LastUsedAt = None, cr_LastUsedIP = [],
                cr_ReplacesCredentialID = Some (rot_PreviousCredentialID r)\<rparr>"
  have "fst (StageCandidate env k dv key ?h w) = Inr ?c"
    using StageCandidate_returns [OF ok nf, of k dv key ?h] r key validHexBytes_hash [OF key(3)] by (simp add: lower)
  then obtain w' where run: "StageCandidate env k dv key ?h w = (Inr ?c, w')"
    by (cases "StageCandidate env k dv key ?h w") auto
  from wf run show thesis
  proof (rule StageCandidate_success)
    fix r' pc t
    assume r': "rot_map (w_db w) k = Some r'" and w': "w_db w' = rotations_update (upd_rows (\<lambda>x. rot_ID x = k)
        (\<lambda>x. x\<lparr>rot_NewCredentialID := Some (cr_ID ?c), rot_Status := RStaged, rot_StagedAt := Some t\<rparr>))
        (creds_update (ins_row ?c) (w_db w))"
    have "rot_map (w_db w') k = Some (r\<lparr>rot_NewCredentialID := Some (cr_ID ?c), rot_Status := RStaged, rot_StagedAt := Some t\<rparr>)"
      using r(1) rot_rows.tmap_key [OF r(1)] unfolding w' by (simp add: rot_rows.tmap_upd)
    moreover have "rotation_ok (w_db w')" using rotation_ok_ops(3) [OF ok run] .
    ultimately show thesis
      using that [of ?c w' t] run w' v r(4) auth
      by (simp add: agentStageCandidate_def parse_param_def ParseUint64_dec_string bind_body_def call_def answer_def)
  qed
qed

lemma start_step:
  assumes ok: "rotation_ok (w_db w)" and nf: "no_faults env"
    and r: "rot_map (w_db w) k = Some r" "rot_DeviceID r = dv" "rot_Status r = RStaged" "rot_NewCredentialID r = Some n" "k < 2 ^ 64"
    and auth: "dev_ID (fst auth) = dv"
  obtains b t w' where
    "agent_endpoint env srv rq auth (AgentStartValidation (dec_string k)) w =
       (reply_of 200 (RotationBody b ''perform_ddns_update_with_candidate''), w')"
    "rotation_ok (w_db w')" "devices (w_db w') = devices (w_db w)"
    "rot_map (w_db w') k = Some (r\<lparr>rot_Status := RValidating, rot_ValidationStartedAt := Some t\<rparr>)"
    "creds (w_db w') = upd_rows (\<lambda>c. cr_ID c = n \<and> cr_DeviceID c = dv \<and> cr_Status c = CPending)
          (\<lambda>c. c\<lparr>cr_Status := CActive, cr_ActivatedAt := Some t\<rparr>) (creds (w_db w))"
proof -
  have wf: "wf_db (w_db w)" using ok by (simp add: rotation_ok_def)
  obtain b w' where run: "StartValidation env k dv w = (Inr b, w')"
    using StartValidation_returns [OF ok nf, of k dv] r by (cases "StartValidation env k dv w") auto
  from wf run show thesis
  proof (rule StartValidation_success)
    fix r0 n0 c t
    assume r0: "rot_map (w_db w) k = Some r0" "rot_NewCredentialID r0 = Some n0"
      and w': "w_db w' = rotations_update (upd_rows (\<lambda>x. rot_ID x = k)
        (\<lambda>x. x\<lparr>rot_Status := RValidating, rot_ValidationStartedAt := Some t\<rparr>))
        (creds_update (upd_rows (\<lambda>c. cr_ID c = n0 \<and> cr_DeviceID c = dv \<and> cr_Status c = CPending)
          (\<lambda>c. c\<lparr>cr_Status := CActive, cr_ActivatedAt := Some t\<rparr>)) (w_db w))"
    have "rot_map (w_db w') k = Some (r\<lparr>rot_Status := RValidating, rot_ValidationStartedAt := Some t\<rparr>)"
      using r(1) rot_rows.tmap_key [OF r(1)] unfolding w' by (simp add: rot_rows.tmap_upd)
    moreover have "rotation_ok (w_db w')" using rotation_ok_ops(4) [OF ok run] .
    moreover have "n0 = n" using r0 r by simp
    ultimately show thesis
      using run r(5) auth w'
      by (intro that [of b w' t])
        (simp_all add: agentStartValidation_def parse_param_def ParseUint64_dec_string call_def answer_def)
  qed
qed

section \<open>The first update with the new key\<close>

lemma new_key_accepted:
  assumes nf: "no_faults env"
    and dev: "x \<in> set (tbl_rows (devices (w_db w)))" "dev_Status x = ''active''" "distinct (map dev_Name (tbl_rows (devices (w_db w))))"
    and c: "c \<in> set (tbl_rows (creds (w_db w)))" "cr_DeviceID c = dev_ID x" "cr_Status c = CActive" "cr_ExpiresAt c = None"
      "cr_SecretHash c = HashAPIKey env p"
    and uniq: "\<And>c'. c' \<in> set (tbl_rows (creds (w_db w))) \<Longrightarrow> cr_SecretHash c' = HashAPIKey env p \<Longrightarrow> c' = c"
    and run: "AuthenticateDDNS env (dev_Name x) p cip w = (r, w')"
  shows "\<exists>a. r = Inr a \<and> cr_ID (ac_Credential a) = cr_ID c"
proof -
  let ?t = "clock env (Suc (w_ticks w))"
  let ?cs = "filter (\<lambda>c. cr_DeviceID c = dev_ID x \<and> (cr_Status c = CActive \<or> cr_Status c = CGrace)) (tbl_rows (creds (w_db w)))"
  have "find (\<lambda>d. dev_Name d = dev_Name x \<and> dev_Status d = ''active'') (tbl_rows (devices (w_db w))) = Some x"
    using dev(2) inj_onD [OF dev(3) [unfolded distinct_map, THEN conjunct2]] dev(1)
    by (intro find_unique [OF dev(1)]) simp_all
  moreover have "find (usable_credential env ?t p) ?cs = Some c"
  proof (rule find_unique)
    fix c' assume "c' \<in> set ?cs" "usable_credential env ?t p c'"
    then show "c' = c" by (intro uniq) (simp_all add: usable_credential_def VerifyAPIKey_iff)
  qed (simp_all add: c usable_credential_def has_expired_def VerifyAPIKey_iff)
  moreover obtain v where "authenticate_loop env ?t p cip x ?cs (tick (tick (tick w))) =
      (case find (usable_credential env ?t p) ?cs of None \<Rightarrow> Inl (ErrDDNS DErrBadAuth)
       | Some c \<Rightarrow> Inr \<lparr>ac_Device = x, ac_Credential = c\<lparr>cr_LastUsedAt := Some ?t, cr_LastUsedIP := cip\<rparr>\<rparr>, v)"
    using authenticate_loop_run [OF nf] by blast
  ultimately show ?thesis using run by (auto simp: AuthenticateDDNS_def run_simps nf)
qed

text \<open>What an authentication and an update leave of the rotations.\<close>

lemma same_rotations:
  assumes "beyond_names d' = beyond_names d \<or> beyond_sighting d' = beyond_sighting d" "rotation_ok d"
  shows "rotation_ok d' \<and> rotations d' = rotations d \<and> dom (dev_map d') = dom (dev_map d)"
  using assms dev_keysD(2) [of d' d] rotation_ok_cong [of d' d] by (auto simp: beyond_defs)

text \<open>An accepted update of the device confirms the rotation that is validating its credential.\<close>

lemma update_confirms:
  assumes nf: "no_faults env" and ok: "rotation_ok (w_db w)"
    and auth: "\<And>r v. AuthenticateDDNS env user p (callerIP srv rq) w = (r, v) \<Longrightarrow> \<exists>a. r = Inr a \<and> cr_ID (ac_Credential a) = n"
    and rq: "rq_BasicAuth rq = Some (user, p)"
    and run: "serve env srv rq (DDNSUpdate h m) w = (rp, w')" "rp_Status rp = 200"
    and r: "rot_map (w_db w) k = Some r" "rot_NewCredentialID r = Some n" "rot_Status r = RValidating"
      "1 \<le> rot_GraceMinutes r" "rot_GraceMinutes r \<le> 1440"
  obtains t where "rotation_ok (w_db w')"
    "rot_map (w_db w') k = Some (r\<lparr>rot_Status := RGrace, rot_ConfirmedAt := Some t, rot_GraceUntil := Some (t + rot_GraceMinutes r * 60000000000)\<rparr>)"
    "dom (dev_map (w_db w')) = dom (dev_map (w_db w))"
proof -
  obtain a v where a: "AuthenticateDDNS env user p (callerIP srv rq) w = (Inr a, v)" "cr_ID (ac_Credential a) = n"
    using auth by (cases "AuthenticateDDNS env user p (callerIP srv rq) w") auto
  obtain res v' where u: "UpdateDDNS env (srv_DDNS srv) a h m (callerIP srv rq) (rq_UserAgent rq) v = (Inr res, v')"
    and w': "w' = snd (ConfirmCredentialUse env n v')"
    using run rq a by (auto simp: serve_def ddnsUpdate_def Let_def call_def answer_def ddns_error_def reply_of_def
        split: prod.splits sum.splits if_splits)
  have v: "rotation_ok (w_db v) \<and> rotations (w_db v) = rotations (w_db w) \<and> dom (dev_map (w_db v)) = dom (dev_map (w_db w))"
    using same_rotations [OF _ ok] keepsD [OF AuthenticateDDNS_frame a(1)] by blast
  then have v': "rotation_ok (w_db v') \<and> rotations (w_db v') = rotations (w_db v) \<and> dom (dev_map (w_db v')) = dom (dev_map (w_db v))"
    using same_rotations keepsD [OF UpdateDDNS_frame u] by blast
  have r': "rot_map (w_db v') k = Some r" using v v' r(1) by simp
  have ok': "rotation_ok (w_db v')" using v' by simp
  have "r \<in> set (tbl_rows (rotations (w_db v')))" using rot_rows.tmap_row [OF r'] .
  then have "fst (ConfirmCredentialUse env n v') = Inr True"
    using ConfirmCredentialUse_returns [OF ok' nf, of n] r(2,3) by auto
  then have conf: "ConfirmCredentialUse env n v' = (Inr True, w')" using w' by (metis prod.collapse)
  from ok' conf show thesis
  proof (rule ConfirmCredentialUse_writes)
    fix k' r0 pc c t g
    assume r0: "rot_map (w_db v') k' = Some r0" "rot_NewCredentialID r0 = Some n" "rot_Status r0 = RValidating"
      and g: "g = t + duration_minutes (rot_GraceMinutes r0)"
      and m: "rot_map (w_db w') = (rot_map (w_db v'))(k' \<mapsto> r0\<lparr>rot_Status := RGrace, rot_ConfirmedAt := Some t, rot_GraceUntil := Some g\<rparr>)"
      and d: "dev_map (w_db w') = dev_map (w_db v')"
    have inv: "lc_inv (abs_lc (w_db v'))" using ok' by (simp add: rotation_ok_def)
    have "rot_DeviceID r0 = rot_DeviceID r"
      using validating_credentials [OF ok' r0] validating_credentials [OF ok' r' r(2,3)] by (metis option.inject)
    then have "k' = k" using lc_one_open [OF inv, of k' "abs_rot r0" k "abs_rot r"] r0 r' r(3) by simp
    with r0 r' have "r0 = r" by simp
    with m \<open>k' = k\<close> g r(4,5) d v v' rotation_ok_ops(5) [OF ok' conf] show thesis
      by (intro that [of t]) (simp_all add: duration_minutes_exact)
  qed
qed


text \<open>What the reconciler leaves once the grace period is over.\<close>

lemma reconcile_step:
  assumes ok: "rotation_ok (w_db w)" and nf: "no_faults env"
    and r: "rot_map (w_db w) k = Some r" "rot_Status r = RGrace" "rot_GraceUntil r = Some u" "u \<le> clock env (w_ticks w)"
      "rot_NewCredentialID r = Some n" "rot_DeviceID r = dv"
    and dev: "dv \<in> dom (dev_map (w_db w))"
  shows "let w5 = snd (ReconcileExpiredGrace env w) in
    map_option rot_Status (rot_map (w_db w5) k) = Some RCompleted \<and>
    map_option cr_Status (cred_map (w_db w5) (rot_PreviousCredentialID r)) = Some CRevoked \<and>
    map cr_ID (active_credentials (w_db w5) dv) = [n]"
proof -
  have inv: "lc_inv (abs_lc (w_db w))" using ok by (simp add: rotation_ok_def)
  obtain w' where run: "ReconcileExpiredGrace env w =
      ((length (filter (expired_grace (clock env (w_ticks w))) (tbl_rows (rotations (w_db w)))), None), w')"
    and rots: "rot_map (w_db w') = (\<lambda>k. map_option (\<lambda>r. if expired_grace (clock env (w_ticks w)) r
        then completed_rotation (clock env (w_ticks w)) r else r) (rot_map (w_db w) k))"
    and creds: "cred_map (w_db w') = (\<lambda>i. if \<exists>k r. rot_map (w_db w) k = Some r \<and> expired_grace (clock env (w_ticks w)) r \<and>
          rot_PreviousCredentialID r = i
        then map_option (revoked_credential (clock env (w_ticks w))) (cred_map (w_db w) i) else cred_map (w_db w) i)"
    and devs: "dev_map (w_db w') = dev_map (w_db w)"
    using reconcile_expired_run [OF ok nf] by blast
  have ok': "rotation_ok (w_db w')" using rotation_ok_ops(7) [OF ok run] .
  have wf': "wf_db (w_db w')" using ok' by (simp add: rotation_ok_def)
  have due: "expired_grace (clock env (w_ticks w)) r" using r by (simp add: expired_grace_def)
  have op: "is_open (rot_Status r)" using r by simp
  obtain pc c where pc: "cred_map (w_db w) (rot_PreviousCredentialID r) = Some pc"
    and c: "cred_map (w_db w) n = Some c" "cr_Status c = CActive" "cr_DeviceID c = dv"
    using ok r(1) op by (cases rule: open_rotation_rows) (use r in auto)
  have kept: "cred_map (w_db w') n = Some c"
  proof -
    have False if r2: "rot_map (w_db w) k2 = Some r2" "expired_grace (clock env (w_ticks w)) r2" "rot_PreviousCredentialID r2 = n" for k2 r2
    proof -
      have st: "rot_Status r2 = RGrace" using r2(2) by (simp add: expired_grace_def)
      then have "is_open (rot_Status r2)" by simp
      with ok r2(1) show False by (cases rule: open_rotation_rows) (use st c r2(3) in auto)
    qed
    with c(1) show ?thesis unfolding creds by auto
  qed
  have closed: "open_rotations (w_db w') dv = []"
  proof (rule no_open_rotation [OF wf'])
    fix y assume y: "rot_map (w_db w') (rot_ID y) = Some y" "rot_DeviceID y = dv" "is_open (rot_Status y)"
    then have y0: "rot_map (w_db w) (rot_ID y) = Some y" "\<not> expired_grace (clock env (w_ticks w)) y"
      unfolding rots by (auto dest: arg_cong [of _ _ rot_Status] simp: completed_rotation_def split: if_splits)
    then have "rot_ID y = k" using lc_one_open [OF inv, of "rot_ID y" "abs_rot y" k "abs_rot r"] r op y by simp
    with y0 r(1) due show False by simp
  qed
  obtain x where "dev_map (w_db w') dv = Some x" using dev devs by auto
  from only_active_credential [OF ok' this closed kept c(2,3)] have "map cr_ID (active_credentials (w_db w') dv) = [n]" .
  moreover have "map_option rot_Status (rot_map (w_db w') k) = Some RCompleted"
    unfolding rots using r(1) due by (simp add: completed_rotation_def)
  moreover have "map_option cr_Status (cred_map (w_db w') (rot_PreviousCredentialID r)) = Some CRevoked"
    unfolding creds using r(1) due pc by (auto simp: revoked_credential_def)
  ultimately show ?thesis using run by (simp add: Let_def)
qed

lemma validated_key_accepted:
  assumes nf: "no_faults env"
    and rows: "tbl_rows (creds (w_db w)) = map (\<lambda>y. if cr_ID y = cr_ID c \<and> cr_DeviceID y = dv \<and> cr_Status y = CPending
        then y\<lparr>cr_Status := CActive, cr_ActivatedAt := Some t\<rparr> else y) (cs @ [c])"
    and c: "cr_DeviceID c = dv" "cr_Status c = CPending" "cr_SecretHash c = HashAPIKey env p" "cr_ExpiresAt c = None"
    and new: "\<forall>c \<in> set cs. cr_SecretHash c \<noteq> HashAPIKey env p"
    and x: "x \<in> set (tbl_rows (devices (w_db w)))" "distinct (map dev_Name (tbl_rows (devices (w_db w))))"
      "dev_ID x = dv" "dev_Status x = ''active''"
    and run: "AuthenticateDDNS env (dev_Name x) p cip w = (res, v)"
  shows "\<exists>a. res = Inr a \<and> cr_ID (ac_Credential a) = cr_ID c"
proof -
  let ?c = "c\<lparr>cr_Status := CActive, cr_ActivatedAt := Some t\<rparr>"
  have mem: "?c \<in> set (tbl_rows (creds (w_db w)))" unfolding rows using c by simp
  have uniq: "y = ?c" if y: "y \<in> set (tbl_rows (creds (w_db w)))" "cr_SecretHash y = HashAPIKey env p" for y
  proof -
    from y(1) obtain z where z: "z \<in> set cs \<or> z = c"
        "y = (if cr_ID z = cr_ID c \<and> cr_DeviceID z = dv \<and> cr_Status z = CPending
           then z\<lparr>cr_Status := CActive, cr_ActivatedAt := Some t\<rparr> else z)"
      unfolding rows set_map by (elim imageE) auto
    then have "cr_SecretHash z = HashAPIKey env p" using y(2) by (simp split: if_splits)
    with z(1) new have "z = c" by blast
    with z(2) c show ?thesis by simp
  qed
  have "\<exists>a. res = Inr a \<and> cr_ID (ac_Credential a) = cr_ID ?c"
    by (rule new_key_accepted [OF nf x(1,4,2) mem _ _ _ _ uniq run]) (use c x(3) in simp_all)
  then show ?thesis by simp
qed

text \<open>From a validation to the end: the update that is accepted with the new key, and the reconciler.\<close>

lemma confirmed_then_completed:
  assumes nf: "no_faults env" and ok: "rotation_ok (w_db w)"
    and auth: "\<And>res v. AuthenticateDDNS env user p (callerIP srv rq) w = (res, v) \<Longrightarrow> \<exists>a. res = Inr a \<and> cr_ID (ac_Credential a) = n"
    and rq: "rq_BasicAuth rq = Some (user, p)"
    and run: "serve env srv rq (DDNSUpdate h m) w = (rp, w')" "rp_Status rp = 200"
    and r: "rot_map (w_db w) k = Some r" "rot_NewCredentialID r = Some n" "rot_Status r = RValidating"
      "1 \<le> rot_GraceMinutes r" "rot_GraceMinutes r \<le> 1440" "rot_DeviceID r = dv"
    and dev: "dv \<in> dom (dev_map (w_db w))"
  shows "\<exists>t. map_option rot_Status (rot_map (w_db w') k) = Some RGrace \<and>
    (t + rot_GraceMinutes r * 60000000000 \<le> clock env (w_ticks w') \<longrightarrow>
      (let w5 = snd (ReconcileExpiredGrace env w') in
       map_option rot_Status (rot_map (w_db w5) k) = Some RCompleted \<and>
       map_option cr_Status (cred_map (w_db w5) (rot_PreviousCredentialID r)) = Some CRevoked \<and>
       map cr_ID (active_credentials (w_db w5) dv) = [n]))"
proof -
  obtain t where t: "rotation_ok (w_db w')"
      "rot_map (w_db w') k = Some (r\<lparr>rot_Status := RGrace, rot_ConfirmedAt := Some t,
         rot_GraceUntil := Some (t + rot_GraceMinutes r * 60000000000)\<rparr>)"
      "dom (dev_map (w_db w')) = dom (dev_map (w_db w))"
    by (rule update_confirms [OF nf ok auth rq run r(1-5)])
  let ?r = "r\<lparr>rot_Status := RGrace, rot_ConfirmedAt := Some t, rot_GraceUntil := Some (t + rot_GraceMinutes r * 60000000000)\<rparr>"
  have facts: "rot_Status ?r = RGrace" "rot_GraceUntil ?r = Some (t + rot_GraceMinutes r * 60000000000)"
    "rot_NewCredentialID ?r = Some n" "rot_DeviceID ?r = dv" "rot_PreviousCredentialID ?r = rot_PreviousCredentialID r"
    using r by simp_all
  have "dv \<in> dom (dev_map (w_db w'))" using t(3) dev by simp
  note completed = reconcile_step [OF t(1) nf t(2) facts(1,2) _ facts(3,4) this, unfolded facts(5)]
  show ?thesis by (intro exI [of _ t] conjI impI completed) (simp add: t(2))
qed

section \<open>The cycle\<close>


text \<open>The cycle of the one device of a concrete server.\<close>

lemma demo_idle_ok: "server_ok (w_db demo_idle)"
proof -
  note tables = demo_idle_def demo_world_def initial_world_def empty_database_def empty_table_def
  have "hosts_ok (w_db demo_idle) \<and> domains_ok (w_db demo_idle)"
    by (simp add: hosts_ok_def domains_ok_def tables wf_table_def)
  moreover have "enr_ok (w_db demo_idle)"
    by (simp add: enr_ok_def ident_ok_def tables wf_table_def tmap_def)
  moreover have "tel_ok (w_db demo_idle)" "net_ok (w_db demo_idle)"
    by (simp_all add: tel_ok_def net_ok_def net_snapshot_of_def device_wans_def device_segments_def wans_ok_def tables wf_table_def)
  moreover have "grace_range (w_db demo_idle)" by (simp add: grace_range_def tables)
  ultimately show ?thesis using demo_rotation_ok(1) by (simp add: server_ok_def) (simp add: tables)
qed


end
