(* ===== verification/Hermes_Isolation.thy ===== *)
theory Hermes_Isolation
  imports Hermes_Access Hermes_Cycle
begin

text \<open>
  Agents are isolated from each other: a request of an Agent endpoint changes rows of the device
  it is authenticated as, and nothing else in the database.
\<close>

section \<open>The rows of the other devices\<close>

definition foreign :: "('r \<Rightarrow> nat) \<Rightarrow> nat \<Rightarrow> 'r table \<Rightarrow> 'r table" where
  "foreign own dv t = \<lparr>tbl_rows = filter (\<lambda>r. own r \<noteq> dv) (tbl_rows t), tbl_seq = 0\<rparr>"

text \<open>
  The database without the rows of one device and without the counters of keys. Domains, hosts
  and logs are kept whole.
\<close>

definition others_of :: "nat \<Rightarrow> database \<Rightarrow> database" where
  "others_of dv d = d
     \<lparr>devices := foreign dev_ID dv (devices d), identities := foreign idc_DeviceID dv (identities d),
      enrollments := foreign enr_DeviceID dv (enrollments d), telemetries := foreign tel_DeviceID dv (telemetries d),
      netsnaps := foreign ns_DeviceID dv (netsnaps d), wans := foreign wan_DeviceID dv (wans d),
      segments := foreign seg_DeviceID dv (segments d), creds := foreign cr_DeviceID dv (creds d),
      rotations := foreign rot_DeviceID dv (rotations d)\<rparr>"

lemma others_of_eqI:
  assumes "domains d' = domains d" "hosts d' = hosts d" "logs d' = logs d"
    and "foreign dev_ID dv (devices d') = foreign dev_ID dv (devices d)"
    and "foreign idc_DeviceID dv (identities d') = foreign idc_DeviceID dv (identities d)"
    and "foreign enr_DeviceID dv (enrollments d') = foreign enr_DeviceID dv (enrollments d)"
    and "foreign tel_DeviceID dv (telemetries d') = foreign tel_DeviceID dv (telemetries d)"
    and "foreign ns_DeviceID dv (netsnaps d') = foreign ns_DeviceID dv (netsnaps d)"
    and "foreign wan_DeviceID dv (wans d') = foreign wan_DeviceID dv (wans d)"
    and "foreign seg_DeviceID dv (segments d') = foreign seg_DeviceID dv (segments d)"
    and "foreign cr_DeviceID dv (creds d') = foreign cr_DeviceID dv (creds d)"
    and "foreign rot_DeviceID dv (rotations d') = foreign rot_DeviceID dv (rotations d)"
  shows "others_of dv d' = others_of dv d"
  using assms by (intro database.equality) (simp_all add: others_of_def)

lemma foreign_upd:
  assumes "\<And>r. r \<in> set (tbl_rows t) \<Longrightarrow> P r \<Longrightarrow> own r = dv \<and> own (f r) = dv"
  shows "foreign own dv (upd_rows P f t) = foreign own dv t"
proof -
  have "filter (\<lambda>r. own r \<noteq> dv) (map (\<lambda>r. if P r then f r else r) rs) = filter (\<lambda>r. own r \<noteq> dv) rs"
    if "\<forall>r \<in> set rs. P r \<longrightarrow> own r = dv \<and> own (f r) = dv" for rs
    using that by (induction rs) auto
  with assms show ?thesis by (simp add: foreign_def)
qed

lemma foreign_ins: "own r = dv \<Longrightarrow> foreign own dv (ins_row r t) = foreign own dv t"
  by (simp add: foreign_def)

lemma foreign_rows: "tbl_rows t' = filter (\<lambda>r. own r \<noteq> dv) (tbl_rows t) @ rs \<Longrightarrow> \<forall>r \<in> set rs. own r = dv \<Longrightarrow>
    foreign own dv t' = foreign own dv t"
  by (simp add: foreign_def)

text \<open>An update of one row by its primary key.\<close>

context keyed_table begin

lemma foreign_one:
  assumes "wf_table key t" "tmap key t i = Some r" "own r = dv" "\<And>x. own x = dv \<Longrightarrow> own (f x) = dv"
  shows "foreign own dv (upd_rows (\<lambda>x. key x = i) f t) = foreign own dv t"
proof (rule foreign_upd)
  fix x assume "x \<in> set (tbl_rows t)" "key x = i"
  then have "tmap key t i = Some x" using row_tmap [OF assms(1)] by blast
  with assms(2-4) show "own x = dv \<and> own (f x) = dv" by simp
qed

end

section \<open>The operations of the Agent\<close>

lemma rotation_operations_isolated:
  assumes "wf_db (w_db w)"
  shows "StageCandidate env k dv key hash w = (Inr c, w') \<Longrightarrow> others_of dv (w_db w') = others_of dv (w_db w)"
    and "StartValidation env k dv w = (Inr r, w') \<Longrightarrow> others_of dv (w_db w') = others_of dv (w_db w)"
proof -
  note wf = wf_dbD [OF assms]
  show "others_of dv (w_db w') = others_of dv (w_db w)" if run: "StageCandidate env k dv key hash w = (Inr c, w')"
    using assms run
  proof (rule StageCandidate_success)
    fix r p t
    assume "rot_map (w_db w) k = Some r" "rot_DeviceID r = dv" "cr_DeviceID c = dv"
      "w_db w' = rotations_update (upd_rows (\<lambda>x. rot_ID x = k)
        (\<lambda>x. x\<lparr>rot_NewCredentialID := Some (cr_ID c), rot_Status := RStaged, rot_StagedAt := Some t\<rparr>))
        (creds_update (ins_row c) (w_db w))"
    then show ?thesis
      by (intro others_of_eqI) (simp_all add: foreign_ins rot_rows.foreign_one [OF wf(3)])
  qed
  show "others_of dv (w_db w') = others_of dv (w_db w)" if run: "StartValidation env k dv w = (Inr r, w')"
    using assms run
  proof (rule StartValidation_success)
    fix r n c t
    assume "rot_map (w_db w) k = Some r" "rot_DeviceID r = dv"
      "w_db w' = rotations_update (upd_rows (\<lambda>x. rot_ID x = k)
        (\<lambda>x. x\<lparr>rot_Status := RValidating, rot_ValidationStartedAt := Some t\<rparr>))
        (creds_update (upd_rows (\<lambda>c. cr_ID c = n \<and> cr_DeviceID c = dv \<and> cr_Status c = CPending)
          (\<lambda>c. c\<lparr>cr_Status := CActive, cr_ActivatedAt := Some t\<rparr>)) (w_db w))"
    moreover have "foreign cr_DeviceID dv (upd_rows (\<lambda>c. cr_ID c = n \<and> cr_DeviceID c = dv \<and> cr_Status c = CPending)
        (\<lambda>c. c\<lparr>cr_Status := CActive, cr_ActivatedAt := Some t\<rparr>) (creds (w_db w))) = foreign cr_DeviceID dv (creds (w_db w))"
      by (rule foreign_upd) simp
    ultimately show ?thesis
      by (intro others_of_eqI) (simp_all add: rot_rows.foreign_one [OF wf(3)])
  qed
qed

definition beyond_confirmation where
  "beyond_confirmation d = (domains d, identities d, telemetries d, netsnaps d, wans d, segments d, creds d, rotations d, hosts d, logs d)"

definition beyond_heartbeat where
  "beyond_heartbeat d = (domains d, identities d, enrollments d, netsnaps d, wans d, segments d, creds d, rotations d, hosts d, logs d)"

definition beyond_report where
  "beyond_report d = (domains d, devices d, identities d, enrollments d, telemetries d, creds d, rotations d, hosts d, logs d)"

lemma agent_frames:
  "keeps beyond_confirmation (ConfirmEnrollment env dv i cip ver)" "keeps beyond_heartbeat (ReportHeartbeat env dv cip inp)"
  "keeps beyond_report (ReportContext env dv cip rep)"
  unfolding ConfirmEnrollment_def beyond_confirmation_def ReportHeartbeat_def beyond_heartbeat_def
    ReportContext_def report_tx_def store_snapshot_def create_wans_def create_segments_def beyond_report_def
  by (auto intro!: keeps simp: Let_def)

lemma foreign_devices:
  "foreign dev_ID dv (upd_rows (\<lambda>d. dev_ID d = dv) (\<lambda>d. d\<lparr>dev_LastSeenAt := a, dev_LastIP := b, dev_AgentVersion := v d\<rparr>) t) = foreign dev_ID dv t"
  by (rule foreign_upd) simp

lemma ReportHeartbeat_isolated:
  assumes ok: "tel_ok (w_db w)" and run: "ReportHeartbeat env dv ip input w = (Inr s, w')"
  shows "others_of dv (w_db w') = others_of dv (w_db w)"
  using run
proof (rule ReportHeartbeat_success)
  fix x t
  assume x: "dev_ID x = dv" and dev: "devices (w_db w') = upd_rows (\<lambda>d. dev_ID d = dv) (\<lambda>d. d
       \<lparr>dev_LastSeenAt := Some t, dev_LastIP := TrimSpace ip,
        dev_AgentVersion := (case hb_AgentVersion input of None \<Rightarrow> dev_AgentVersion d
          | Some v \<Rightarrow> if TrimSpace v \<noteq> [] then TrimSpace v else dev_AgentVersion d)\<rparr>) (devices (w_db w))"
    and tel: "case snapshot_of (w_db w) dv of
        Some _ \<Rightarrow> s = heartbeat_merge (w_db w) x t ip input \<and>
          telemetries (w_db w') = upd_rows (\<lambda>r. tel_ID r = tel_ID s) (\<lambda>_. s) (telemetries (w_db w))
      | None \<Rightarrow> s = (heartbeat_merge (w_db w) x t ip input)\<lparr>tel_ID := Suc (tbl_seq (telemetries (w_db w)))\<rparr> \<and>
          telemetries (w_db w') = ins_row s (telemetries (w_db w))"
  have "foreign tel_DeviceID dv (telemetries (w_db w')) = foreign tel_DeviceID dv (telemetries (w_db w))"
  proof (cases "snapshot_of (w_db w) dv")
    case None
    with tel x show ?thesis by (simp add: foreign_ins heartbeat_merge_keys)
  next
    case (Some old)
    with tel x have s: "tel_ID s = tel_ID old" "tel_DeviceID s = dv" by (auto simp: heartbeat_merge_keys)
    have "tmap tel_ID (telemetries (w_db w)) (tel_ID old) = Some old"
      using snapshot_of_row [OF Some] ok by (auto simp: tel_ok_def intro: tel_rows.row_tmap)
    with s tel Some snapshot_of_row [OF Some] ok show ?thesis
      by (simp add: tel_ok_def tel_rows.foreign_one [where i = "tel_ID old" and r = old])
  qed
  with keepsD [OF agent_frames(2) run] dev show ?thesis
    by (intro others_of_eqI) (simp_all add: beyond_heartbeat_def foreign_devices)
qed

lemma ConfirmEnrollment_db:
  assumes "ConfirmEnrollment env dv cid ip ver w = (Inr r, w')"
  obtains e t where "e \<in> set (tbl_rows (enrollments (w_db w)))" "enr_DeviceID e = dv"
    "enrollments (w_db w') = enrollments (w_db w) \<or>
     enrollments (w_db w') = upd_rows (\<lambda>x. enr_ID x = enr_ID e \<and> enr_Status x = EIssued)
       (\<lambda>x. x\<lparr>enr_Status := ECompleted, enr_CompletedAt := Some t\<rparr>) (enrollments (w_db w))"
    "devices (w_db w') = upd_rows (\<lambda>d. dev_ID d = dv) (\<lambda>d. d\<lparr>dev_LastSeenAt := Some t, dev_LastIP := ip,
       dev_AgentVersion := (if ver \<noteq> [] then ver else dev_AgentVersion d)\<rparr>) (devices (w_db w))"
proof -
  let ?P = "\<lambda>e. enr_DeviceID e = dv \<and> enr_AgentCredentialID e = Some cid \<and> enr_Status e \<in> {EIssued, ECompleted}"
  let ?rows = "filter ?P (tbl_rows (enrollments (w_db w)))"
  obtain e es where n: "newest_first enr_CreatedAt ?rows = e # es"
    using assms by (cases "newest_first enr_CreatedAt ?rows") (simp_all add: ConfirmEnrollment_def op_simps)
  have e: "e \<in> set (tbl_rows (enrollments (w_db w)))" "enr_DeviceID e = dv" using newest_first_hd [OF n] by auto
  show thesis
    by (rule that [OF e, of "clock env (Suc (Suc (w_ticks w)))"])
      (use assms n in \<open>auto simp: ConfirmEnrollment_def op_simps simp del: table_simps split: if_splits\<close>)
qed

lemma ConfirmEnrollment_isolated:
  assumes wf: "wf_table enr_ID (enrollments (w_db w))" and run: "ConfirmEnrollment env dv cid ip ver w = (Inr r, w')"
  shows "others_of dv (w_db w') = others_of dv (w_db w)"
  using run
proof (rule ConfirmEnrollment_db)
  fix e t
  let ?f = "\<lambda>x. x\<lparr>enr_Status := ECompleted, enr_CompletedAt := Some t\<rparr>"
  assume e: "e \<in> set (tbl_rows (enrollments (w_db w)))" "enr_DeviceID e = dv"
    and enr: "enrollments (w_db w') = enrollments (w_db w) \<or>
      enrollments (w_db w') = upd_rows (\<lambda>x. enr_ID x = enr_ID e \<and> enr_Status x = EIssued) ?f (enrollments (w_db w))"
    and dev: "devices (w_db w') = upd_rows (\<lambda>d. dev_ID d = dv) (\<lambda>d. d\<lparr>dev_LastSeenAt := Some t, dev_LastIP := ip,
       dev_AgentVersion := (if ver \<noteq> [] then ver else dev_AgentVersion d)\<rparr>) (devices (w_db w))"
  have "x = e" if "x \<in> set (tbl_rows (enrollments (w_db w)))" "enr_ID x = enr_ID e" for x
    using enr_rows.row_tmap [OF wf that(1)] enr_rows.row_tmap [OF wf e(1)] that(2) by (metis option.inject)
  then have "foreign enr_DeviceID dv (upd_rows (\<lambda>x. enr_ID x = enr_ID e \<and> enr_Status x = EIssued) ?f (enrollments (w_db w))) =
      foreign enr_DeviceID dv (enrollments (w_db w))"
    using e(2) by (intro foreign_upd) auto
  with enr have "foreign enr_DeviceID dv (enrollments (w_db w')) = foreign enr_DeviceID dv (enrollments (w_db w))" by auto
  with keepsD [OF agent_frames(1) run] dev show ?thesis
    by (intro others_of_eqI) (simp_all add: beyond_confirmation_def foreign_devices)
qed

lemma ReportContext_isolated:
  assumes ok: "net_ok (w_db w)" and run: "ReportContext env dv ip input w = (Inr c, w')"
  shows "others_of dv (w_db w') = others_of dv (w_db w)"
proof -
  from run obtain c0 w0 w1 where tx: "report_tx env dv ip input w0 = (Inr c0, w1)" and w: "w_db w0 = w_db w" "w_db w' = w_db w1"
    by (auto simp: ReportContext_def bindE_Inr transaction_Inr split: option.splits)
  from tx show ?thesis
  proof (rule report_tx_success)
    fix x s ws ns
    assume s: "case net_snapshot_of (w_db w0) dv of
        None \<Rightarrow> netsnaps (w_db w1) = ins_row s (netsnaps (w_db w0)) \<and> ns_ID s = Suc (tbl_seq (netsnaps (w_db w0))) \<and> ns_DeviceID s = dv
      | Some s0 \<Rightarrow> ns_ID s = ns_ID s0 \<and> ns_DeviceID s = ns_DeviceID s0 \<and>
          netsnaps (w_db w1) = upd_rows (\<lambda>r. ns_ID r = ns_ID s0) (\<lambda>_. s) (netsnaps (w_db w0))"
      and wr: "tbl_rows (wans (w_db w1)) = filter (\<lambda>r. wan_DeviceID r \<noteq> dv) (tbl_rows (wans (w_db w0))) @ ws"
      and lw: "list_all2 (\<lambda>inp r. \<exists>i. r = (buildWAN dv (TrimSpace ip) inp)\<lparr>wan_ID := i\<rparr>) (ri_WANs input) ws"
      and sr: "tbl_rows (segments (w_db w1)) = filter (\<lambda>r. seg_DeviceID r \<noteq> dv) (tbl_rows (segments (w_db w0))) @ ns"
      and ls: "list_all2 (\<lambda>inp r. \<exists>i. r = (new_segment dv inp)\<lparr>seg_ID := i\<rparr>) (ri_Networks input) ns"
    have "\<forall>r \<in> set ws. wan_DeviceID r = dv" using lw by (induction rule: list_all2_induct) auto
    moreover have "\<forall>r \<in> set ns. seg_DeviceID r = dv" using ls by (induction rule: list_all2_induct) (auto simp: new_segment_def)
    moreover have "foreign ns_DeviceID dv (netsnaps (w_db w1)) = foreign ns_DeviceID dv (netsnaps (w_db w0))"
    proof (cases "net_snapshot_of (w_db w0) dv")
      case None
      with s show ?thesis by (simp add: foreign_ins)
    next
      case (Some s0)
      have "s0 \<in> set (tbl_rows (netsnaps (w_db w0)))" "ns_DeviceID s0 = dv"
        using Some net_snapshot_iff [OF net_okD(2) [OF ok]] w by auto
      with s Some net_okD(1) [OF ok] w show ?thesis
        by (simp add: ns_rows.foreign_one [where i = "ns_ID s0" and r = s0] ns_rows.row_tmap)
    qed
    ultimately show ?thesis
      using keepsD [OF agent_frames(3) run] foreign_rows [where own = wan_DeviceID, OF wr] foreign_rows [where own = seg_DeviceID, OF sr] w
      by (intro others_of_eqI) (simp_all add: beyond_report_def)
  qed
qed

lemma AuthenticateAgent_isolated:
  assumes wf: "wf_table idc_ID (identities (w_db w))" "wf_table dev_ID (devices (w_db w))"
    and run: "AuthenticateAgent env key ip w = (Inr (x, c'), w')"
  obtains c where "accepts_key env (w_db w) (clock env (Suc (w_ticks w))) key c x" "others_of (dev_ID x) (w_db w') = others_of (dev_ID x) (w_db w)"
  using wf run
proof (rule AuthenticateAgent_success)
  fix c t
  assume a: "accepts_key env (w_db w) t key c x" and t: "t = clock env (Suc (w_ticks w))"
    and w': "w_db w' = identities_update (upd_rows (\<lambda>y. idc_ID y = idc_ID c)
       (\<lambda>y. y\<lparr>idc_LastUsedAt := Some t, idc_LastUsedIP := ip\<rparr>)) (w_db w)"
  have "ident_map (w_db w) (idc_ID c) = Some c" "idc_DeviceID c = dev_ID x"
    using a by (auto simp: accepts_key_def dest: device_rows.tmap_key)
  then have "others_of (dev_ID x) (w_db w') = others_of (dev_ID x) (w_db w)"
    by (intro others_of_eqI) (simp_all add: w' ident_rows.foreign_one [OF wf(1)])
  with a t show thesis using that by blast
qed

section \<open>The requests of the Agent\<close>

lemma agent_operations_failed:
  "StageCandidate env k dv key hash w = (Inl e, w') \<Longrightarrow> w_db w' = w_db w"
  "StartValidation env k dv w = (Inl e, w') \<Longrightarrow> w_db w' = w_db w"
  "ConfirmEnrollment env dv i cip ver w = (Inl e, w') \<Longrightarrow> w_db w' = w_db w"
  "CurrentRotation env dv w = (r, w') \<Longrightarrow> w_db w' = w_db w"
  by (auto simp: StageCandidate_def StartValidation_def ConfirmEnrollment_def CurrentRotation_def Let_def failIf_apply bindE_def
      dest: transaction_Inl_db select_db split: if_splits prod.splits sum.splits list.splits)

lemma call_db:
  assumes "call m onError k w = (rp, w')"
    and "\<And>e v. m w = (Inl e, v) \<Longrightarrow> R (w_db v)"
    and "\<And>x v. m w = (Inr x, v) \<Longrightarrow> k x v = (rp, w') \<Longrightarrow> R (w_db w')"
  shows "R (w_db w')"
  using assms by (cases "m w"; cases "fst (m w)") (auto simp: call_def)

lemma agent_endpoint_isolated:
  assumes ok: "server_ok (w_db w)" and run: "agent_endpoint env srv rq auth ep w = (rp, w')"
  shows "others_of (dev_ID (fst auth)) (w_db w') = others_of (dev_ID (fst auth)) (w_db w)"
proof -
  let ?R = "\<lambda>d. others_of (dev_ID (fst auth)) d = others_of (dev_ID (fst auth)) (w_db w)"
  have inv: "wf_db (w_db w)" "wf_table enr_ID (enrollments (w_db w))" "tel_ok (w_db w)" "net_ok (w_db w)"
    using ok by (auto simp: server_ok_def rotation_ok_def dest: enr_okD(1))
  note failed = agent_operations_failed ReportHeartbeat_failed ReportContext_failed
  note isolated = rotation_operations_isolated [OF inv(1)] ConfirmEnrollment_isolated [OF inv(2)]
    ReportHeartbeat_isolated [OF inv(3)] ReportContext_isolated [OF inv(4)]
  show ?thesis
  proof (cases ep)
    case (AgentHeartbeat b)
    with run show ?thesis
      by (cases b) (auto simp: agentHeartbeat_def bind_optional_def answer_def split: if_splits
          elim!: call_db [where R = ?R] dest: failed isolated)
  next
    case (AgentNetworkContext b)
    with run show ?thesis
      by (cases b) (auto simp: agentNetworkContext_def bind_body_def answer_def split: if_splits
          elim!: call_db [where R = ?R] dest: failed isolated)
  next
    case (ConfirmAgentEnrollment b)
    with run show ?thesis
      by (cases b) (auto simp: confirmAgentEnrollment_def bind_optional_def answer_def split: if_splits
          elim!: call_db [where R = ?R] dest: failed isolated)
  next
    case AgentCurrentRotation
    with run show ?thesis
      by (auto simp: agentCurrentRotation_def answer_def split: option.splits
          elim!: call_db [where R = ?R] dest: failed)
  next
    case (AgentStageCandidate k b)
    with run show ?thesis
      by (cases b) (auto simp: agentStageCandidate_def parse_param_def bind_body_def answer_def split: if_splits option.splits
          elim!: call_db [where R = ?R] dest: failed isolated)
  next
    case (AgentStartValidation k)
    with run show ?thesis
      by (auto simp: agentStartValidation_def parse_param_def answer_def split: option.splits
          elim!: call_db [where R = ?R] dest: failed isolated)
  qed (use run in \<open>auto simp: agentMe_def answer_def\<close>)
qed

text \<open>C4. Isolation: a request to an endpoint of the Agents changes nothing in the database, or its bearer
  token is the key of an identity that is in use, of an active device, and then every row that belongs to another device,
  and all hosts, domains and logs, are as before.\<close>

theorem agent_requests_isolated:
  assumes "server_ok (w_db w)" "access_of ep = Agent" "serve env srv rq ep w = (rp, w')"
  shows "w_db w' = w_db w \<or>
    (\<exists>token c x. bearerToken (rq_Authorization rq) = Some token \<and>
       accepts_key env (w_db w) (clock env (Suc (w_ticks w))) token c x \<and>
       others_of (dev_ID x) (w_db w') = others_of (dev_ID x) (w_db w))"
proof (cases "bearerToken (rq_Authorization rq)")
  case (Some token)
  obtain r v where auth: "AuthenticateAgent env token (callerIP srv rq) w = (r, v)" by fastforce
  show ?thesis
  proof (cases r)
    case (Inl e)
    with AuthenticateAgent_failed auth assms(2,3) Some show ?thesis
      by (auto simp: serve_def authenticateAgent_def call_def)
  next
    case (Inr p)
    obtain x c' where p: "p = (x, c')" by fastforce
    have wf: "wf_table idc_ID (identities (w_db w))" "wf_table dev_ID (devices (w_db w))"
      using assms(1) by (auto simp: server_ok_def rotation_ok_def wf_db_def ident_ok_def dest: enr_okD(2))
    have run: "agent_endpoint env srv rq (x, c') ep v = (rp, w')"
      using auth assms(2,3) Some by (simp add: serve_def authenticateAgent_def call_def Inr p)
    from auth have "AuthenticateAgent env token (callerIP srv rq) w = (Inr (x, c'), v)" by (simp add: Inr p)
    with wf obtain c where c: "accepts_key env (w_db w) (clock env (Suc (w_ticks w))) token c x"
        "others_of (dev_ID x) (w_db v) = others_of (dev_ID x) (w_db w)"
      by (rule AuthenticateAgent_isolated)
    have "server_ok (w_db v)" using preservesD [OF enrollment_operations(2) auth assms(1)] .
    with run have "others_of (dev_ID x) (w_db w') = others_of (dev_ID x) (w_db v)"
      using agent_endpoint_isolated by fastforce
    with c Some show ?thesis by auto
  qed
qed (use assms(2,3) in \<open>auto simp: serve_def authenticateAgent_def\<close>)

text \<open>A server with the identity of one device, and a telemetry snapshot of another one.\<close>

definition demo_agent_key :: string where
  "demo_agent_key = ''hagent_00112233445566aa.'' @ replicate 43 CHR ''A''"

definition demo_agent_identity :: identity_credential where
  "demo_agent_identity = demo_identity
     \<lparr>idc_CredentialID := ''00112233445566aa'', idc_SecretHash := HashAPIKey demo_env demo_agent_key\<rparr>"

definition demo_other_snapshot :: telemetry_snapshot where
  "demo_other_snapshot = (new_snapshot 2 [])\<lparr>tel_ID := 1\<rparr>"

definition demo_agent_world :: world where
  "demo_agent_world = demo_idle\<lparr>w_db := (w_db demo_idle)\<lparr>
     identities := \<lparr>tbl_rows = [demo_agent_identity], tbl_seq = 1\<rparr>,
     telemetries := \<lparr>tbl_rows = [demo_other_snapshot], tbl_seq = 1\<rparr>\<rparr>\<rparr>"

definition demo_agent_request :: http_request where
  "demo_agent_request = demo_request None (''Bearer '' @ demo_agent_key)"

lemma demo_agent_world_simps:
  "w_ticks demo_agent_world = 0" "devices (w_db demo_agent_world) = \<lparr>tbl_rows = [demo_device], tbl_seq = 1\<rparr>"
  "identities (w_db demo_agent_world) = \<lparr>tbl_rows = [demo_agent_identity], tbl_seq = 1\<rparr>"
  "telemetries (w_db demo_agent_world) = \<lparr>tbl_rows = [demo_other_snapshot], tbl_seq = 1\<rparr>"
  by (simp_all add: demo_agent_world_def demo_idle_def demo_world_def initial_world_def)

lemma demo_agent_token: "bearerToken (rq_Authorization demo_agent_request) = Some demo_agent_key"
  "ParseAgentKeyID demo_agent_key = Some ''00112233445566aa''"
  by code_simp+

lemma demo_agent_ok: "server_ok (w_db demo_agent_world)"
proof -
  let ?d = "w_db demo_agent_world"
  note idle = demo_idle_ok [unfolded server_ok_def]
  have same: "devices ?d = devices (w_db demo_idle)" "creds ?d = creds (w_db demo_idle)" "rotations ?d = rotations (w_db demo_idle)"
    "enrollments ?d = enrollments (w_db demo_idle)" "netsnaps ?d = netsnaps (w_db demo_idle)" "wans ?d = wans (w_db demo_idle)"
    "segments ?d = segments (w_db demo_idle)" "hosts ?d = hosts (w_db demo_idle)" "domains ?d = domains (w_db demo_idle)"
    by (simp_all add: demo_agent_world_def)
  have "rotation_ok ?d" using idle by (simp add: rotation_ok_def wf_db_def abs_lc_def same)
  moreover have "ident_ok ?d"
    by (simp add: ident_ok_def wf_table_def tmap_def demo_agent_world_simps demo_agent_identity_def demo_identity_def)
  moreover have "tbl_rows (enrollments ?d) = []" by (simp add: same demo_idle_def demo_world_def initial_world_def empty_database_def empty_table_def)
  ultimately have "rotation_ok ?d" "enr_ok ?d" by (simp_all add: enr_ok_def wf_table_def tmap_def)
  moreover have "tel_ok ?d"
    by (simp add: tel_ok_def wf_table_def snapshot_ok_def demo_agent_world_simps demo_other_snapshot_def new_snapshot_def load_ok_def fits_def)
  moreover have "net_ok ?d" "hosts_ok ?d" "domains_ok ?d" "grace_range ?d" "distinct (map dev_Name (tbl_rows (devices ?d)))"
    using idle by (simp_all add: net_ok_def net_snapshot_of_def device_wans_def device_segments_def
        hosts_ok_def domains_ok_def grace_range_def same)
  ultimately show ?thesis by (simp add: server_ok_def)
qed

theorem agent_requests_isolated_witness:
  "\<exists>rp w'. serve demo_env demo_server demo_agent_request (AgentHeartbeat BindEOF) demo_agent_world = (rp, w') \<and>
     rp_Status rp = 200 \<and> demo_other_snapshot \<in> set (tbl_rows (telemetries (w_db w')))"
proof -
  have "\<exists>rp w'. serve demo_env demo_server demo_agent_request (AgentHeartbeat BindEOF) demo_agent_world = (rp, w') \<and> rp_Status rp = 200"
    by (simp add: serve_def authenticateAgent_def demo_agent_token call_def AuthenticateAgent_def run_simps demo_no_faults
        demo_agent_world_simps demo_agent_identity_def demo_identity_def demo_device_def VerifyAPIKey_iff has_expired_def
        agentHeartbeat_def bind_optional_def demo_server_def ReportHeartbeat_def empty_table_def Let_def demo_other_snapshot_def new_snapshot_def
        demo_presence_valid [unfolded presence_only_def] applyHeartbeat_presence [unfolded presence_only_def] validateSnapshot_def answer_def reply_of_def)
  then obtain rp w' where run: "serve demo_env demo_server demo_agent_request (AgentHeartbeat BindEOF) demo_agent_world = (rp, w')"
    and status: "rp_Status rp = 200" by blast
  have row: "demo_other_snapshot \<in> set (tbl_rows (foreign tel_DeviceID 1 (telemetries (w_db demo_agent_world))))"
    by (simp add: foreign_def demo_agent_world_simps demo_other_snapshot_def new_snapshot_def)
  from agent_requests_isolated [OF demo_agent_ok _ run]
  consider "w_db w' = w_db demo_agent_world"
    | c x where "accepts_key demo_env (w_db demo_agent_world) (clock demo_env 1) demo_agent_key c x"
      "others_of (dev_ID x) (w_db w') = others_of (dev_ID x) (w_db demo_agent_world)"
    by (auto simp: demo_agent_token demo_agent_world_simps)
  then have "demo_other_snapshot \<in> set (tbl_rows (telemetries (w_db w')))"
  proof cases
    case 1
    then show ?thesis by (simp add: demo_agent_world_simps)
  next
    case 2
    from 2(1) have "dev_ID x = 1"
      by (auto simp: accepts_key_def demo_agent_world_simps tmap_def demo_device_def split: if_splits)
    with 2(2) have "telemetries (others_of 1 (w_db w')) = telemetries (others_of 1 (w_db demo_agent_world))" by simp
    then have "foreign tel_DeviceID 1 (telemetries (w_db w')) = foreign tel_DeviceID 1 (telemetries (w_db demo_agent_world))"
      by (simp add: others_of_def)
    with row have "demo_other_snapshot \<in> set (tbl_rows (foreign tel_DeviceID 1 (telemetries (w_db w'))))" by metis
    then show ?thesis by (simp add: foreign_def)
  qed
  with run status show ?thesis by blast
qed

end
