(* ===== verification/Hermes_Progress.thy ===== *)
theory Hermes_Progress
  imports Hermes_Server Hermes_Rotation_Properties
begin

text \<open>
  Every step of the server, as a whole, is a sequence of transitions of the abstract rotation
  lifecycle. A rotation therefore only moves forwards and changes its status a bounded number of
  times in any run.
\<close>

section \<open>The server refines the rotation lifecycle\<close>

definition follows :: "lifecycle \<Rightarrow> database \<Rightarrow> bool" where
  "follows a d \<longleftrightarrow> rotation_ok d \<and> lc_step\<^sup>*\<^sup>* a (abs_lc d)"

lemma follows_cong:
  assumes "dev_keys d' = dev_keys d" "cred_facts d' = cred_facts d" "rotations d' = rotations d"
  shows "follows a d \<Longrightarrow> follows a d'"
proof -
  have "abs_lc d' = abs_lc d"
    using dev_keysD(2) [OF assms(1)] cred_factsD(2) [OF assms(2)] assms(3) by (simp add: abs_lc_def fun_eq_iff)
  then show "follows a d \<Longrightarrow> follows a d'" using rotation_ok_cong [OF assms] by (simp add: follows_def)
qed

lemma preserves_follows_frame:
  "keeps beyond_enrollment m \<Longrightarrow> preserves (follows a) m" "keeps beyond_telemetry m \<Longrightarrow> preserves (follows a) m"
  "keeps beyond_network m \<Longrightarrow> preserves (follows a) m" "keeps beyond_names m \<Longrightarrow> preserves (follows a) m"
  "keeps beyond_sighting m \<Longrightarrow> preserves (follows a) m"
  by (rule preservesI, drule (1) keepsD, unfold beyond_defs prod.inject, blast intro: follows_cong)+

lemma follows_services:
  "preserves (follows a) (IssueCredential env dv)" "preserves (follows a) (AuthenticateAgent env key cip)"
  "preserves (follows a) (RevokeCredential env dv i)" "preserves (follows a) (CreateEnrollment env dv ttl)"
  "preserves (follows a) (Exchange env token cip)" "preserves (follows a) (ConfirmEnrollment env dv i cip ver)"
  "preserves (follows a) (ListEnrollments env dv)" "preserves (follows a) (GetEnrollment env dv i)"
  "preserves (follows a) (RevokeEnrollment env dv i)" "preserves (follows a) (ReportHeartbeat env dv cip inp)"
  "preserves (follows a) (ReportContext env dv cip rep)" "preserves (follows a) (AuthenticateDDNS env user key cip)"
  "preserves (follows a) (UpdateDDNS env sv auth fqdn rip cip ua)"
  by (rule preserves_follows_frame(1), rule enrollment_service_frame)+
    (rule preserves_follows_frame(2-5), rule heartbeat_frame report_frame UpdateDDNS_frame AuthenticateDDNS_frame)+

lemma follows_stepI:
  assumes "follows a (w_db w)" "rotation_ok (w_db w')"
    and "lc_step\<^sup>*\<^sup>* (abs_lc (w_db w)) (abs_lc (w_db w'))"
  shows "follows a (w_db w')"
  using assms by (auto simp: follows_def)

lemma implements_follows:
  assumes "implements R f" "\<And>s s'. R s s' \<Longrightarrow> lc_step\<^sup>*\<^sup>* s s'"
  shows "preserves (follows a) f"
proof (rule preservesI)
  fix w r w' assume "follows a (w_db w)" "f w = (r, w')"
  with assms show "follows a (w_db w')"
    by (cases r) (auto simp: implements_def follows_def dest!: spec [of _ w] intro: rtranclp_trans)
qed

lemma follows_credentials:
  "preserves (follows a) (create_device_rows env name dn ty)" "preserves (follows a) (RequestRotation env dv g)"
  "preserves (follows a) (StageCandidate env k dv key hash)" "preserves (follows a) (StartValidation env k dv)"
  "preserves (follows a) (ConfirmCredentialUse env i)" "preserves (follows a) (Rollback env k dv reason)"
  by (rule implements_follows, rule credential_implements, auto)+

lemma follows_reconcile: "preserves (follows a) (ReconcileExpiredGrace env)"
proof (rule preservesI)
  fix w r w' assume f: "follows a (w_db w)" and run: "ReconcileExpiredGrace env w = (r, w')"
  then have ok: "rotation_ok (w_db w)" by (simp add: follows_def)
  then have "lc_step\<^sup>*\<^sup>* (abs_lc (w_db w)) (abs_lc (w_db w'))"
    using ReconcileExpiredGrace_steps [OF _ run] by (simp add: rotation_ok_def)
  then show "follows a (w_db w')" by (rule follows_stepI [OF f rotation_ok_ops(7) [OF ok run]])
qed

lemma follows_domains: "preserves (follows a) (create env domains domains_update clash mk)"
  by (rule preserves_create) (auto elim!: follows_cong [rotated 3] simp: part_defs)

interpretation lifecycle_runs: service_invariant "follows a" for a
  by unfold_locales (rule follows_credentials follows_reconcile follows_services follows_domains)+

lemma server_step_lifecycle:
  assumes "rotation_ok (w_db w)" "server_step env w w'"
  shows "rotation_ok (w_db w') \<and> lc_step\<^sup>*\<^sup>* (abs_lc (w_db w)) (abs_lc (w_db w'))"
  using lifecycle_runs.server_step_preserves [OF assms(2), of "abs_lc (w_db w)"] assms(1) by (simp add: follows_def)

section \<open>Progress of a rotation\<close>

text \<open>The number of changes that a rotation of a status can still make.\<close>

fun changes_left :: "rot_status \<Rightarrow> nat" where
  "changes_left RRequested = 4"
| "changes_left RStaged = 3"
| "changes_left RValidating = 2"
| "changes_left RGrace = 1"
| "changes_left RCompleted = 0"
| "changes_left RRolledBack = 0"

definition forward :: "lrot \<Rightarrow> lrot \<Rightarrow> bool" where
  "forward r r' \<longleftrightarrow> lr_dev r' = lr_dev r \<and> lr_prev r' = lr_prev r \<and>
     (lr_st r' = lr_st r \<or> changes_left (lr_st r') < changes_left (lr_st r))"

lemma lc_step_forward: "lc_step s s' \<Longrightarrow> l_rots s k = Some r \<Longrightarrow> \<exists>r'. l_rots s' k = Some r' \<and> forward r r'"
  by (cases rule: lc_step.cases) (auto simp: forward_def)

lemma lc_steps_forward: "lc_step\<^sup>*\<^sup>* s s' \<Longrightarrow> l_rots s k = Some r \<Longrightarrow> \<exists>r'. l_rots s' k = Some r' \<and> forward r r'"
proof (induction rule: rtranclp_induct)
  case (step s' s'')
  then obtain r' where "l_rots s' k = Some r'" "forward r r'" by auto
  with lc_step_forward [OF step.hyps(2)] show ?case by (fastforce simp: forward_def)
qed (simp add: forward_def)

lemma rotation_forward:
  assumes "rotation_ok (w_db w)" "server_step env w w'" "rot_map (w_db w) k = Some r"
  obtains r' where "rot_map (w_db w') k = Some r'" "rot_DeviceID r' = rot_DeviceID r"
    "rot_PreviousCredentialID r' = rot_PreviousCredentialID r"
    "rot_Status r' = rot_Status r \<or> changes_left (rot_Status r') < changes_left (rot_Status r)"
  using lc_steps_forward [OF conjunct2 [OF server_step_lifecycle [OF assms(1,2)]], of k "abs_rot r"] assms(3)
  by (auto simp: forward_def)

lemma bounded_descents:
  fixes g :: "nat \<Rightarrow> nat"
  assumes "\<And>i. g (Suc i) \<le> g i"
  shows "finite {i. g (Suc i) < g i}" "card {i. g (Suc i) < g i} \<le> g 0"
proof -
  let ?C = "{i. g (Suc i) < g i}"
  have anti: "antimono g" using assms by (intro decseq_SucI)
  have inj: "inj_on g ?C"
  proof (rule inj_onI)
    fix i j assume "i \<in> ?C" "j \<in> ?C" "g i = g j"
    then show "i = j"
      using antimonoD [OF anti, of "Suc i" j] antimonoD [OF anti, of "Suc j" i] by (cases i j rule: linorder_cases) auto
  qed
  have img: "g ` ?C \<subseteq> {1..g 0}" using antimonoD [OF anti, of 0] by force
  then show "finite ?C" using inj finite_imageD finite_subset by blast
  show "card ?C \<le> g 0" using card_mono [OF _ img] card_image [OF inj] by simp
qed

text \<open>The steps of a run at which the status of rotation \<open>k\<close> changes.\<close>

definition status_of :: "world \<Rightarrow> nat \<Rightarrow> rot_status option" where
  "status_of w k = map_option rot_Status (rot_map (w_db w) k)"

definition status_changes :: "(nat \<Rightarrow> world) \<Rightarrow> nat \<Rightarrow> nat set" where
  "status_changes f k = {i. status_of (f (Suc i)) k \<noteq> status_of (f i) k}"

text \<open>C7. A rotation ends: in every infinite run of the server, by any requests, reconcilers and restarts,
  with any failures, a stored rotation stays, with its device and its previous credential, and
  changes its status at most as often as \<open>changes_left\<close> says: at most four times from its request, and
  never again after it was completed or rolled back.\<close>

theorem rotations_terminate:
  assumes "rotation_ok (w_db (f 0))" "\<And>i. server_step env (f i) (f (Suc i))" "rot_map (w_db (f 0)) k = Some r"
  shows "(\<forall>i. \<exists>x. rot_map (w_db (f i)) k = Some x \<and> rot_DeviceID x = rot_DeviceID r \<and>
           rot_PreviousCredentialID x = rot_PreviousCredentialID r) \<and>
    finite (status_changes f k) \<and> card (status_changes f k) \<le> changes_left (rot_Status r)"
proof -
  have ok: "rotation_ok (w_db (f i))" for i
    by (induction i) (use assms(1,2) server_step_lifecycle in blast)+
  let ?same = "\<lambda>x. rot_DeviceID x = rot_DeviceID r \<and> rot_PreviousCredentialID x = rot_PreviousCredentialID r"
  have stays: "\<exists>x. rot_map (w_db (f i)) k = Some x \<and> ?same x" for i
  proof (induction i)
    case (Suc i)
    then obtain x where x: "rot_map (w_db (f i)) k = Some x" "?same x" by blast
    obtain y where "rot_map (w_db (f (Suc i))) k = Some y" "rot_DeviceID y = rot_DeviceID x"
        "rot_PreviousCredentialID y = rot_PreviousCredentialID x"
      by (rule rotation_forward [OF ok assms(2) x(1)])
    with x(2) show ?case by simp
  qed (use assms(3) in simp)
  define g where "g i = changes_left (rot_Status (the (rot_map (w_db (f i)) k)))" for i
  have step: "g (Suc i) \<le> g i \<and> (status_of (f (Suc i)) k \<noteq> status_of (f i) k \<longrightarrow> g (Suc i) < g i)" for i
  proof -
    obtain x where x: "rot_map (w_db (f i)) k = Some x" using stays by blast
    obtain y where "rot_map (w_db (f (Suc i))) k = Some y"
        "rot_Status y = rot_Status x \<or> changes_left (rot_Status y) < changes_left (rot_Status x)"
      by (rule rotation_forward [OF ok assms(2) x])
    with x show ?thesis by (auto simp: g_def status_of_def)
  qed
  then have sub: "status_changes f k \<subseteq> {i. g (Suc i) < g i}" by (auto simp: status_changes_def)
  note descents = bounded_descents [of g, OF conjunct1 [OF step]]
  have "finite (status_changes f k)" by (rule finite_subset [OF sub descents(1)])
  moreover have "card (status_changes f k) \<le> g 0" by (rule le_trans [OF card_mono [OF descents(1) sub] descents(2)])
  moreover have "g 0 = changes_left (rot_Status r)" by (simp add: g_def assms(3))
  ultimately show ?thesis using stays by simp
qed

text \<open>A rotation in its grace period, and a server that only runs its reconciler.\<close>

theorem rotations_terminate_witness:
  "card (status_changes (\<lambda>i. ((\<lambda>w. snd (ReconcileExpiredGrace demo_env w)) ^^ i) (demo_grace 0)) 1) \<le> 1"
proof -
  let ?next = "\<lambda>w. snd (ReconcileExpiredGrace demo_env w)"
  have step: "server_step demo_env ((?next ^^ i) (demo_grace 0)) ((?next ^^ Suc i) (demo_grace 0))" for i
    by (simp add: server_step.reconciler [of _ _ "fst (ReconcileExpiredGrace demo_env ((?next ^^ i) (demo_grace 0)))"])
  have row: "rot_map (w_db ((?next ^^ 0) (demo_grace 0))) 1 = Some (demo_rotation RGrace (Some 2) (Some 0))"
    by (simp add: demo_worlds tmap_def demo_rotation_def)
  have "rotation_ok (w_db ((?next ^^ 0) (demo_grace 0)))" using demo_rotation_ok(5) by simp
  from rotations_terminate [of "\<lambda>i. (?next ^^ i) (demo_grace 0)", OF this step row]
  show ?thesis by (simp add: demo_rotation_def)
qed

end
