(* ===== verification/Hermes_Steps.thy ===== *)
theory Hermes_Steps
  imports Hermes_Store
begin

text \<open>
  Programs that can be interrupted between two interactions with the database or the DNS: the
  form in which concurrent requests are modelled. \<open>run\<close> executes a program alone, \<open>advance\<close> one
  interaction of the \<open>i\<close>-th of a list of programs, and \<open>holds\<close> states what a program does whatever
  the others do in between, as long as they respect a relation that it respects itself.
\<close>

section \<open>Programs\<close>

datatype 'a prog = Finished 'a | Interaction "world \<Rightarrow> 'a prog \<times> world"

primrec run :: "'a prog \<Rightarrow> world \<Rightarrow> 'a \<times> world" where
  "run (Finished x) = (\<lambda>w. (x, w))"
| "run (Interaction f) = (\<lambda>w. case map_prod run (\<lambda>w'. w') (f w) of (g, w') \<Rightarrow> g w')"

primrec seq :: "'a prog \<Rightarrow> ('a \<Rightarrow> 'b prog) \<Rightarrow> 'b prog" where
  "seq (Finished x) k = k x"
| "seq (Interaction f) k = Interaction (\<lambda>w. map_prod (\<lambda>p. seq p k) (\<lambda>w'. w') (f w))"

text \<open>One interaction, and the continuation of a computation that may fail.\<close>

definition atomic :: "(world \<Rightarrow> 'a \<times> world) \<Rightarrow> 'a prog" where
  "atomic m = Interaction (\<lambda>w. map_prod Finished (\<lambda>w'. w') (m w))"

definition seqE :: "('e + 'a) prog \<Rightarrow> ('a \<Rightarrow> ('e + 'b) prog) \<Rightarrow> ('e + 'b) prog" where
  "seqE p k = seq p (\<lambda>r. case r of Inl e \<Rightarrow> Finished (Inl e) | Inr x \<Rightarrow> k x)"

text \<open>The programs of a list, each at its own point.\<close>

definition advance :: "nat \<Rightarrow> 'a prog list \<times> world \<Rightarrow> 'a prog list \<times> world" where
  "advance i s = (case s of (ps, w) \<Rightarrow>
     if i < length ps then
       (case ps ! i of Finished x \<Rightarrow> (ps, w) | Interaction f \<Rightarrow> (case f w of (p, w') \<Rightarrow> (ps[i := p], w')))
     else (ps, w))"

definition schedule :: "nat list \<Rightarrow> 'a prog list \<times> world \<Rightarrow> 'a prog list \<times> world" where
  "schedule is s = foldl (\<lambda>s i. advance i s) s is"

section \<open>A program alone\<close>

named_theorems run_progs

lemma prog_induct [case_names Finished Interaction]:
  assumes "\<And>x. P (Finished x)" "\<And>f. (\<And>w p w'. f w = (p, w') \<Longrightarrow> P p) \<Longrightarrow> P (Interaction f)"
  shows "P p"
proof (induction p)
  case (Interaction f)
  show ?case
  proof (rule assms(2))
    fix w p w' assume "f w = (p, w')"
    then show "P p" using Interaction [of "(p, w')" p] by (metis prod_set_simps(1) rangeI singletonI)
  qed
qed (rule assms(1))

lemma run_Finished [run_progs]: "run (Finished (Inr x)) = ret x" "run (Finished (Inl e)) = raise e"
  by (simp_all add: fun_eq_iff)

lemma run_atomic [run_progs]: "run (atomic m) = m"
  by (simp add: atomic_def fun_eq_iff case_prod_beta)

lemma run_seq: "run (seq p k) w = (case run p w of (x, w') \<Rightarrow> run (k x) w')"
proof (induction p arbitrary: w rule: prog_induct)
  case (Interaction f)
  obtain p w' where fw: "f w = (p, w')" by fastforce
  with Interaction [OF fw] show ?case by simp
qed simp

lemma run_seqE [run_progs]: "run (seqE p k) = bindE (run p) (\<lambda>x. run (k x))"
  by (simp add: fun_eq_iff seqE_def run_seq bindE_def split: prod.split sum.split)

lemma run_cases [run_progs]:
  "run (if b then p else q) = (if b then run p else run q)"
  "run (case x of None \<Rightarrow> p | Some y \<Rightarrow> pf y) = (case x of None \<Rightarrow> run p | Some y \<Rightarrow> run (pf y))"
  "run (case s of Inl y \<Rightarrow> pl y | Inr z \<Rightarrow> pr z) = (case s of Inl y \<Rightarrow> run (pl y) | Inr z \<Rightarrow> run (pr z))"
  "run (case ab of (a, b) \<Rightarrow> pp a b) = (case ab of (a, b) \<Rightarrow> run (pp a b))"
  by (simp_all split: option.split sum.split prod.split)

text \<open>The first \<open>n\<close> interactions of a program.\<close>

fun paused :: "nat \<Rightarrow> 'a prog \<Rightarrow> world \<Rightarrow> 'a prog \<times> world" where
  "paused (Suc n) (Interaction f) w = (case f w of (p, w') \<Rightarrow> paused n p w')"
| "paused n p w = (p, w)"

lemma schedule_append: "schedule (is @ js) s = schedule js (schedule is s)"
  by (simp add: schedule_def)

lemma schedule_replicate:
  "i < length ps \<Longrightarrow> paused n (ps ! i) w = (p, w') \<Longrightarrow> schedule (replicate n i) (ps, w) = (ps[i := p], w')"
proof (induction n arbitrary: ps w)
  case (Suc n)
  show ?case
  proof (cases "ps ! i")
    case (Interaction f)
    obtain q v where f: "f w = (q, v)" by fastforce
    have "schedule (replicate n i) (ps[i := q], v) = (ps[i := q, i := p], w')"
      using Suc.prems Interaction f by (intro Suc.IH) simp_all
    with Suc.prems(1) Interaction f show ?thesis by (simp add: schedule_def advance_def)
  next
    case (Finished x)
    have "schedule (replicate m i) (ps, w) = (ps, w)" for m
      using Suc.prems(1) Finished by (induction m) (simp_all add: schedule_def advance_def)
    from this [of "Suc n"] Suc.prems Finished show ?thesis by (auto simp: list_update_id)
  qed
qed (auto simp: schedule_def)

lemma paused_seq [simp]:
  "paused (Suc n) (seq (atomic m) k) w = (case m w of (x, w') \<Rightarrow> paused n (k x) w')"
  "paused (Suc n) (seqE (atomic m) l) w = (case m w of (r, w') \<Rightarrow> (case r of Inl e \<Rightarrow> (Finished (Inl e), w') | Inr x \<Rightarrow> paused n (l x) w'))"
  by (simp_all add: atomic_def seqE_def split: prod.split sum.split)

lemma seq_assoc: "seq (seq p k) l = seq p (\<lambda>x. seq (k x) l)"
proof (induction p rule: prog_induct)
  case (Interaction f)
  then show ?case by (fastforce simp: map_prod_def fun_eq_iff split: prod.splits)
qed simp

lemma seqE_assoc: "seqE (seqE p k) l = seqE p (\<lambda>x. seqE (k x) l)"
proof -
  have "(\<lambda>x. seq (case x of Inl e \<Rightarrow> Finished (Inl e) | Inr x \<Rightarrow> k x) (\<lambda>x. case x of Inl e \<Rightarrow> Finished (Inl e) | Inr x \<Rightarrow> l x)) =
      (\<lambda>x. case x of Inl e \<Rightarrow> Finished (Inl e) | Inr y \<Rightarrow> seq (k y) (\<lambda>x. case x of Inl e \<Rightarrow> Finished (Inl e) | Inr x \<Rightarrow> l x))"
    by (auto simp: fun_eq_iff split: sum.split)
  then show ?thesis unfolding seqE_def seq_assoc by simp
qed

lemma seqE_Finished: "seqE (Finished (Inr x)) k = k x"
  by (simp add: seqE_def)

section \<open>A program among others\<close>

text \<open>
  A relation \<open>R\<close> between worlds that every program respects in each of its interactions; it is what
  a program may rely on between two of its own. \<open>holds p Q w\<close>: from \<open>w\<close> on, every interaction of
  \<open>p\<close> respects \<open>R\<close>, and its result satisfies \<open>Q\<close>, then and later.
\<close>

primrec holds :: "(world \<Rightarrow> world \<Rightarrow> bool) \<Rightarrow> 'a prog \<Rightarrow> ('a \<Rightarrow> world \<Rightarrow> bool) \<Rightarrow> world \<Rightarrow> bool" where
  "holds R (Finished x) = (\<lambda>Q w. \<forall>v. R w v \<longrightarrow> Q x v)"
| "holds R (Interaction f) = (\<lambda>Q w. \<forall>v. R w v \<longrightarrow>
     (case map_prod (holds R) (\<lambda>w'. w') (f v) of (h, v') \<Rightarrow> R v v' \<and> h Q v'))"

lemma holds_Interaction:
  "holds R (Interaction f) Q w \<longleftrightarrow> (\<forall>v p v'. R w v \<longrightarrow> f v = (p, v') \<longrightarrow> R v v' \<and> holds R p Q v')"
  by (auto simp: case_prod_beta) (metis prod.collapse)+

declare holds.simps(2) [simp del]

locale rely_guarantee =
  fixes R :: "world \<Rightarrow> world \<Rightarrow> bool"
  assumes R_refl: "R w w" and R_trans: "R u v \<Longrightarrow> R v w \<Longrightarrow> R u w"
begin

lemma holds_later: "holds R p Q w \<Longrightarrow> R w v \<Longrightarrow> holds R p Q v"
  by (cases p) (auto simp: holds_Interaction intro: R_trans)

lemma holds_seq: "holds R p (\<lambda>x. holds R (k x) Q) w \<Longrightarrow> holds R (seq p k) Q w"
proof (induction p arbitrary: w rule: prog_induct)
  case (Finished x)
  then show ?case using R_refl by simp
next
  case (Interaction f)
  have "R v v' \<and> holds R (seq p k) Q v'" if "R w v" "f v = (p, v')" for v p v'
  proof -
    from Interaction.prems that have r: "R v v'" "holds R p (\<lambda>x. holds R (k x) Q) v'"
      unfolding holds_Interaction by blast+
    from Interaction.IH [OF that(2) r(2)] r(1) show ?thesis by blast
  qed
  then show ?case by (fastforce simp: holds_Interaction map_prod_def split: prod.splits)
qed

lemma holds_atomic:
  assumes "\<And>v x v'. R w v \<Longrightarrow> m v = (x, v') \<Longrightarrow> R v v' \<and> (\<forall>u. R v' u \<longrightarrow> Q x u)"
  shows "holds R (atomic m) Q w"
  using assms by (fastforce simp: atomic_def holds_Interaction map_prod_def split: prod.splits)

lemma holds_mono:
  assumes "holds R p P w" "\<And>x v. P x v \<Longrightarrow> Q x v"
  shows "holds R p Q w"
  using assms(1)
proof (induction p arbitrary: w rule: prog_induct)
  case (Interaction f)
  have "R v v' \<and> holds R p Q v'" if "R w v" "f v = (p, v')" for v p v'
  proof -
    from Interaction.prems that have r: "R v v'" "holds R p P v'" unfolding holds_Interaction by blast+
    from Interaction.IH [OF that(2) r(2)] r(1) show ?thesis by blast
  qed
  then show ?case by (simp add: holds_Interaction)
qed (use assms(2) in simp)

lemma holds_seqE:
  assumes "holds R p (\<lambda>r w. case r of Inl e \<Rightarrow> (\<forall>v. R w v \<longrightarrow> Q (Inl e) v) | Inr x \<Rightarrow> holds R (k x) Q w) w"
  shows "holds R (seqE p k) Q w"
proof -
  have "holds R p (\<lambda>x. holds R (case x of Inl e \<Rightarrow> Finished (Inl e) | Inr x \<Rightarrow> k x) Q) w"
    using assms by (rule holds_mono) (auto split: sum.splits)
  then show ?thesis unfolding seqE_def by (rule holds_seq)
qed

lemma holds_run: "holds R p Q w \<Longrightarrow> run p w = (x, w') \<Longrightarrow> R w w' \<and> Q x w'"
proof (induction p arbitrary: w rule: prog_induct)
  case (Interaction f)
  obtain p v where f: "f w = (p, v)" by fastforce
  with Interaction.prems R_refl have r: "R w v" "holds R p Q v" "run p v = (x, w')"
    by (auto simp: holds_Interaction)
  from Interaction.IH [OF f r(2,3)] r(1) R_trans show ?case by blast
qed (use R_refl in auto)

end

end
