(* ===== verification/Hermes_DDNS_Program.thy ===== *)
theory Hermes_DDNS_Program
  imports Hermes_API Hermes_Steps
begin

text \<open>
  Requests as programs, which can be interrupted where the goroutines of concurrent requests are
  interleaved. The DDNS endpoint and the authentication of Agents are programs with one interaction
  per statement, per reading of the clock and per run of nsupdate; a log entry (its time and its
  row), the transaction of \<open>ConfirmCredentialUse\<close>, the handler of an authenticated Agent and an
  administrator's request are one interaction each. Run alone, a program is the handler of its endpoint.
\<close>

section \<open>The endpoint as a program\<close>

type_synonym 'a dbprog = "(err + 'a) prog"

fun authenticate_loopP :: "env \<Rightarrow> time \<Rightarrow> string \<Rightarrow> string \<Rightarrow> device \<Rightarrow> ddns_credential list \<Rightarrow> auth_context dbprog" where
  "authenticate_loopP env t apiKey cip device [] = Finished (Inl (ErrDDNS DErrBadAuth))"
| "authenticate_loopP env t apiKey cip device (cred # cs) =
     (if \<not> usable_credential env t apiKey cred then authenticate_loopP env t apiKey cip device cs
      else
        seqE (atomic (updates env creds creds_update (\<lambda>c. cr_ID c = cr_ID cred)
                (\<lambda>c. c\<lparr>cr_LastUsedAt := Some t, cr_LastUsedIP := cip\<rparr>))) (\<lambda>_.
        Finished (Inr \<lparr>ac_Device = device, ac_Credential = cred\<lparr>cr_LastUsedAt := Some t, cr_LastUsedIP := cip\<rparr>\<rparr>)))"

definition AuthenticateP :: "env \<Rightarrow> string \<Rightarrow> string \<Rightarrow> string \<Rightarrow> auth_context dbprog" where
  "AuthenticateP env username apiKey cip =
     seqE (atomic (errTo (ErrDDNS DErrBadAuth)
             (first env devices (\<lambda>d. dev_Name d = username \<and> dev_Status d = ''active'')))) (\<lambda>found.
     (case found of None \<Rightarrow> Finished (Inl (ErrDDNS DErrBadAuth))
      | Some device \<Rightarrow>
          seqE (atomic (now env)) (\<lambda>t.
          seqE (atomic (errTo (ErrDDNS DErrBadAuth)
                  (select env creds (\<lambda>c. cr_DeviceID c = dev_ID device \<and> cr_Status c \<in> {CActive, CGrace})))) (\<lambda>cs.
          authenticate_loopP env t apiKey cip device cs))))"

definition ensure_domainP :: "env \<Rightarrow> ddns_service \<Rightarrow> string \<Rightarrow> domain dbprog" where
  "ensure_domainP env sv zone =
     seqE (atomic (first env domains (\<lambda>d. dom_Name d = zone \<and> dom_Enabled d))) (\<lambda>found.
     (case found of
        Some d \<Rightarrow> Finished (Inr d)
      | None \<Rightarrow> atomic (create env domains domains_update (\<lambda>d d'. dom_Name d = dom_Name d') (\<lambda>i _.
          \<lparr>dom_ID = i, dom_Name = zone, dom_DefaultTTL = sv_DefaultTTL sv, dom_Enabled = True,
           dom_Wildcard = sv_AllowWildcard sv\<rparr>))))"

definition find_hostP ::
  "env \<Rightarrow> ddns_service \<Rightarrow> auth_context \<Rightarrow> domain \<Rightarrow> string \<Rightarrow> string \<Rightarrow> string \<Rightarrow> string \<Rightarrow> string \<Rightarrow> string \<Rightarrow> time
   \<Rightarrow> (host \<times> bool) dbprog" where
  "find_hostP env sv auth domain hostLabel fqdn recordType ip cip userAgent requestedAt =
     seqE (atomic (first env hosts (\<lambda>h. host_DomainID h = dom_ID domain \<and> host_Hostname h = hostLabel))) (\<lambda>found.
     (case found of
        None \<Rightarrow>
          if \<not> canAutocreate sv (dev_Name (ac_Device auth)) hostLabel then
            seqE (atomic (writeLog env auth None ''reject'' ''error'' ''badauth''
                    (not_authorized_message (dev_Name (ac_Device auth)) fqdn)
                    ip cip userAgent requestedAt)) (\<lambda>_.
            Finished (Inl (ErrDDNS DErrBadAuth)))
          else
            Finished (Inr (\<lparr>host_ID = 0, host_DomainID = dom_ID domain, host_DeviceID = dev_ID (ac_Device auth),
                  host_Hostname = hostLabel, host_IPAddress = [], host_RecordType = recordType,
                  host_TTL = dom_DefaultTTL domain, host_Status = ''active'', host_LastUpdate = 0\<rparr>, True))
      | Some h \<Rightarrow>
          seqE (atomic (select env domains (\<lambda>d. dom_ID d = host_DomainID h))) (\<lambda>_.
          if host_DeviceID h \<noteq> dev_ID (ac_Device auth) then
            seqE (atomic (writeLog env auth (Some h) ''reject'' ''error'' ''badauth''
                    (foreign_message fqdn) ip cip userAgent requestedAt)) (\<lambda>_.
            Finished (Inl (ErrDDNS DErrBadAuth)))
          else Finished (Inr (h, False)))))"

definition no_changeP ::
  "env \<Rightarrow> auth_context \<Rightarrow> host \<Rightarrow> string \<Rightarrow> string \<Rightarrow> string \<Rightarrow> time \<Rightarrow> ddns_result dbprog" where
  "no_changeP env auth h ip cip userAgent requestedAt =
     seqE (atomic (now env)) (\<lambda>t.
     (let h = h\<lparr>host_LastUpdate := t\<rparr> in
      seqE (atomic (see_device env auth t ip)) (\<lambda>_.
      seqE (atomic (attempt (updates env hosts hosts_update (\<lambda>r. host_ID r = host_ID h) (\<lambda>r. r\<lparr>host_LastUpdate := t\<rparr>)))) (\<lambda>_.
      seqE (atomic (writeLog env auth (Some h) ''no_change'' ''success'' ''nochg'' ''IP address unchanged'' ip cip userAgent
              requestedAt)) (\<lambda>_.
      Finished (Inr \<lparr>rs_Code = ''nochg'', rs_IP = ip, rs_Changed = False, rs_Created = False, rs_Host = h\<rparr>))))))"

text \<open>After nsupdate has accepted the script: the row, the device and the log.\<close>

definition saveP ::
  "env \<Rightarrow> auth_context \<Rightarrow> host \<Rightarrow> bool \<Rightarrow> string \<Rightarrow> string \<Rightarrow> string \<Rightarrow> string \<Rightarrow> time \<Rightarrow> ddns_result dbprog" where
  "saveP env auth h created recordType ip cip userAgent requestedAt =
     seqE (atomic (now env)) (\<lambda>t.
     seqE (atomic (store_host env created (h\<lparr>host_IPAddress := ip, host_RecordType := recordType, host_LastUpdate := t\<rparr>))) (\<lambda>h.
     seqE (atomic (see_device env auth t ip)) (\<lambda>_.
     seqE (atomic (writeLog env auth (Some h) (if created then ''create'' else ''update'') ''success'' ''good''
             ''DNS record updated'' ip cip userAgent requestedAt)) (\<lambda>_.
     Finished (Inr \<lparr>rs_Code = ''good'', rs_IP = ip, rs_Changed = True, rs_Created = created, rs_Host = h\<rparr>)))))"

definition publishP ::
  "env \<Rightarrow> ddns_service \<Rightarrow> auth_context \<Rightarrow> domain \<Rightarrow> string \<Rightarrow> string \<Rightarrow> host \<Rightarrow> bool \<Rightarrow> string \<Rightarrow> string \<Rightarrow> string \<Rightarrow> string \<Rightarrow> time
   \<Rightarrow> ddns_result dbprog" where
  "publishP env sv auth domain hostLabel zone h created recordType ip cip userAgent requestedAt =
     seq (atomic (Upsert env (sv_Server sv) hostLabel zone recordType ip (host_TTL h) (dom_Wildcard domain))) (\<lambda>r.
     (case r of
        Inl msg \<Rightarrow>
          seqE (atomic (writeLog env auth (Some h) ''dns_update'' ''error'' ''dnserr'' msg ip cip userAgent requestedAt)) (\<lambda>_.
          Finished (Inl DNSError))
      | Inr _ \<Rightarrow> saveP env auth h created recordType ip cip userAgent requestedAt))"

definition update_hostP ::
  "env \<Rightarrow> ddns_service \<Rightarrow> auth_context \<Rightarrow> domain \<Rightarrow> string \<Rightarrow> string \<Rightarrow> string \<Rightarrow> string \<Rightarrow> string \<Rightarrow> string \<Rightarrow> string \<Rightarrow> time
   \<Rightarrow> ddns_result dbprog" where
  "update_hostP env sv auth domain hostLabel zone fqdn recordType ip cip userAgent requestedAt =
     seqE (find_hostP env sv auth domain hostLabel fqdn recordType ip cip userAgent requestedAt) (\<lambda>(h, created).
     if \<not> created \<and> host_IPAddress h = ip \<and> host_RecordType h = recordType
     then no_changeP env auth h ip cip userAgent requestedAt
     else publishP env sv auth domain hostLabel zone h created recordType ip cip userAgent requestedAt)"

definition UpdateP ::
  "env \<Rightarrow> ddns_service \<Rightarrow> auth_context \<Rightarrow> string \<Rightarrow> string \<Rightarrow> string \<Rightarrow> string \<Rightarrow> ddns_result dbprog" where
  "UpdateP env sv auth fqdn requestedIP cip userAgent =
     seqE (atomic (now env)) (\<lambda>requestedAt.
     (case splitManagedFQDN sv fqdn of
        None \<Rightarrow>
          seqE (atomic (writeLog env auth None ''reject'' ''error'' ''notfqdn'' ''hostname is not a managed FQDN'' requestedIP
                  cip userAgent requestedAt)) (\<lambda>_.
          Finished (Inl (ErrDDNS DErrNotFQDN)))
      | Some (hostLabel, zone) \<Rightarrow>
          (let ip0 = (if TrimSpace requestedIP = [] then cip else TrimSpace requestedIP) in
           (case ParseIP ip0 of
              None \<Rightarrow>
                seqE (atomic (writeLog env auth None ''reject'' ''error'' ''badagent'' ''invalid IP address'' ip0 cip
                        userAgent requestedAt)) (\<lambda>_.
                Finished (Inl (ErrDDNS DErrBadIP)))
            | Some parsed \<Rightarrow>
                seqE (ensure_domainP env sv zone) (\<lambda>domain.
                update_hostP env sv auth domain hostLabel zone fqdn (if Is4 parsed then ''A'' else ''AAAA'') (ip_string parsed)
                  cip userAgent requestedAt)))))"

definition ddnsUpdateP :: "env \<Rightarrow> server \<Rightarrow> http_request \<Rightarrow> string \<Rightarrow> string \<Rightarrow> reply prog" where
  "ddnsUpdateP env srv rq hostname myip =
     (case rq_BasicAuth rq of
        None \<Rightarrow> Finished (reply_of 401 (PlainText (''badauth'' @ [nl])))
      | Some (username, password) \<Rightarrow>
          seq (AuthenticateP env username password (callerIP srv rq)) (\<lambda>a.
          (case a of
             Inl _ \<Rightarrow> Finished (reply_of 401 (PlainText (''badauth'' @ [nl])))
           | Inr auth \<Rightarrow>
               seq (UpdateP env (srv_DDNS srv) auth hostname myip (callerIP srv rq) (rq_UserAgent rq)) (\<lambda>r.
               (case r of
                  Inl e \<Rightarrow> Finished (ddns_error e)
                | Inr result \<Rightarrow>
                    seq (atomic (ConfirmCredentialUse env (cr_ID (ac_Credential auth)))) (\<lambda>_.
                    Finished (reply_of 200 (PlainText (rs_Code result @ '' '' @ rs_IP result @ [nl])))))))))"

lemma run_authenticate_loopP [run_progs]:
  "run (authenticate_loopP env t key cip x cs) = authenticate_loop env t key cip x cs"
  by (induction cs) (simp_all only: authenticate_loopP.simps authenticate_loop.simps run_progs)

lemma bindE_orFail: "bindE (orFail e y) k = (case y of None \<Rightarrow> raise e | Some x \<Rightarrow> k x)"
  by (simp add: fun_eq_iff bindE_def split: option.split)

lemma run_AuthenticateP [run_progs]: "run (AuthenticateP env user key cip) = AuthenticateDDNS env user key cip"
  by (simp only: AuthenticateP_def AuthenticateDDNS_def run_progs bindE_orFail)

lemma run_parts [run_progs]:
  "run (ensure_domainP env sv zone) = ensure_domain env sv zone"
  "run (find_hostP env sv auth domain hl fqdn rt ip cip ua t) = find_host env sv auth domain hl fqdn rt ip cip ua t"
  "run (no_changeP env auth h ip cip ua t) = no_change env auth h ip cip ua t"
  by (simp_all only: ensure_domainP_def ensure_domain_def find_hostP_def find_host_def no_changeP_def no_change_def run_progs Let_def)

lemma run_publishP [run_progs]:
  "run (publishP env sv auth domain hl zone h created rt ip cip ua t) = publish env sv auth domain hl zone h created rt ip cip ua t"
  by (rule ext, simp only: publishP_def saveP_def publish_def run_seq run_progs split: prod.split sum.split) simp

lemma run_update [run_progs]:
  "run (update_hostP env sv auth domain hl zone fqdn rt ip cip ua t) = update_host env sv auth domain hl zone fqdn rt ip cip ua t"
  "run (UpdateP env sv auth fqdn rip cip ua) = UpdateDDNS env sv auth fqdn rip cip ua"
  by (simp_all only: update_hostP_def update_host_def UpdateP_def UpdateDDNS_def run_progs Let_def)

lemma run_ddnsUpdateP: "run (ddnsUpdateP env srv rq hostname myip) = ddnsUpdate env srv rq hostname myip"
  by (rule ext) (simp add: ddnsUpdateP_def ddnsUpdate_def run_seq run_progs call_def answer_def Let_def
      split: option.split prod.split sum.split)

section \<open>The requests of Agents\<close>

definition AuthenticateAgentP :: "env \<Rightarrow> string \<Rightarrow> string \<Rightarrow> (device \<times> identity_credential) dbprog" where
  "AuthenticateAgentP env apiKey cip =
     (case ParseAgentKeyID apiKey of
        None \<Rightarrow> Finished (Inl (ErrAgentAuth AErrBadAuth))
      | Some credentialID \<Rightarrow>
          seqE (atomic (errTo (ErrAgentAuth AErrBadAuth)
                  (first env identities (\<lambda>c. idc_CredentialID c = credentialID \<and> idc_Status c = CActive)))) (\<lambda>found.
          (case found of
             None \<Rightarrow> Finished (Inl (ErrAgentAuth AErrBadAuth))
           | Some credential \<Rightarrow>
               seqE (atomic (now env)) (\<lambda>t.
               if has_expired (idc_ExpiresAt credential) t then Finished (Inl (ErrAgentAuth AErrBadAuth))
               else if \<not> VerifyAPIKey env apiKey (idc_SecretHash credential) then Finished (Inl (ErrAgentAuth AErrBadAuth))
               else
                 seqE (atomic (errTo (ErrAgentAuth AErrBadAuth)
                         (first env devices (\<lambda>d. dev_ID d = idc_DeviceID credential \<and> dev_Status d = ''active'')))) (\<lambda>found.
                 (case found of
                    None \<Rightarrow> Finished (Inl (ErrAgentAuth AErrBadAuth))
                  | Some device \<Rightarrow>
                      seqE (atomic (updates env identities identities_update (\<lambda>c. idc_ID c = idc_ID credential)
                              (\<lambda>c. c\<lparr>idc_LastUsedAt := Some t, idc_LastUsedIP := cip\<rparr>))) (\<lambda>_.
                      Finished (Inr (device, credential\<lparr>idc_LastUsedAt := Some t, idc_LastUsedIP := cip\<rparr>)))))))))"

definition agentP :: "env \<Rightarrow> server \<Rightarrow> http_request \<Rightarrow> endpoint \<Rightarrow> reply prog" where
  "agentP env srv rq ep =
     (case bearerToken (rq_Authorization rq) of
        None \<Rightarrow> Finished agentUnauthorized
      | Some token \<Rightarrow>
          seq (AuthenticateAgentP env token (callerIP srv rq)) (\<lambda>a.
          (case a of
             Inl _ \<Rightarrow> Finished agentUnauthorized
           | Inr auth \<Rightarrow> atomic (agent_endpoint env srv rq auth ep))))"

definition requestP :: "env \<Rightarrow> server \<Rightarrow> http_request \<Rightarrow> endpoint \<Rightarrow> reply prog" where
  "requestP env srv rq ep =
     (case ep of
        DDNSUpdate hostname myip \<Rightarrow> ddnsUpdateP env srv rq hostname myip
      | _ \<Rightarrow> if access_of ep = Agent then agentP env srv rq ep else atomic (serve env srv rq ep))"

lemma run_AuthenticateAgentP [run_progs]: "run (AuthenticateAgentP env key cip) = AuthenticateAgent env key cip"
  by (simp only: AuthenticateAgentP_def AuthenticateAgent_def run_progs bindE_orFail failIf_def)

lemma run_agentP: "run (agentP env srv rq ep) = authenticateAgent env srv rq (\<lambda>auth. agent_endpoint env srv rq auth ep)"
  by (rule ext) (simp add: agentP_def authenticateAgent_def run_seq run_progs call_def split: option.split prod.split sum.split)


end
