(* ===== verification/Hermes_Interleaving.thy ===== *)
theory Hermes_Interleaving
  imports Hermes_Cycle Hermes_DDNS_Program
begin

text \<open>
  Requests that run concurrently: whatever is interleaved with the interactions of a
  request, the invariants of the server hold after each of them and no host is lost. The proof
  is by the rely-guarantee rules of \<open>Hermes_Steps\<close>, for the relation \<open>keeps_hosts\<close>.
\<close>

section \<open>What every interaction keeps\<close>

text \<open>
  Hosts are never removed, renamed or given to another device, and the invariant of the server
  holds after every interaction.
\<close>

definition host_key :: "host \<Rightarrow> nat \<times> nat \<times> string \<times> nat" where
  "host_key h = (host_ID h, host_DomainID h, host_Hostname h, host_DeviceID h)"

definition host_keys :: "database \<Rightarrow> (nat \<times> nat \<times> string \<times> nat) set" where
  "host_keys d = host_key ` set (tbl_rows (hosts d))"

definition keeps_hosts :: "world \<Rightarrow> world \<Rightarrow> bool" where
  "keeps_hosts w w' \<longleftrightarrow> w' = w \<or>
     server_ok (w_db w) \<and> server_ok (w_db w') \<and> host_keys (w_db w) \<subseteq> host_keys (w_db w')"

interpretation hosts_rg: rely_guarantee keeps_hosts
  by unfold_locales (auto simp: keeps_hosts_def)

lemma keeps_hosts_iff: "server_ok (w_db w) \<Longrightarrow>
    keeps_hosts w w' \<longleftrightarrow> server_ok (w_db w') \<and> host_keys (w_db w) \<subseteq> host_keys (w_db w')"
  by (auto simp: keeps_hosts_def)

lemma keeps_hosts_ok: "keeps_hosts w v \<Longrightarrow> server_ok (w_db w) \<Longrightarrow> server_ok (w_db v)"
  by (auto simp: keeps_hosts_def)

lemma keeps_hosts_same:
  "server_ok (w_db w') \<Longrightarrow> server_ok (w_db w) \<Longrightarrow> hosts (w_db w') = hosts (w_db w) \<Longrightarrow> keeps_hosts w w'"
  by (simp add: keeps_hosts_iff host_keys_def)

section \<open>Programs that keep it\<close>

text \<open>
  \<open>K\<close> is what a program knows of the hosts when it starts, \<open>Q\<close> what is known of them with its
  result; both stay true whatever the other requests do.
\<close>

definition stable :: "(world \<Rightarrow> bool) \<Rightarrow> bool" where
  "stable K \<longleftrightarrow> (\<forall>w v. keeps_hosts w v \<longrightarrow> K w \<longrightarrow> K v)"

definition safe :: "(world \<Rightarrow> bool) \<Rightarrow> 'a prog \<Rightarrow> ('a \<Rightarrow> world \<Rightarrow> bool) \<Rightarrow> bool" where
  "safe K p Q \<longleftrightarrow> (\<forall>w. server_ok (w_db w) \<longrightarrow> K w \<longrightarrow> holds keeps_hosts p (\<lambda>x v. server_ok (w_db v) \<and> Q x v) w)"

abbreviation any :: "'a \<Rightarrow> world \<Rightarrow> bool" where
  "any \<equiv> (\<lambda>_ _. True)"

definition known_host :: "host \<Rightarrow> bool \<Rightarrow> world \<Rightarrow> bool" where
  "known_host h created w \<longleftrightarrow> created \<or> host_key h \<in> host_keys (w_db w)"

named_theorems safe_rules

lemma stable_rules [simp]: "stable (known_host h created)" "stable (\<lambda>_. True)"
  by (auto simp: stable_def known_host_def keeps_hosts_def)

lemma safe_Finished: "(\<And>w v. K w \<Longrightarrow> keeps_hosts w v \<Longrightarrow> Q x v) \<Longrightarrow> safe K (Finished x) Q"
  by (auto simp: safe_def dest: keeps_hosts_ok)

lemma safe_atomic:
  assumes "stable K" "\<And>w x w'. server_ok (w_db w) \<Longrightarrow> K w \<Longrightarrow> m w = (x, w') \<Longrightarrow> keeps_hosts w w'"
    and "\<And>w x w' v. server_ok (w_db w) \<Longrightarrow> K w \<Longrightarrow> m w = (x, w') \<Longrightarrow> keeps_hosts w' v \<Longrightarrow> Q x v"
  shows "safe K (atomic m) Q"
  unfolding safe_def
proof (intro allI impI hosts_rg.holds_atomic)
  fix w v x v'
  assume "server_ok (w_db w)" "K w" "keeps_hosts w v" and m: "m v = (x, v')"
  then have v: "server_ok (w_db v)" "K v" using assms(1) keeps_hosts_ok by (auto simp: stable_def)
  with assms(2) m have r: "keeps_hosts v v'" by blast
  with v assms(3) m keeps_hosts_ok show "keeps_hosts v v' \<and> (\<forall>u. keeps_hosts v' u \<longrightarrow> server_ok (w_db u) \<and> Q x u)" by metis
qed

lemma safe_seq: "safe K p P \<Longrightarrow> (\<And>x. safe (P x) (k x) Q) \<Longrightarrow> safe K (seq p k) Q"
  unfolding safe_def by (blast intro: hosts_rg.holds_seq hosts_rg.holds_mono)

lemma safe_seqE:
  assumes "safe K p P" "\<And>x. safe (P (Inr x)) (k x) Q" "\<And>e w v. P (Inl e) w \<Longrightarrow> keeps_hosts w v \<Longrightarrow> Q (Inl e) v"
  shows "safe K (seqE p k) Q"
  unfolding seqE_def by (rule safe_seq [OF assms(1)]) (auto intro: assms(2,3) safe_Finished split: sum.split)

lemma safe_cases [safe_rules]:
  "safe K p Q \<Longrightarrow> safe K q Q \<Longrightarrow> safe K (if b then p else q) Q"
  "safe K p Q \<Longrightarrow> (\<And>y. safe K (pf y) Q) \<Longrightarrow> safe K (case x of None \<Rightarrow> p | Some y \<Rightarrow> pf y) Q"
  "(\<And>y. safe K (pl y) Q) \<Longrightarrow> (\<And>z. safe K (pr z) Q) \<Longrightarrow> safe K (case s of Inl y \<Rightarrow> pl y | Inr z \<Rightarrow> pr z) Q"
  "(\<And>a b. safe K (pp a b) Q) \<Longrightarrow> safe K (case ab of (a, b) \<Rightarrow> pp a b) Q"
  "(\<And>x. safe K (pf x) Q) \<Longrightarrow> safe K (let x = y in pf x) Q"
  by (simp_all split: option.split sum.split prod.split)

lemma stableD: "stable K \<Longrightarrow> keeps_hosts w v \<Longrightarrow> K w \<Longrightarrow> K v"
  unfolding stable_def by blast

text \<open>A program of which nothing has to be known but that what is known stays true.\<close>

lemma safe_any: "safe K p Q \<Longrightarrow> safe K p any"
  unfolding safe_def by (blast intro: hosts_rg.holds_mono)

lemma safe_thenE [safe_rules]: "safe K p (\<lambda>_. K) \<Longrightarrow> (\<And>x. safe K (k x) any) \<Longrightarrow> safe K (seqE p k) any"
  by (erule safe_seqE) simp_all

lemma safe_then [safe_rules]: "safe K p (\<lambda>_. K) \<Longrightarrow> (\<And>x. safe K (k x) any) \<Longrightarrow> safe K (seq p k) any"
  by (erule safe_seq)

lemma safe_end [safe_rules]: "safe K (Finished x) any"
  by (rule safe_Finished) simp

section \<open>Statements\<close>

lemma safe_step:
  assumes "stable K" "\<And>w x w'. server_ok (w_db w) \<Longrightarrow> K w \<Longrightarrow> m w = (x, w') \<Longrightarrow> keeps_hosts w w'"
  shows "safe K (atomic m) (\<lambda>_. K)"
  using assms by (intro safe_atomic) (unfold stable_def, blast+)

lemma safe_keeping: "keeps hosts m \<Longrightarrow> preserves server_ok m \<Longrightarrow> stable K \<Longrightarrow> safe K (atomic m) (\<lambda>_. K)"
  by (rule safe_step) (blast intro: keeps_hosts_same dest: keepsD preservesD)+

lemma keeps_part: "keeps f m \<Longrightarrow> (\<And>d d'. f d' = f d \<Longrightarrow> g d' = g d) \<Longrightarrow> keeps g m"
  unfolding keeps_def by blast

lemma keeps_hosts_part:
  "keeps beyond_sighting m \<Longrightarrow> keeps hosts m" "keeps beyond_credentials m \<Longrightarrow> keeps hosts m"
  "keeps beyond_enrollment m \<Longrightarrow> keeps hosts m" "keeps beyond_telemetry m \<Longrightarrow> keeps hosts m"
  "keeps beyond_network m \<Longrightarrow> keeps hosts m" "keeps beyond_devices m \<Longrightarrow> keeps hosts m"
  by (erule keeps_part; simp add: beyond_defs name_part_def)+

lemma safe_sighting: "keeps beyond_sighting m \<Longrightarrow> stable K \<Longrightarrow> safe K (atomic m) (\<lambda>_. K)"
  by (rule safe_keeping [OF keeps_hosts_part(1) preserves_service(6)])

lemma safe_reads [safe_rules]:
  assumes "stable K"
  shows "safe K (atomic (first env get P)) (\<lambda>_. K)" "safe K (atomic (select env get P)) (\<lambda>_. K)"
    "safe K (atomic (errTo e (first env get P))) (\<lambda>_. K)" "safe K (atomic (errTo e (select env get P))) (\<lambda>_. K)"
    "safe K (atomic (now env)) (\<lambda>_. K)"
  by (rule safe_sighting [OF _ assms], intro keeps)+

lemma safe_statements [safe_rules]:
  assumes "stable K"
  shows "safe K (atomic (writeLog env auth h op st resp msg ip cip ua t)) (\<lambda>_. K)"
    "safe K (atomic (see_device env auth t ip)) (\<lambda>_. K)"
    "safe K (atomic (Upsert env server hl zone rt target ttl wild)) (\<lambda>_. K)"
    "safe K (atomic (updates env creds creds_update P (\<lambda>c. c\<lparr>cr_LastUsedAt := a, cr_LastUsedIP := b\<rparr>))) (\<lambda>_. K)"
  unfolding writeLog_def see_device_def
  by (rule safe_sighting [OF _ assms],
      auto intro!: keeps simp: beyond_sighting_def part_defs comp_def if_distrib cong: if_cong)+

lemma safe_confirm [safe_rules]: "stable K \<Longrightarrow> safe K (atomic (ConfirmCredentialUse env i)) (\<lambda>_. K)"
  by (rule safe_keeping [OF keeps_hosts_part(2) [OF credential_service_frame(5)] credential_operations(4)])

lemma safe_create_domain [safe_rules]:
  assumes "\<And>i t. dom_ID (mk i t) = i" "stable K"
  shows "safe K (atomic (create env domains domains_update (\<lambda>d d'. dom_Name d = dom_Name d') mk)) (\<lambda>_. K)"
  using assms by (intro safe_keeping keeps create_domain_operation) simp_all

text \<open>The rows of the hosts themselves: a host that is known keeps its key when it is saved.\<close>

lemma known_row:
  assumes "server_ok (w_db w)" "known_host h False w"
  obtains h0 where "h0 \<in> set (tbl_rows (hosts (w_db w)))" "host_key h0 = host_key h"
    "\<And>r. r \<in> set (tbl_rows (hosts (w_db w))) \<Longrightarrow> host_ID r = host_ID h \<Longrightarrow> r = h0"
proof -
  from assms(2) obtain h0 where h0: "h0 \<in> set (tbl_rows (hosts (w_db w)))" "host_key h0 = host_key h"
    by (auto simp: known_host_def host_keys_def)
  have "r = h0" if "r \<in> set (tbl_rows (hosts (w_db w)))" "host_ID r = host_ID h" for r
    using assms(1) that h0 hosts_okD(1) [of "w_db w" r h0] by (simp add: server_ok_def host_key_def)
  with h0 show thesis by (rule that)
qed

lemma updated_hosts:
  assumes ok: "server_ok d" and hosts: "d' = hosts_update (upd_rows P f) d"
    and key: "\<And>r. r \<in> set (tbl_rows (hosts d)) \<Longrightarrow> P r \<Longrightarrow> host_key (f r) = host_key r"
  shows "server_ok d'" "host_keys d' = host_keys d"
proof -
  let ?g = "\<lambda>r. if P r then f r else r"
  have rows: "tbl_rows (hosts d') = map ?g (tbl_rows (hosts d))" "tbl_seq (hosts d') = tbl_seq (hosts d)" by (simp_all add: hosts)
  have keys: "map host_key (tbl_rows (hosts d')) = map host_key (tbl_rows (hosts d))" unfolding rows using key by simp
  from arg_cong [OF keys, of set] show k: "host_keys d' = host_keys d" by (simp add: host_keys_def)
  show "server_ok d'"
  proof (rule server_ok_component(5) [OF ok])
    show "beyond_names d' = beyond_names d" by (simp add: hosts beyond_defs part_defs)
    assume h: "hosts_ok d" and dom: "domains_ok d"
    have ids: "map host_ID (tbl_rows (hosts d')) = map host_ID (tbl_rows (hosts d))"
      using arg_cong [OF keys, of "map fst"] by (simp add: comp_def host_key_def)
    have g: "host_ID (?g r) = host_ID r \<and> host_DomainID (?g r) = host_DomainID r \<and> host_Hostname (?g r) = host_Hostname r"
      if "r \<in> set (tbl_rows (hosts d))" for r using key [OF that] by (auto simp: host_key_def)
    have "\<forall>i \<in> set (map host_ID (tbl_rows (hosts d'))). 1 \<le> i \<and> i \<le> tbl_seq (hosts d')"
      unfolding ids rows(2) using h by (simp add: hosts_ok_def wf_table_def)
    moreover have "distinct (map host_ID (tbl_rows (hosts d')))" unfolding ids using h by (simp add: hosts_ok_def wf_table_def)
    ultimately have "wf_table host_ID (hosts d')" by (simp add: wf_table_def)
    moreover have "\<forall>x \<in> set (tbl_rows (hosts d')). \<forall>y \<in> set (tbl_rows (hosts d')).
        host_DomainID x = host_DomainID y \<and> host_Hostname x = host_Hostname y \<longrightarrow> x = y"
      unfolding rows set_map using hosts_okD(2) [OF h] g by (simp only: ball_simps) metis
    ultimately show "hosts_ok d' \<and> domains_ok d'" using dom by (simp add: hosts_ok_def domains_ok_def hosts)
  qed
qed

lemma safe_updates_hosts:
  assumes "\<And>w r. server_ok (w_db w) \<Longrightarrow> K w \<Longrightarrow> r \<in> set (tbl_rows (hosts (w_db w))) \<Longrightarrow> P r \<Longrightarrow> host_key (f r) = host_key r"
  shows "server_ok (w_db w) \<Longrightarrow> K w \<Longrightarrow> updates env hosts hosts_update P f w = (x, w') \<Longrightarrow> keeps_hosts w w'"
  using updated_hosts [of "w_db w" "w_db w'" P f] assms [of w]
  by (auto simp: updates_def stmt_def keeps_hosts_iff split: if_splits)

lemma safe_touch [safe_rules]:
  assumes "stable K"
  shows "safe K (atomic (attempt (updates env hosts hosts_update P (\<lambda>r. r\<lparr>host_LastUpdate := t\<rparr>)))) (\<lambda>_. K)"
proof -
  let ?m = "attempt (updates env hosts hosts_update P (\<lambda>r. r\<lparr>host_LastUpdate := t\<rparr>))"
  have "keeps_hosts w w'" if ok: "server_ok (w_db w)" and m: "?m w = (x, w')" for w x w'
  proof -
    obtain y where "updates env hosts hosts_update P (\<lambda>r. r\<lparr>host_LastUpdate := t\<rparr>) w = (y, w')"
      using m by (cases "updates env hosts hosts_update P (\<lambda>r. r\<lparr>host_LastUpdate := t\<rparr>) w") (auto simp: attempt_def)
    from safe_updates_hosts [where K = "\<lambda>_. True", OF _ ok _ this] show ?thesis by (simp add: host_key_def)
  qed
  with assms show ?thesis by (blast intro: safe_step)
qed

lemma safe_store [safe_rules]:
  assumes "host_key h' = host_key h"
  shows "safe (known_host h created) (atomic (store_host env created h')) (\<lambda>_. known_host h created)"
proof (rule safe_step)
  fix w x w' assume ok: "server_ok (w_db w)" and known: "known_host h created w" and run: "store_host env created h' w = (x, w')"
  show "keeps_hosts w w'"
  proof (cases created)
    case True
    let ?h = "h'\<lparr>host_ID := Suc (tbl_seq (hosts (w_db w)))\<rparr>"
    have "w_db w' = w_db w \<or> w_db w' = hosts_update (ins_row ?h) (w_db w)"
      using run True by (auto simp: store_host_def create_def stmt_def Let_def split: if_splits)
    moreover have "hosts_ok (w_db w')" 
      using store_host_effect(1) [OF run _ refl] ok True by (simp add: server_ok_def)
    ultimately show ?thesis
      using server_ok_component(5) [OF ok, of "w_db w'"] ok
      by (auto simp: keeps_hosts_iff host_keys_def beyond_defs part_defs domains_ok_def)
  next
    case False
    with known have "known_host h False w" by simp
    from known_row [OF ok this] obtain h0 where h0: "host_key h0 = host_key h"
      "\<And>r. r \<in> set (tbl_rows (hosts (w_db w))) \<Longrightarrow> host_ID r = host_ID h \<Longrightarrow> r = h0" by blast
    have "host_ID h' = host_ID h" using assms by (simp add: host_key_def)
    then have same: "host_key h' = host_key r" if "r \<in> set (tbl_rows (hosts (w_db w)))" "host_ID r = host_ID h'" for r
      using h0(2) [OF that(1)] that(2) h0(1) assms by simp
    have "\<exists>y. updates env hosts hosts_update (\<lambda>r. host_ID r = host_ID h') (\<lambda>_. h') w = (y, w')"
      using run False by (auto simp: store_host_def bindE_def split: prod.splits sum.splits)
    then obtain y where "updates env hosts hosts_update (\<lambda>r. host_ID r = host_ID h') (\<lambda>_. h') w = (y, w')" by blast
    from safe_updates_hosts [where K = "\<lambda>v. v = w", OF _ ok refl this] same show ?thesis by simp
  qed
qed simp

section \<open>The endpoint among other requests\<close>

lemma safe_reject:
  "safe K p (\<lambda>_. K) \<Longrightarrow> (\<And>e v. Q (Inl e) v) \<Longrightarrow> safe K (seqE p (\<lambda>_. Finished (Inl e))) Q"
  by (rule safe_seqE) (auto intro: safe_Finished)

lemma safe_find_host:
  "safe (\<lambda>_. True) (find_hostP env sv auth domain hl fqdn rt ip cip ua t)
     (\<lambda>r v. case r of Inl _ \<Rightarrow> True | Inr (h, created) \<Rightarrow> known_host h created v)"
proof -
  let ?found = "\<lambda>r v. case r of Inr (Some h) \<Rightarrow> known_host h False v | _ \<Rightarrow> True"
  have stay: "?found r v \<Longrightarrow> keeps_hosts v u \<Longrightarrow> ?found r u" for r v u
    using stable_rules(1) by (auto simp: stable_def split: sum.splits option.splits)
  have "safe (\<lambda>_. True) (atomic (first env hosts P)) ?found" for P
  proof (rule safe_atomic)
    show "keeps_hosts w w'" if "server_ok (w_db w)" "first env hosts P w = (x, w')" for w x w'
      using that by (intro keeps_hosts_same) (auto simp: first_def stmt_def split: if_splits)
    fix w x w' v assume run: "first env hosts P w = (x, w')" and later: "keeps_hosts w' v"
    from run have "?found x w'"
      by (auto simp: first_def stmt_def known_host_def host_keys_def dest: find_SomeD split: sum.splits option.splits if_splits)
    with later show "?found x v" by (rule stay [rotated])
  qed simp
  then show ?thesis unfolding find_hostP_def
  proof (rule safe_seqE, goal_cases)
    case (1 found)
    show ?case
    proof (cases found)
      case None
      then show ?thesis by (auto intro!: safe_cases safe_reject safe_statements safe_Finished simp: known_host_def)
    next
      case (Some h)
      have "safe (known_host h False) (seqE (atomic (select env domains Q)) (\<lambda>_. 
          if b then seqE (atomic (writeLog env auth h' op st resp msg ip cip ua t)) (\<lambda>_. Finished (Inl e)) else Finished (Inr (h, False))))
        (\<lambda>r v. case r of Inl _ \<Rightarrow> True | Inr (h, created) \<Rightarrow> known_host h created v)" for Q b h' op st resp msg e
        by (rule safe_seqE [OF safe_reads(2)])
          (auto intro!: safe_cases safe_reject safe_statements safe_Finished dest: stableD [OF stable_rules(1)])
      with Some show ?thesis by simp
    qed
  qed simp
qed


lemma safe_update_host: "safe (\<lambda>_. True) (update_hostP env sv auth domain hl zone fqdn rt ip cip ua t) any"
proof -
  let ?result = "\<lambda>r v. case r of Inl _ \<Rightarrow> True | Inr (h, created) \<Rightarrow> known_host h created v"
  have "safe (\<lambda>v. case x of (h, created) \<Rightarrow> known_host h created v)
    (case x of (h, created) \<Rightarrow> if \<not> created \<and> host_IPAddress h = ip \<and> host_RecordType h = rt
       then no_changeP env auth h ip cip ua t else publishP env sv auth domain hl zone h created rt ip cip ua t) any" for x
    unfolding no_changeP_def publishP_def saveP_def
    by (cases x) (auto intro!: safe_rules simp: host_key_def)
  then show ?thesis unfolding update_hostP_def by (intro safe_seqE [OF safe_find_host]) simp_all
qed

lemma safe_update: "safe (\<lambda>_. True) (UpdateP env sv auth fqdn rip cip ua) any"
  unfolding UpdateP_def ensure_domainP_def by (auto intro!: safe_rules safe_update_host)

lemma safe_ddnsUpdate: "safe (\<lambda>_. True) (ddnsUpdateP env srv rq hostname myip) any"
proof -
  have loop: "safe (\<lambda>_. True) (authenticate_loopP env t key cip x cs) any" for t key cip x cs
    by (induction cs) (simp_all only: authenticate_loopP.simps, (intro safe_rules stable_rules; simp)+)
  have "safe (\<lambda>_. True) (AuthenticateP env user key cip) any" for user key cip
    unfolding AuthenticateP_def by (intro safe_rules stable_rules loop)
  then show ?thesis
    unfolding ddnsUpdateP_def by (intro safe_rules stable_rules safe_update)
qed

section \<open>Concurrent requests\<close>

text \<open>Every other operation keeps the hosts as well: no service but the DDNS one writes their table.\<close>

definition hosts_since :: "(nat \<times> nat \<times> string \<times> nat) set \<Rightarrow> database \<Rightarrow> bool" where
  "hosts_since K d \<longleftrightarrow> server_ok d \<and> K \<subseteq> host_keys d"

lemma hosts_since_preserved: "keeps hosts m \<Longrightarrow> preserves server_ok m \<Longrightarrow> preserves (hosts_since K) m"
  by (rule preservesI) (metis hosts_since_def host_keys_def keepsD preservesD)

lemma safe_preserves:
  assumes "safe (\<lambda>_. True) p any"
  shows "preserves (hosts_since K) (run p)"
proof (rule preservesI)
  fix w r w' assume "hosts_since K (w_db w)" "run p w = (r, w')"
  with assms hosts_rg.holds_run show "hosts_since K (w_db w')"
    unfolding safe_def hosts_since_def by (metis (no_types, lifting) keeps_hosts_iff subset_trans)
qed

interpretation hosts_invariant: service_invariant "hosts_since K" for K
proof (unfold_locales, goal_cases)
  case (20 env sv auth fqdn rip cip ua)
  show ?case using safe_preserves [OF safe_update] by (simp add: run_update)
next
  case (21 env mk)
  then show ?case by (intro hosts_since_preserved keeps create_domain_operation) simp_all
qed (rule hosts_since_preserved, rule keeps_hosts_part,
  rule credential_service_frame enrollment_service_frame create_device_frame heartbeat_frame report_frame reconcile_frame
    AuthenticateDDNS_frame,
  rule credential_operations create_device_operation reconcile_operation enrollment_operations
      heartbeat_operation report_operation ddns_operations)+

text \<open>The programs of all requests.\<close>

lemma safe_service:
  assumes "\<And>K. preserves (hosts_since K) m" "stable K"
  shows "safe K (atomic m) (\<lambda>_. K)"
proof (rule safe_step [OF assms(2)])
  fix w x w' assume "server_ok (w_db w)" "m w = (x, w')"
  with preservesD [OF assms(1) this(2), of "host_keys (w_db w)"] show "keeps_hosts w w'"
    by (simp add: hosts_since_def keeps_hosts_iff)
qed

lemma safe_identity_use [safe_rules]:
  assumes "stable K"
  shows "safe K (atomic (updates env identities identities_update (\<lambda>c. idc_ID c = i) (\<lambda>c. c\<lparr>idc_LastUsedAt := a, idc_LastUsedIP := b\<rparr>))) (\<lambda>_. K)"
proof (rule safe_keeping [OF _ _ assms])
  let ?m = "updates env identities identities_update (\<lambda>c. idc_ID c = i) (\<lambda>c. c\<lparr>idc_LastUsedAt := a, idc_LastUsedIP := b\<rparr>)"
  show "keeps hosts ?m" by (intro keeps) simp
  show "preserves server_ok ?m"
  proof (rule preserves_service(2))
    show "keeps beyond_enrollment ?m" by (intro keeps) (simp add: beyond_enrollment_def part_defs)
    fix w r w' assume ok: "enr_ok (w_db w)" and run: "?m w = (r, w')"
    have "w_db w' = w_db w \<or> w_db w' = identities_update (upd_rows (\<lambda>c. idc_ID c = i) (\<lambda>c. c\<lparr>idc_LastUsedAt := a, idc_LastUsedIP := b\<rparr>)) (w_db w)"
      using run by (auto simp: updates_def stmt_def split: if_splits)
    then show "enr_ok (w_db w')"
    proof
      assume "w_db w' = identities_update (upd_rows (\<lambda>c. idc_ID c = i) (\<lambda>c. c\<lparr>idc_LastUsedAt := a, idc_LastUsedIP := b\<rparr>)) (w_db w)"
      then show ?thesis
        by (intro identity_change_effect [OF ok, THEN conjunct1]) (assumption | simp add: same_identity_def)+
    qed (simp add: ok)
  qed
qed

lemma safe_request: "safe (\<lambda>_. True) (requestP env srv rq ep) any"
proof -
  have agent: "safe (\<lambda>_. True) (agentP env srv rq ep) any"
    unfolding agentP_def AuthenticateAgentP_def
    by (intro safe_rules stable_rules safe_any [OF safe_service] hosts_invariant.endpoints_preserve)
  have whole: "safe (\<lambda>_. True) (atomic (serve env srv rq ep)) any"
    by (intro safe_any [OF safe_service] hosts_invariant.serve_preserves stable_rules)
  show ?thesis using agent whole safe_ddnsUpdate by (cases ep) (simp_all add: requestP_def)
qed

lemma server_step_keeps_hosts: "server_step env w w' \<Longrightarrow> server_ok (w_db w) \<Longrightarrow> keeps_hosts w w'"
  using hosts_invariant.server_step_preserves [of env w w' "host_keys (w_db w)"]
  by (simp add: hosts_since_def keeps_hosts_iff)

text \<open>
  Requests arrive, each of their interactions is one step, and between any two of them
  the reconciler runs, the server restarts or other requests are served as a whole.
\<close>

inductive concurrent_step :: "env \<Rightarrow> reply prog list \<times> world \<Rightarrow> reply prog list \<times> world \<Rightarrow> bool" for env where
  arrival: "concurrent_step env (ps, w) (ps @ [requestP env srv rq ep], w)"
| interaction: "concurrent_step env s (advance i s)"
| elsewhere: "server_step env w w' \<Longrightarrow> concurrent_step env (ps, w) (ps, w')"

definition all_safe :: "world \<Rightarrow> reply prog list \<times> world \<Rightarrow> bool" where
  "all_safe w0 s \<longleftrightarrow> server_ok (w_db (snd s)) \<and> keeps_hosts w0 (snd s) \<and>
     (\<forall>p \<in> set (fst s). holds keeps_hosts p (\<lambda>_ v. server_ok (w_db v)) (snd s))"

lemma all_safe_step:
  assumes "all_safe w0 (ps, w)" "keeps_hosts w w'"
  shows "all_safe w0 (ps, w')"
proof -
  from assms have "keeps_hosts w0 w'" "server_ok (w_db w')"
    using hosts_rg.R_trans keeps_hosts_ok unfolding all_safe_def snd_conv by blast+
  with assms show ?thesis unfolding all_safe_def fst_conv snd_conv by (blast intro: hosts_rg.holds_later)
qed

lemma advance_safe:
  assumes "all_safe w0 s"
  shows "all_safe w0 (advance i s)"
proof (cases "i < length (fst s) \<and> (\<exists>f. fst s ! i = Interaction f)")
  case True
  then obtain f p w' where i: "i < length (fst s)" "fst s ! i = Interaction f" and f: "f (snd s) = (p, w')" by fastforce
  then have "holds keeps_hosts (Interaction f) (\<lambda>_ v. server_ok (w_db v)) (snd s)"
    using assms by (force simp: all_safe_def dest: nth_mem)
  with f have step: "keeps_hosts (snd s) w'" and p: "holds keeps_hosts p (\<lambda>_ v. server_ok (w_db v)) w'"
    unfolding holds_Interaction using hosts_rg.R_refl by blast+
  have "all_safe w0 (fst s, w')" using all_safe_step assms step by (metis prod.collapse)
  with p i f show ?thesis by (auto simp: advance_def all_safe_def split: prod.splits dest!: set_update_subset_insert [THEN subsetD])
next
  case False
  then have "advance i s = s" by (auto simp: advance_def split: prod.splits prog.splits)
  with assms show ?thesis by simp
qed

interpretation concurrent_system: invariant_system "\<lambda>s. s = ([], w0) \<and> server_ok (w_db w0)" "concurrent_step env" "all_safe w0" for w0
proof
  show "all_safe w0 s" if "s = ([], w0) \<and> server_ok (w_db w0)" for s
    using that by (simp add: all_safe_def keeps_hosts_def)
  fix s s' assume inv: "all_safe w0 s" and "concurrent_step env s s'"
  from this(2) show "all_safe w0 s'"
  proof cases
    case (arrival ps w srv rq ep)
    then show ?thesis using inv safe_request by (auto simp: all_safe_def safe_def)
  next
    case (interaction i)
    with advance_safe inv show ?thesis by simp
  next
    case (elsewhere w w' ps)
    then have "keeps_hosts w w'" using inv server_step_keeps_hosts by (simp add: all_safe_def)
    with elsewhere inv show ?thesis by (simp add: all_safe_step)
  qed
qed

text \<open>C2. Whatever requests arrive, to any endpoints, and however their interactions are interleaved with
  each other, with runs of the reconciler and with restarts, the invariants of all components hold
  after every interaction, and no host is ever lost, renamed, moved to another domain or given to
  another device.\<close>

theorem interleaved_requests_safe:
  "(concurrent_step env)\<^sup>*\<^sup>* ([], w0) (ps, w) \<Longrightarrow> server_ok (w_db w0) \<Longrightarrow>
     server_ok (w_db w) \<and> host_keys (w_db w0) \<subseteq> host_keys (w_db w)"
  using concurrent_system.inv_reachable [of "([], w0)" w0 env "(ps, w)"] by (simp add: all_safe_def keeps_hosts_iff)

text \<open>The device of the demonstration has a host; two of its requests are interleaved.\<close>

definition demo_domain :: domain where
  "demo_domain = \<lparr>dom_ID = 1, dom_Name = ''example.org'', dom_DefaultTTL = 300, dom_Enabled = True, dom_Wildcard = False\<rparr>"

definition demo_host :: host where
  "demo_host = \<lparr>host_ID = 1, host_DomainID = 1, host_DeviceID = 1, host_Hostname = ''nas'', host_IPAddress = ''192.0.2.1'',
     host_RecordType = ''A'', host_TTL = 300, host_Status = ''active'', host_LastUpdate = 0\<rparr>"

definition demo_named :: world where
  "demo_named = demo_idle\<lparr>w_db := domains_update (\<lambda>_. \<lparr>tbl_rows = [demo_domain], tbl_seq = 1\<rparr>)
     (hosts_update (\<lambda>_. \<lparr>tbl_rows = [demo_host], tbl_seq = 1\<rparr>) (w_db demo_idle))\<rparr>"

lemma demo_named_hosts: "hosts (w_db demo_named) = \<lparr>tbl_rows = [demo_host], tbl_seq = 1\<rparr>"
  by (simp add: demo_named_def)

lemma demo_named_ok: "hosts_ok (w_db demo_named)"
  by (simp add: hosts_ok_def demo_named_hosts wf_table_def demo_host_def)

lemma demo_named_server: "server_ok (w_db demo_named)"
proof (rule server_ok_component(5) [OF demo_idle_ok])
  show "beyond_names (w_db demo_named) = beyond_names (w_db demo_idle)" by (simp add: demo_named_def beyond_defs part_defs)
  show "hosts_ok (w_db demo_named) \<and> domains_ok (w_db demo_named)"
    using demo_named_ok by (simp add: domains_ok_def demo_named_def wf_table_def demo_domain_def)
qed

lemma schedule_reachable: "(concurrent_step env)\<^sup>*\<^sup>* s (schedule is s)"
proof (induction "is" arbitrary: s)
  case (Cons i "is")
  have "concurrent_step env s (advance i s)" by (rule concurrent_step.interaction)
  with Cons [of "advance i s"] show ?case by (simp add: schedule_def converse_rtranclp_into_rtranclp)
qed (simp add: schedule_def)

theorem interleaved_requests_safe_witness:
  "case schedule [0, 1, 1, 0, 1, 0, 0, 1]
     ([requestP demo_env demo_server (demo_request (Some (''nas'', ''k'')) []) (DDNSUpdate ''nas.example.org'' ''192.0.2.2''),
       requestP demo_env demo_server (demo_request (Some (''nas'', ''k'')) []) (DDNSUpdate ''nas.example.org'' ''192.0.2.3'')], demo_named)
   of (ps, w) \<Rightarrow> server_ok (w_db w) \<and> host_key demo_host \<in> host_keys (w_db w)"
proof -
  let ?p = "\<lambda>a. requestP demo_env demo_server (demo_request (Some (''nas'', ''k'')) []) (DDNSUpdate ''nas.example.org'' a)"
  have "concurrent_step demo_env ([], demo_named) ([?p ''192.0.2.2''], demo_named)"
    using concurrent_step.arrival [where ps = "[]"] by simp
  moreover have "concurrent_step demo_env ([?p ''192.0.2.2''], demo_named) ([?p ''192.0.2.2'', ?p ''192.0.2.3''], demo_named)"
    using concurrent_step.arrival [where ps = "[?p ''192.0.2.2'']"] by simp
  ultimately have arrived: "(concurrent_step demo_env)\<^sup>*\<^sup>* ([], demo_named) ([?p ''192.0.2.2'', ?p ''192.0.2.3''], demo_named)"
    by (meson r_into_rtranclp rtranclp_trans)
  obtain ps w where run: "schedule [0, 1, 1, 0, 1, 0, 0, 1] ([?p ''192.0.2.2'', ?p ''192.0.2.3''], demo_named) = (ps, w)" by fastforce
  have "(concurrent_step demo_env)\<^sup>*\<^sup>* ([], demo_named) (ps, w)"
    using rtranclp_trans [OF arrived schedule_reachable, of "[0, 1, 1, 0, 1, 0, 0, 1]"] unfolding run .
  from interleaved_requests_safe [OF this demo_named_server] run show ?thesis
    by (auto simp: host_keys_def demo_named_hosts)
qed

end
