(* ===== verification/Hermes_Overlap.thy ===== *)
theory Hermes_Overlap
  imports Hermes_Interleaving
begin

text \<open>
  What the interleaving of two updates of one host does not promise: the script that was
  published last and the row that was saved last can be those of different requests.
\<close>

section \<open>Two updates of one host\<close>

lemma row_found:
  assumes "hosts_ok d" "h \<in> set (tbl_rows (hosts d))"
  shows "find (\<lambda>r. host_DomainID r = host_DomainID h \<and> host_Hostname r = host_Hostname h) (tbl_rows (hosts d)) = Some h"
  using assms hosts_okD(2) [OF assms(1)] by (intro find_unique) auto

lemma update_until_published:
  assumes nf: "no_faults env" "\<And>n s. nsupdate_error env n s = None"
    and h: "hosts_ok (w_db w)" "h \<in> set (tbl_rows (hosts (w_db w)))" "host_DomainID h = dom_ID domain"
      "host_DeviceID h = dev_ID (ac_Device auth)" "host_IPAddress h \<noteq> ip"
  shows "\<exists>w'. paused 3 (update_hostP env sv auth domain (host_Hostname h) zone fqdn rt ip cip ua t) w =
      (saveP env auth h False rt ip cip ua t, w') \<and> w_db w' = w_db w \<and>
    w_dns w' = w_dns w @ [publish_script sv domain (host_Hostname h) zone h rt ip]"
  using row_found [OF h(1,2)] h(3-5)
  by (simp add: eval_nat_numeral update_hostP_def find_hostP_def publishP_def seqE_assoc seqE_Finished run_simps nf
      Upsert_def nsupdate_run_def publish_script_def)

lemma update_after_published:
  assumes nf: "no_faults env" and ok: "hosts_ok (w_db w)" and h0: "h0 \<in> set (tbl_rows (hosts (w_db w)))" "host_key h0 = host_key h"
  shows "\<exists>r h' w'. paused 4 (saveP env auth h False rt ip cip ua t) w = (Finished (Inr r), w') \<and> rs_Code r = ''good'' \<and>
    w_dns w' = w_dns w \<and> hosts_ok (w_db w') \<and> h' \<in> set (tbl_rows (hosts (w_db w'))) \<and>
    host_key h' = host_key h \<and> host_IPAddress h' = ip \<and> host_RecordType h' = rt"
proof -
  let ?t = "clock env (w_ticks w)"
  let ?h = "h\<lparr>host_IPAddress := ip, host_RecordType := rt, host_LastUpdate := ?t\<rparr>"
  obtain x w2 where st: "store_host env False ?h (tick w) = (x, w2)" by fastforce
  then have x: "x = Inr ?h" by (simp add: store_host_def run_simps nf)
  have row: "\<exists>h0 \<in> set (tbl_rows (hosts (w_db (tick w)))). host_ID ?h = host_ID h0 \<and> host_DomainID ?h = host_DomainID h0 \<and>
      host_Hostname ?h = host_Hostname h0 \<and> host_DeviceID ?h = host_DeviceID h0"
    using h0 by (intro bexI [of _ h0]) (simp_all add: host_key_def)
  have ok1: "hosts_ok (w_db (tick w))" using ok by simp
  note s = store_host_effect [OF st ok1 refl row, unfolded x]
  obtain w3 where see: "see_device env auth ?t ip w2 = (Inr (), w3)" by (simp add: see_device_def attempt_def)
  obtain w4 where log: "writeLog env auth (Some ?h) ''update'' ''success'' ''good'' ''DNS record updated'' ip cip ua t w3 = (Inr (), w4)"
    by (simp add: writeLog_def bindE_now attempt_def)
  have "logged w3 w4" using writeLog_logged [of w3] log by (metis snd_conv)
  then have w4: "hosts (w_db w4) = hosts (w_db w2)" "w_dns w4 = w_dns w2"
    using see_device_frame [where w = w2 and env = env and auth = auth and t = ?t and ip = ip] by (simp_all add: see loggedD)
  let ?r = "\<lparr>rs_Code = ''good'', rs_IP = ip, rs_Changed = True, rs_Created = False, rs_Host = ?h\<rparr>"
  have "paused 4 (saveP env auth h False rt ip cip ua t) w = (Finished (Inr ?r), w4)"
    by (simp add: eval_nat_numeral saveP_def now_run st x see log)
  moreover have "?h \<in> set (tbl_rows (hosts (w_db w4)))" using s(5) [OF refl] by (simp add: w4)
  moreover have "hosts_ok (w_db w4)" using s(1) hosts_ok_same w4(1) by blast
  moreover have "w_dns w4 = w_dns w" using w4 s(3) by simp
  ultimately show ?thesis
    by (intro exI [of _ ?r] exI [of _ ?h] exI [of _ w4]) (simp add: host_key_def)
qed

text \<open>C30. Two updates of one host by its device that overlap can leave the DNS and the database apart: the
  first is suspended between nsupdate and the row, the second runs to its end, the first finishes.
  Both answer \<open>good\<close>, the last script published the address of the second, the row holds that of the
  first, and the device that asks for the first address again is answered \<open>nochg\<close>, with nothing sent.\<close>

theorem overlapping_updates_diverge:
  fixes sv :: ddns_service and zone fqdn rt cip ua :: string and t :: time and domain :: domain
  assumes nf: "no_faults env" "\<And>n s. nsupdate_error env n s = None"
    and h: "hosts_ok (w_db w)" "h \<in> set (tbl_rows (hosts (w_db w)))" "host_DomainID h = dom_ID domain"
      "host_DeviceID h = dev_ID (ac_Device auth)" "host_IPAddress h \<noteq> a" "host_IPAddress h \<noteq> b"
  defines "update \<equiv> \<lambda>addr. update_hostP env sv auth domain (host_Hostname h) zone fqdn rt addr cip ua t"
  shows "\<exists>is r1 r2 w' r3 w''. schedule is ([update a, update b], w) = ([Finished (Inr r1), Finished (Inr r2)], w') \<and>
    rs_Code r1 = ''good'' \<and> rs_Code r2 = ''good'' \<and>
    w_dns w' = w_dns w @ [publish_script sv domain (host_Hostname h) zone h rt a, publish_script sv domain (host_Hostname h) zone h rt b] \<and>
    holds_address (w_db w') (dev_ID (ac_Device auth)) (dom_ID domain) (host_Hostname h) rt a \<and>
    run (update a) w' = (Inr r3, w'') \<and> rs_Code r3 = ''nochg'' \<and> w_dns w'' = w_dns w'"
proof -
  from update_until_published [OF nf h(1-5)] obtain w1 where
    w1: "paused 3 (update a) w = (saveP env auth h False rt a cip ua t, w1)" "w_db w1 = w_db w"
      "w_dns w1 = w_dns w @ [publish_script sv domain (host_Hostname h) zone h rt a]"
    unfolding update_def by blast
  from update_until_published [OF nf, where w = w1, unfolded w1(2), OF h(1-4,6)] obtain w2 where
    w2: "paused 3 (update b) w1 = (saveP env auth h False rt b cip ua t, w2)" "w_db w2 = w_db w"
      "w_dns w2 = w_dns w1 @ [publish_script sv domain (host_Hostname h) zone h rt b]"
    unfolding update_def by blast
  from update_after_published [OF nf(1), where w = w2, unfolded w2(2), OF h(1,2) refl] obtain r2 h2 w3 where
    w3: "paused 4 (saveP env auth h False rt b cip ua t) w2 = (Finished (Inr r2), w3)" "rs_Code r2 = ''good''"
      "w_dns w3 = w_dns w2" "hosts_ok (w_db w3)" "h2 \<in> set (tbl_rows (hosts (w_db w3)))" "host_key h2 = host_key h"
    by blast
  from update_after_published [OF nf(1) w3(4-6)] obtain r1 h1 w' where
    w': "paused 4 (saveP env auth h False rt a cip ua t) w3 = (Finished (Inr r1), w')" "rs_Code r1 = ''good''"
      "w_dns w' = w_dns w3" "hosts_ok (w_db w')" "h1 \<in> set (tbl_rows (hosts (w_db w')))" "host_key h1 = host_key h"
      "host_IPAddress h1 = a" "host_RecordType h1 = rt"
    by blast
  have "schedule (replicate 3 0 @ replicate 3 1 @ replicate 4 1 @ replicate 4 0) ([update a, update b], w) =
      ([Finished (Inr r1), Finished (Inr r2)], w')"
    by (simp add: schedule_append schedule_replicate w1(1) w2(1) w3(1) w'(1))
  moreover have key: "host_DomainID h1 = dom_ID domain" "host_Hostname h1 = host_Hostname h" "host_DeviceID h1 = dev_ID (ac_Device auth)"
    using w'(6) h by (simp_all add: host_key_def)
  then have "holds_address (w_db w') (dev_ID (ac_Device auth)) (dom_ID domain) (host_Hostname h) rt a"
    using w' by (auto simp: holds_address_def)
  moreover have "\<exists>r3 w''. run (update a) w' = (Inr r3, w'') \<and> rs_Code r3 = ''nochg'' \<and> w_dns w'' = w_dns w'"
  proof -
    obtain r w'' where nc: "no_change env auth h1 a cip ua t (tick (tick w')) = (r, w'')" by fastforce
    have "run (update a) w' = (r, w'')"
      using row_found [OF w'(4,5)] key w'(7,8) nc
      by (simp add: update_def run_update update_host_def find_host_def run_simps nf(1))
    with no_change_effect(4,6) [OF nc, of "dev_ID (ac_Device auth)"] w' key show ?thesis by auto
  qed
  moreover have "w_dns w' = w_dns w @ [publish_script sv domain (host_Hostname h) zone h rt a,
      publish_script sv domain (host_Hostname h) zone h rt b]"
    using w1(3) w2(3) w3(3) w'(3) by simp
  ultimately show ?thesis using w3(2) w'(2) by blast
qed

theorem overlapping_updates_diverge_witness:
  "\<exists>is r1 r2 w'. schedule is
      ([update_hostP demo_env demo_service demo_auth demo_domain ''nas'' ''example.org'' ''nas.example.org'' ''A'' ''192.0.2.2'' [] [] 0,
        update_hostP demo_env demo_service demo_auth demo_domain ''nas'' ''example.org'' ''nas.example.org'' ''A'' ''192.0.2.3'' [] [] 0],
       demo_named) = ([Finished (Inr r1), Finished (Inr r2)], w') \<and>
     holds_address (w_db w') 1 1 ''nas'' ''A'' ''192.0.2.2'' \<and> length (w_dns w') = length (w_dns demo_named) + 2"
proof -
  have nsup: "nsupdate_error demo_env n s = None" for n s by (simp add: demo_env_def)
  have h: "demo_host \<in> set (tbl_rows (hosts (w_db demo_named)))" "host_DomainID demo_host = dom_ID demo_domain"
    "host_DeviceID demo_host = dev_ID (ac_Device demo_auth)"
    "host_IPAddress demo_host \<noteq> ''192.0.2.2''" "host_IPAddress demo_host \<noteq> ''192.0.2.3''"
    by (simp_all add: demo_named_hosts demo_host_def demo_domain_def demo_auth_def demo_device_def)
  from overlapping_updates_diverge [OF demo_no_faults nsup demo_named_ok h, of demo_service "''example.org''" "''nas.example.org''" "''A''" "[]" "[]" 0]
  obtain "is" r1 r2 w' where run: "schedule is
      ([update_hostP demo_env demo_service demo_auth demo_domain (host_Hostname demo_host) ''example.org'' ''nas.example.org'' ''A'' ''192.0.2.2'' [] [] 0,
        update_hostP demo_env demo_service demo_auth demo_domain (host_Hostname demo_host) ''example.org'' ''nas.example.org'' ''A'' ''192.0.2.3'' [] [] 0],
       demo_named) = ([Finished (Inr r1), Finished (Inr r2)], w')"
    and dns: "w_dns w' = w_dns demo_named @ [publish_script demo_service demo_domain (host_Hostname demo_host) ''example.org'' demo_host ''A'' ''192.0.2.2'',
      publish_script demo_service demo_domain (host_Hostname demo_host) ''example.org'' demo_host ''A'' ''192.0.2.3'']"
    and row: "holds_address (w_db w') (dev_ID (ac_Device demo_auth)) (dom_ID demo_domain) (host_Hostname demo_host) ''A'' ''192.0.2.2''"
    by blast
  have names: "host_Hostname demo_host = ''nas''" "dev_ID (ac_Device demo_auth) = 1" "dom_ID demo_domain = 1"
    by (simp_all add: demo_host_def demo_auth_def demo_device_def demo_domain_def)
  have "length (w_dns w') = length (w_dns demo_named) + 2" using dns by simp
  with run [unfolded names] row [unfolded names] show ?thesis by blast
qed

end
