(* ===== verification/Hermes_NSUpdate.thy ===== *)
theory Hermes_NSUpdate
  imports Hermes_DNS Hermes_Demo
begin

text \<open>
  \<open>NSUpdate.run\<close> of \<open>internal/dns/updater.go\<close>: the script in a temporary file, the command line of
  nsupdate, its output and the removal of the file. The file system is a map from names to
  contents. What the operating system answers is a parameter: the name of a new file or an error,
  an error while writing (with the number of bytes written before it) or closing, whether a file
  can be removed, and the result of running a binary with arguments on these files: the error of
  the process, its standard output and its standard error. nsupdate only reads the file.
\<close>

section \<open>The process\<close>

type_synonym files = "string \<rightharpoonup> string"

record platform =
  pf_CreateTemp :: "files \<Rightarrow> string + string"
  pf_WriteString :: "string \<Rightarrow> string \<Rightarrow> (nat \<times> string) option"
  pf_Close :: "string \<Rightarrow> string option"
  pf_Remove :: "string \<Rightarrow> bool"
  pf_Run :: "string \<Rightarrow> string list \<Rightarrow> files \<Rightarrow> string option \<times> string \<times> string"

record nsupdate =
  ns_Binary :: string
  ns_Server :: string
  ns_TSIGKeyFile :: string

definition Remove :: "platform \<Rightarrow> string \<Rightarrow> files \<Rightarrow> files" where
  "Remove pf name fs = (if pf_Remove pf name then fs(name := None) else fs)"

definition nsupdate_args :: "nsupdate \<Rightarrow> string \<Rightarrow> string list" where
  "nsupdate_args n name = (if ns_TSIGKeyFile n \<noteq> [] then [''-k'', ns_TSIGKeyFile n] else []) @ [name]"

definition run_script :: "platform \<Rightarrow> nsupdate \<Rightarrow> string \<Rightarrow> (files, string, unit) op" where
  "run_script pf n script fs =
     (case pf_CreateTemp pf fs of
        Inl e \<Rightarrow> (Inl e, fs)
      | Inr name \<Rightarrow>
          (case pf_WriteString pf name script of
             Some (written, e) \<Rightarrow> (Inl e, Remove pf name (fs(name \<mapsto> take written script)))
           | None \<Rightarrow>
               let fs = fs(name \<mapsto> script) in
               (case pf_Close pf name of
                  Some e \<Rightarrow> (Inl e, Remove pf name fs)
                | None \<Rightarrow>
                    (case pf_Run pf (ns_Binary n) (nsupdate_args n name) fs of
                       (Some e, stdout, stderr) \<Rightarrow>
                         (Inl (''nsupdate failed: '' @ e @ '': '' @ TrimSpace stderr), Remove pf name fs)
                     | (None, stdout, stderr) \<Rightarrow>
                         if TrimSpace stdout \<noteq> []
                         then (Inl (''nsupdate unexpected output: '' @ TrimSpace stdout), Remove pf name fs)
                         else (Inr (), Remove pf name fs)))))"

text \<open>The two operations of \<open>Updater\<close> on a process.\<close>

definition process_upsert :: "platform \<Rightarrow> nsupdate \<Rightarrow> string \<Rightarrow> string \<Rightarrow> string \<Rightarrow> string \<Rightarrow> int \<Rightarrow> bool \<Rightarrow> (files, string, unit) op" where
  "process_upsert pf n hostname zone recordType target ttl wildcard =
     run_script pf n (buildUpsertScript (ns_Server n) hostname zone recordType target ttl wildcard)"

definition process_delete :: "platform \<Rightarrow> nsupdate \<Rightarrow> string \<Rightarrow> string \<Rightarrow> string \<Rightarrow> bool \<Rightarrow> (files, string, unit) op" where
  "process_delete pf n hostname zone recordType wildcard =
     run_script pf n (buildDeleteScript (ns_Server n) hostname zone recordType wildcard)"

section \<open>Outcome and files\<close>

text \<open>The file of a script is new, and what was created can be removed.\<close>

definition clean_platform :: "platform \<Rightarrow> bool" where
  "clean_platform pf \<longleftrightarrow> (\<forall>fs name. pf_CreateTemp pf fs = Inr name \<longrightarrow> fs name = None \<and> pf_Remove pf name)"

lemma Remove_new: "clean_platform pf \<Longrightarrow> pf_CreateTemp pf fs = Inr name \<Longrightarrow> Remove pf name (fs(name \<mapsto> s)) = fs"
  by (auto simp: clean_platform_def Remove_def fun_upd_idem)

lemma run_script_files: "clean_platform pf \<Longrightarrow> snd (run_script pf n script fs) = fs"
  by (auto simp: run_script_def Remove_new Let_def split: sum.split option.split prod.split)

lemma run_script_succeeds:
  "fst (run_script pf n script fs) = Inr () \<longleftrightarrow>
     (\<exists>name stdout stderr. pf_CreateTemp pf fs = Inr name \<and> pf_WriteString pf name script = None \<and> pf_Close pf name = None \<and>
        pf_Run pf (ns_Binary n) (nsupdate_args n name) (fs(name \<mapsto> script)) = (None, stdout, stderr) \<and> TrimSpace stdout = [])"
  by (auto simp: run_script_def Let_def split: sum.splits option.splits prod.splits)

text \<open>
  The environment of the server whose nsupdate is a process. \<open>process_error\<close> is what \<open>run\<close>
  reports, and the DNS of the model sees nothing else of it.
\<close>

definition process_error :: "platform \<Rightarrow> nsupdate \<Rightarrow> files \<Rightarrow> string \<Rightarrow> string option" where
  "process_error pf n fs script = (case fst (run_script pf n script fs) of Inl e \<Rightarrow> Some e | Inr _ \<Rightarrow> None)"

definition with_process :: "(nat \<Rightarrow> platform) \<Rightarrow> nsupdate \<Rightarrow> files \<Rightarrow> env \<Rightarrow> env" where
  "with_process pf n fs env = env\<lparr>nsupdate_error := \<lambda>tick script. process_error (pf tick) n fs script\<rparr>"

lemma nsupdate_run_process:
  "nsupdate_run (with_process pf n fs env) script w =
     (case run_script (pf (w_ticks w)) n script fs of
        (Inl e, fs') \<Rightarrow> (Inl e, tick w)
      | (Inr u, fs') \<Rightarrow> (Inr u, (tick w)\<lparr>w_dns := w_dns w @ [script]\<rparr>))"
  by (simp add: nsupdate_run_def with_process_def process_error_def split: sum.split prod.split)

text \<open>C32. An update sent through the process leaves no file behind, whatever fails, and succeeds exactly when
  the script was written and closed completely and nsupdate, run on a file with exactly this
  script (and with the TSIG key, when there is one), ended without an error and printed nothing;
  exactly then the DNS of the server receives the script.\<close>

theorem process_sends_script:
  fixes pf :: "nat \<Rightarrow> platform" and n :: nsupdate and hostname zone recordType target :: string and ttl :: int and wildcard :: bool
    and w :: world and fs :: files
  assumes clean: "clean_platform (pf (w_ticks w))"
  defines "script \<equiv> buildUpsertScript (ns_Server n) hostname zone recordType target ttl wildcard"
    and "result \<equiv> process_upsert (pf (w_ticks w)) n hostname zone recordType target ttl wildcard fs"
  shows "snd result = fs \<and>
    (fst result = Inr () \<longleftrightarrow>
     (\<exists>name stdout stderr. pf_CreateTemp (pf (w_ticks w)) fs = Inr name \<and> pf_WriteString (pf (w_ticks w)) name script = None \<and>
        pf_Close (pf (w_ticks w)) name = None \<and>
        pf_Run (pf (w_ticks w)) (ns_Binary n) ((if ns_TSIGKeyFile n \<noteq> [] then [''-k'', ns_TSIGKeyFile n] else []) @ [name])
          (fs(name \<mapsto> script)) = (None, stdout, stderr) \<and> TrimSpace stdout = [])) \<and>
    w_dns (snd (Upsert (with_process pf n fs env) (ns_Server n) hostname zone recordType target ttl wildcard w)) =
      w_dns w @ (if fst result = Inr () then [script] else [])"
proof (intro conjI)
  have up: "result = run_script (pf (w_ticks w)) n script fs"
    by (simp add: result_def process_upsert_def script_def)
  show "snd result = fs" unfolding up by (rule run_script_files [OF clean])
  show "w_dns (snd (Upsert (with_process pf n fs env) (ns_Server n) hostname zone recordType target ttl wildcard w)) =
      w_dns w @ (if fst result = Inr () then [script] else [])"
    unfolding up Upsert_def script_def [symmetric] nsupdate_run_process by (simp split: prod.split sum.split)
qed (simp only: result_def script_def process_upsert_def run_script_succeeds nsupdate_args_def)

definition demo_platform :: platform where
  "demo_platform = \<lparr>pf_CreateTemp = \<lambda>fs. if fs ''/tmp/hermes-nsupdate-1.txt'' = None then Inr ''/tmp/hermes-nsupdate-1.txt'' else Inl ''file exists'',
     pf_WriteString = \<lambda>_ _. None, pf_Close = \<lambda>_. None, pf_Remove = \<lambda>_. True,
     pf_Run = \<lambda>binary args fs. if args = [''-k'', ''/etc/tsig.key'', ''/tmp/hermes-nsupdate-1.txt''] then (None, [], []) else (Some ''exit status 2'', [], ''usage'')\<rparr>"

definition demo_nsupdate :: nsupdate where
  "demo_nsupdate = \<lparr>ns_Binary = ''/usr/bin/nsupdate'', ns_Server = ''127.0.0.1'', ns_TSIGKeyFile = ''/etc/tsig.key''\<rparr>"

theorem process_sends_script_witness:
  "process_upsert demo_platform demo_nsupdate ''nas'' ''example.org'' ''A'' ''192.0.2.1'' 300 False Map.empty = (Inr (), Map.empty) \<and>
   fst (process_upsert demo_platform (demo_nsupdate\<lparr>ns_TSIGKeyFile := []\<rparr>) ''nas'' ''example.org'' ''A'' ''192.0.2.1'' 300 False Map.empty) \<noteq> Inr ()"
proof -
  have clean: "clean_platform demo_platform" by (auto simp: clean_platform_def demo_platform_def split: if_splits)
  note sends = process_sends_script [where pf = "\<lambda>_. demo_platform" and w = demo_base and fs = Map.empty and hostname = "''nas''" and
      zone = "''example.org''" and recordType = "''A''" and target = "''192.0.2.1''" and ttl = 300 and wildcard = False, OF clean]
  have "TrimSpace [] = []" by code_simp
  then have "fst (process_upsert demo_platform demo_nsupdate ''nas'' ''example.org'' ''A'' ''192.0.2.1'' 300 False Map.empty) = Inr ()"
    using sends [of demo_nsupdate] by (simp add: demo_platform_def demo_nsupdate_def)
  moreover have "fst (process_upsert demo_platform (demo_nsupdate\<lparr>ns_TSIGKeyFile := []\<rparr>) ''nas'' ''example.org'' ''A'' ''192.0.2.1'' 300 False Map.empty) \<noteq> Inr ()"
    using sends [of "demo_nsupdate\<lparr>ns_TSIGKeyFile := []\<rparr>"] by (simp add: demo_platform_def demo_nsupdate_def)
  ultimately show ?thesis using sends [of demo_nsupdate] by (simp add: prod_eq_iff)
qed

end
