(* ===== verification/Hermes_Main.thy ===== *)
theory Hermes_Main
  imports Hermes_Cycle Hermes_NSUpdate
begin

text \<open>
  The two commands: \<open>cmd/hermesddns/main.go\<close> with \<open>database.Open\<close> and \<open>api.New\<close>, and
  \<open>cmd/hermesctl/main.go\<close>; and the start of the legacy server (\<open>main\<close> and \<open>InitDB\<close>). gorm and the
  file system are parameters: the error of creating a directory, the error or the contents of
  opening a database file, the error or the result of \<open>AutoMigrate\<close>. What the servers do once
  they listen is \<open>server_step\<close> and \<open>legacy_serve\<close>.
\<close>

section \<open>Paths\<close>

text \<open>\<open>filepath.Clean\<close> and \<open>filepath.Dir\<close> of a Unix system; the stack of \<open>clean_step\<close> is in reverse order.\<close>

fun clean_step :: "bool \<Rightarrow> string \<Rightarrow> string list \<Rightarrow> string list" where
  "clean_step rooted part stack =
     (if part = [] \<or> part = ''.'' then stack
      else if part = ''..'' then
        (case stack of
           [] \<Rightarrow> if rooted then [] else [''..'']
         | t # ts \<Rightarrow> if t = ''..'' then ''..'' # stack else ts)
      else part # stack)"

fun Join :: "string \<Rightarrow> string list \<Rightarrow> string" where
  "Join sep [] = []"
| "Join sep [s] = s"
| "Join sep (s # t # ts) = s @ sep @ Join sep (t # ts)"

definition Clean :: "string \<Rightarrow> string" where
  "Clean path =
     (let rooted = HasPrefix path ''/'';
          stack = fold (clean_step rooted) (Split CHR ''/'' path) [];
          result = (if rooted then ''/'' else []) @ Join ''/'' (rev stack)
      in if result = [] then ''.'' else result)"

definition Dir :: "string \<Rightarrow> string" where
  "Dir path = Clean (rev (dropWhile (\<lambda>c. c \<noteq> CHR ''/'') (rev path)))"

lemma Dir_examples:
  "Dir ''data/hermes.db'' = ''data''" "Dir ''hermes.db'' = ''.''" "Dir ''/hermes.db'' = ''/''" "Dir ''/var/lib//hermes/./../x.db'' = ''/var/lib''"
  by code_simp+

section \<open>The server of HermesDDNS\<close>

record 'd storage =
  st_MkdirAll :: "string \<Rightarrow> string option"
  st_Open :: "string \<Rightarrow> string + 'd"
  st_AutoMigrate :: "'d \<Rightarrow> string + 'd"

definition open_database :: "database storage \<Rightarrow> string \<Rightarrow> string + database" where
  "open_database st path =
     (case st_MkdirAll st (Dir path) of
        Some e \<Rightarrow> Inl (''create database directory: '' @ e)
      | None \<Rightarrow>
          (case st_Open st path of
             Inl e \<Rightarrow> Inl (''open sqlite database: '' @ e)
           | Inr db \<Rightarrow>
               (case st_AutoMigrate st db of
                  Inl e \<Rightarrow> Inl (''migrate database: '' @ e)
                | Inr db' \<Rightarrow> Inr db')))"

definition updater_of :: "hermes_config \<Rightarrow> nsupdate" where
  "updater_of cfg =
     \<lparr>ns_Binary = cf_NSUpdateBinary cfg, ns_Server = cf_DNSServer cfg, ns_TSIGKeyFile = cf_TSIGKeyFile cfg\<rparr>"

definition new_server :: "validator \<Rightarrow> (string \<Rightarrow> string \<Rightarrow> string \<Rightarrow> bool option) \<Rightarrow> hermes_config \<Rightarrow> ddns_service \<Rightarrow> server" where
  "new_server v htpasswd cfg ddns = \<lparr>srv_Config = cfg, srv_DDNS = ddns, srv_Validator = v, srv_Htpasswd = htpasswd\<rparr>"

text \<open>What \<open>log.Fatal\<close> is called with, or the server, the updater and the address it listens on.\<close>

datatype main_result =
    FatalConfig config_err
  | FatalDatabase string
  | FatalDomains err
  | Listening server nsupdate string

definition hermes_main ::
  "env \<Rightarrow> database storage \<Rightarrow> validator \<Rightarrow> (string \<Rightarrow> string \<Rightarrow> string \<Rightarrow> bool option) \<Rightarrow> getenv \<Rightarrow> world \<Rightarrow> main_result \<times> world" where
  "hermes_main env st v htpasswd getenv w =
     (case Load getenv of
        (cfg, Some e) \<Rightarrow> (FatalConfig e, w)
      | (cfg, None) \<Rightarrow>
          (case open_database st (cf_DatabasePath cfg) of
             Inl e \<Rightarrow> (FatalDatabase e, w)
           | Inr db \<Rightarrow>
               (case EnsureDomains env (cf_AllowedDomains cfg) (cf_DefaultTTL cfg) (cf_AllowWildcard cfg) (w\<lparr>w_db := db\<rparr>) of
                  (Inl e, w') \<Rightarrow> (FatalDomains e, w')
                | (Inr _, w') \<Rightarrow>
                    (Listening (new_server v htpasswd cfg (service_of cfg)) (updater_of cfg) (cf_ListenAddress cfg), w'))))"

text \<open>The lines \<open>main\<close> logs for the reports of the reconciler.\<close>

datatype log_line = ReconciliationFailed err | ReconciliationCompleted nat

definition reconcile_log :: "nat \<times> err option \<Rightarrow> log_line" where
  "reconcile_log report = (case report of (completed, Some e) \<Rightarrow> ReconciliationFailed e | (completed, None) \<Rightarrow> ReconciliationCompleted completed)"

definition background :: "env \<Rightarrow> nat \<Rightarrow> world \<Rightarrow> log_line list \<times> world" where
  "background env fired w = (case RunReconciler env fired w of (reports, w') \<Rightarrow> (map reconcile_log reports, w'))"

text \<open>Every line is about a run that failed or completed something.\<close>

lemma background_lines: "ReconciliationCompleted 0 \<notin> set (fst (background env fired w))"
proof -
  have "\<forall>r \<in> set (fst (reconciler_ticks env n w)). reported r" for n w
    by (induction n arbitrary: w) (auto split: prod.split if_splits, (metis fst_conv)+)
  from this [of "Suc fired" w] show ?thesis
    by (cases "reconciler_ticks env (Suc fired) w")
      (force simp: background_def RunReconciler_def reconcile_log_def reported_def simp del: reconciler_ticks.simps split: option.splits)
qed

text \<open>With a database that could be opened, \<open>main\<close> is the \<open>startup\<close> of the model on that database.\<close>

lemma main_is_startup:
  assumes "Load getenv = (cfg, None)" "open_database st (cf_DatabasePath cfg) = Inr db"
  shows "hermes_main env st v htpasswd getenv w =
    (case startup env getenv (w\<lparr>w_db := db\<rparr>) of
       (Inl (Inl e), w') \<Rightarrow> (FatalConfig e, w') | (Inl (Inr e), w') \<Rightarrow> (FatalDomains e, w')
     | (Inr (cfg, sv), w') \<Rightarrow> (Listening (new_server v htpasswd cfg sv) (updater_of cfg) (cf_ListenAddress cfg), w'))"
  using assms by (simp add: hermes_main_def startup_def split: prod.split sum.split)

text \<open>
  \<open>AutoMigrate\<close> adds tables, columns and indexes that are missing and leaves the stored rows as they are.
\<close>

definition migration_keeps_rows :: "'d storage \<Rightarrow> bool" where
  "migration_keeps_rows st \<longleftrightarrow> (\<forall>d d'. st_AutoMigrate st d = Inr d' \<longrightarrow> d' = d)"

lemma open_database_stored:
  assumes "migration_keeps_rows st" "open_database st path = Inr db"
  shows "st_Open st path = Inr db \<and> st_MkdirAll st (Dir path) = None"
  using assms by (auto simp: open_database_def migration_keeps_rows_def split: option.splits sum.splits)

text \<open>C34. The process of the server stops with the first of its errors or listens. It stops before the database
  is touched when the configuration is refused or the file cannot be opened; once it listens, on a
  database whose contents were consistent, its configuration is well-formed, the DDNS service and
  nsupdate address the same DNS server, every managed zone has a row, and whatever requests come
  and however often it reconciles or restarts, the invariants of all components hold.\<close>

theorem main_serves_or_stops:
  assumes migration: "migration_keeps_rows st" and stored: "\<And>db. st_Open st path = Inr db \<Longrightarrow> server_ok db"
    and path: "cf_DatabasePath (fst (Load getenv)) = path"
    and run: "hermes_main env st v htpasswd getenv w = (r, w')"
  shows "case r of
      FatalConfig e \<Rightarrow> snd (Load getenv) = Some e \<and> w' = w
    | FatalDatabase e \<Rightarrow> snd (Load getenv) = None \<and> open_database st path = Inl e \<and> w' = w
    | FatalDomains e \<Rightarrow> snd (Load getenv) = None \<and> server_ok (w_db w')
    | Listening srv upd address \<Rightarrow>
        config_ok (srv_Config srv) \<and> srv_DDNS srv = service_of (srv_Config srv) \<and> ns_Server upd = sv_Server (srv_DDNS srv) \<and>
        address = cf_ListenAddress (srv_Config srv) \<and>
        (\<forall>z \<in> set (cf_AllowedDomains (srv_Config srv)). \<exists>d \<in> set (tbl_rows (domains (w_db w'))). dom_Name d = z) \<and>
        (\<forall>w''. (server_step env)\<^sup>*\<^sup>* w' w'' \<longrightarrow> server_ok (w_db w''))"
proof (cases "snd (Load getenv)")
  case (Some e)
  with run show ?thesis by (cases "Load getenv") (auto simp: hermes_main_def)
next
  case None
  then obtain cfg where load: "Load getenv = (cfg, None)" by (cases "Load getenv") simp
  with path have p: "cf_DatabasePath cfg = path" by simp
  show ?thesis
  proof (cases "open_database st path")
    case (Inl e)
    with run load p show ?thesis by (auto simp: hermes_main_def)
  next
    case (Inr db)
    then have ok: "server_ok (w_db (w\<lparr>w_db := db\<rparr>))"
      using open_database_stored [OF migration] stored by auto
    obtain x v' where seed: "EnsureDomains env (cf_AllowedDomains cfg) (cf_DefaultTTL cfg) (cf_AllowWildcard cfg) (w\<lparr>w_db := db\<rparr>) = (x, v')"
      by fastforce
    from preservesD [OF server_invariant.EnsureDomains_preserves seed ok] have ok': "server_ok (w_db v')" .
    have steps: "(server_step env)\<^sup>*\<^sup>* v' w'' \<longrightarrow> server_ok (w_db w'')" for w''
      using server_system.inv_steps [of env v' w''] ok' by blast
    have "domains_ok (w_db (w\<lparr>w_db := db\<rparr>))" using ok by (simp add: server_ok_def)
    with EnsureDomains_seeds [OF seed] have seeded: "x = Inr () \<Longrightarrow>
        \<forall>z \<in> set (cf_AllowedDomains cfg). \<exists>d \<in> set (tbl_rows (domains (w_db v'))). dom_Name d = z" by blast
    show ?thesis
      using run load p Inr seed ok' steps seeded Load_config_ok [OF load]
      by (cases x) (auto simp: hermes_main_def new_server_def updater_of_def service_of_def)
  qed
qed

definition demo_storage :: "database storage" where
  "demo_storage = \<lparr>st_MkdirAll = \<lambda>dir. if dir = ''data'' then None else Some ''permission denied'',
     st_Open = \<lambda>path. Inr empty_database, st_AutoMigrate = Inr\<rparr>"

theorem main_serves_or_stops_witness:
  "\<exists>srv upd address w'. hermes_main demo_env demo_storage (srv_Validator demo_server) (srv_Htpasswd demo_server) demo_getenv initial_world
       = (Listening srv upd address, w') \<and> ns_Server upd = sv_Server (srv_DDNS srv) \<and> address = '':8080'' \<and>
     server_ok (w_db (snd (serve demo_env srv (demo_request None []) Health w')))"
proof -
  let ?w = "initial_world\<lparr>w_db := empty_database\<rparr>"
  have path: "cf_DatabasePath (fst (Load demo_getenv)) = ''data/hermes.db''" "cf_ListenAddress demo_config = '':8080''"
    unfolding demo_config_def by code_simp+
  have db: "open_database demo_storage ''data/hermes.db'' = Inr empty_database"
    by (simp add: open_database_def demo_storage_def Dir_examples)
  have "\<exists>w'. EnsureDomains demo_env (cf_AllowedDomains demo_config) ttl wild ?w = (Inr (), w')" for ttl wild
    unfolding demo_load
    by (simp add: empty_database_def run_simps demo_no_faults Let_def) (simp add: empty_table_def run_simps demo_no_faults Let_def)
  then obtain w' where seed: "EnsureDomains demo_env (cf_AllowedDomains demo_config) (cf_DefaultTTL demo_config)
      (cf_AllowWildcard demo_config) ?w = (Inr (), w')" by blast
  let ?srv = "new_server (srv_Validator demo_server) (srv_Htpasswd demo_server) demo_config (service_of demo_config)"
  have run: "hermes_main demo_env demo_storage (srv_Validator demo_server) (srv_Htpasswd demo_server) demo_getenv initial_world =
      (Listening ?srv (updater_of demo_config) '':8080'', w')"
    using path db seed by (simp add: hermes_main_def demo_load)
  have "migration_keeps_rows demo_storage" "\<And>db. st_Open demo_storage ''data/hermes.db'' = Inr db \<Longrightarrow> server_ok db"
    by (simp_all add: migration_keeps_rows_def demo_storage_def server_ok_empty)
  from main_serves_or_stops [OF this path(1) run]
  have served: "ns_Server (updater_of demo_config) = sv_Server (srv_DDNS ?srv)"
    "\<And>w''. (server_step demo_env)\<^sup>*\<^sup>* w' w'' \<Longrightarrow> server_ok (w_db w'')" by simp_all
  obtain rp w'' where "serve demo_env ?srv (demo_request None []) Health w' = (rp, w'')" by fastforce
  then have "server_ok (w_db (snd (serve demo_env ?srv (demo_request None []) Health w')))"
    using served(2) [of w''] by (auto intro: server_step.request)
  with run served(1) show ?thesis by blast
qed

section \<open>hermesctl\<close>

text \<open>
  The result of a run: what is printed, and the exit status. The reply of the HTTP request is a
  parameter, an error or the status code and the body; \<open>indented\<close> is the text that \<open>encoding/json\<close>
  makes of a body that it decodes and indents.
\<close>

record ctl_result =
  ctl_Stdout :: string
  ctl_Stderr :: string
  ctl_Exit :: nat

definition usage :: string where
  "usage = ''Usage: hermesctl <version|status>'' @ [nl]"

definition ctl_envOr :: "getenv \<Rightarrow> string \<Rightarrow> string \<Rightarrow> string" where
  "ctl_envOr getenv k fallback = (if getenv k \<noteq> [] then getenv k else fallback)"

definition TrimRight :: "string \<Rightarrow> string \<Rightarrow> string" where
  "TrimRight s cutset = rev (dropWhile (\<lambda>c. c \<in> set cutset) (rev s))"

definition ctl_base :: "getenv \<Rightarrow> string" where
  "ctl_base getenv = TrimRight (ctl_envOr getenv ''HERMES_URL'' ''http://127.0.0.1:8080'') ''/''"

definition hermesctl ::
  "(string \<Rightarrow> string + nat \<times> string) \<Rightarrow> (string \<Rightarrow> string) \<Rightarrow> getenv \<Rightarrow> string list \<Rightarrow> ctl_result" where
  "hermesctl get indented getenv args =
     (if length args < 2 then \<lparr>ctl_Stdout = usage, ctl_Stderr = [], ctl_Exit = 2\<rparr>
      else if args ! 1 = ''version'' then
        \<lparr>ctl_Stdout = ''HermesDDNS '' @ bi_Version build_current @ [nl] @ ''Commit: '' @ bi_Commit build_current @ [nl] @
           ''Build: '' @ bi_BuildTime build_current @ [nl], ctl_Stderr = [], ctl_Exit = 0\<rparr>
      else if args ! 1 = ''status'' then
        (case get (ctl_base getenv @ ''/health'') of
           Inl e \<Rightarrow> \<lparr>ctl_Stdout = [], ctl_Stderr = ''HermesDDNS status: ERROR: '' @ e @ [nl], ctl_Exit = 1\<rparr>
         | Inr (code, body) \<Rightarrow>
             \<lparr>ctl_Stdout = ''HermesDDNS status: HTTP '' @ dec_string code @ [nl] @ indented body @ [nl], ctl_Stderr = [],
              ctl_Exit = (if code \<noteq> 200 then 1 else 0)\<rparr>)
      else \<lparr>ctl_Stdout = usage, ctl_Stderr = ''unknown command: '' @ args ! 1 @ [nl], ctl_Exit = 2\<rparr>)"

text \<open>The server of the model as what answers at an address: \<open>/health\<close> below it is the endpoint \<open>Health\<close>.\<close>

definition answers_at :: "string \<Rightarrow> (payload \<Rightarrow> string) \<Rightarrow> env \<Rightarrow> server \<Rightarrow> http_request \<Rightarrow> world \<Rightarrow> string \<Rightarrow> string + nat \<times> string" where
  "answers_at base json env srv rq w url =
     (if url = base @ ''/health''
      then (case fst (serve env srv rq Health w) of rp \<Rightarrow> Inr (rp_Status rp, json (rp_Body rp)))
      else Inl ''connection refused'')"

lemma dropWhile_replicate: "dropWhile (\<lambda>c. c = x) (replicate n x @ xs) = dropWhile (\<lambda>c. c = x) xs"
  by (induction n) simp_all

text \<open>C35. The exit status of \<open>hermesctl status\<close> says whether the server is in order: 0 exactly when a server
  answers at the configured address (slashes at its end do not matter) and reaches its database,
  and 1 otherwise; it is 2 exactly for a missing or unknown command.\<close>

theorem hermesctl_exit_status:
  fixes base :: string and json :: "payload \<Rightarrow> string" and slashes :: nat and env :: env and srv :: server
    and rq :: http_request and w :: world and indented :: "string \<Rightarrow> string"
  assumes url: "getenv ''HERMES_URL'' = address @ replicate slashes CHR ''/''" "address \<noteq> []" "List.last address \<noteq> CHR ''/''"
  defines "run \<equiv> \<lambda>args. ctl_Exit (hermesctl (answers_at base json env srv rq w) indented getenv args)"
  shows "run [prog, ''status''] = (if address = base \<and> \<not> stmt_fault env (w_ticks w) then 0 else 1) \<and>
    (run args = 2 \<longleftrightarrow> length args < 2 \<or> args ! 1 \<notin> {''version'', ''status''})"
proof -
  have "ctl_base getenv = address"
    using url by (cases address rule: rev_cases) (auto simp: ctl_base_def ctl_envOr_def TrimRight_def dropWhile_replicate)
  then show ?thesis
    by (auto simp: run_def hermesctl_def answers_at_def serve_def health_def call_def stmt_def answer_def reply_of_def Let_def
        split: prod.split sum.split)
qed

theorem hermesctl_exit_status_witness:
  "ctl_Exit (hermesctl (answers_at ''http://ddns:8080'' (\<lambda>_. ''{}'') demo_env demo_server (demo_request None []) demo_base) (\<lambda>s. s)
     (\<lambda>_. ''http://ddns:8080//'') [''hermesctl'', ''status'']) = 0"
proof -
  have url: "(\<lambda>_. ''http://ddns:8080//'') ''HERMES_URL'' = ''http://ddns:8080'' @ replicate 2 CHR ''/''" "''http://ddns:8080'' \<noteq> []"
    "List.last ''http://ddns:8080'' \<noteq> CHR ''/''"
    by (simp_all add: eval_nat_numeral)
  show ?thesis
    using hermesctl_exit_status [where getenv = "\<lambda>_. ''http://ddns:8080//''" and base = "''http://ddns:8080''" and prog = "''hermesctl''", OF url]
      no_faultsD [OF demo_no_faults] by simp
qed

end
