(* ===== verification/Hermes_Legacy.thy ===== *)
theory Hermes_Legacy
  imports Hermes_API
begin

text \<open>
  \<open>legacy/original-source/dyndns\<close>: the dynamic DNS server that HermesDDNS replaces. It is one
  process with a mutable \<open>Handler\<close>, a SQLite database of hosts, aliases (cnames) and logs, and the
  DNS server of the same machine.

  A handler of the source writes its reply itself (\<open>c.JSON\<close>, \<open>c.String\<close>, \<open>c.Render\<close>) and may write
  twice; a reply is the status of the first write with the bodies in order. The host columns \<open>CreatedAt\<close>
  and \<open>UpdatedAt\<close> are read by nothing and left out. Deleting an alias or the logs of a host marks the
  rows as deleted (\<open>gorm.Model\<close>), deleting a host removes it (\<open>Unscoped\<close>). The texts of errors that come
  from a library (a failed conversion, binding or validation, the database) are fixed words.
  The update route always finds the host its middleware has set, so the first test of \<open>UpdateIP\<close> has no branch.
\<close>

section \<open>The state\<close>

record legacy_host =
  lh_ID :: nat
  lh_Hostname :: string
  lh_Domain :: string
  lh_Ip :: string
  lh_Ttl :: int
  lh_LastUpdate :: time
  lh_UserName :: string
  lh_Password :: string

record legacy_cname =
  lc_ID :: nat
  lc_Deleted :: bool
  lc_Hostname :: string
  lc_TargetID :: nat
  lc_Ttl :: int

record legacy_log =
  ll_ID :: nat
  ll_CreatedAt :: time
  ll_Deleted :: bool
  ll_Status :: bool
  ll_Message :: string
  ll_HostID :: nat
  ll_SentIP :: string
  ll_CallerIP :: string
  ll_TimeStamp :: time
  ll_UserAgent :: string

record legacy_db =
  ld_hosts :: "legacy_host table"
  ld_cnames :: "legacy_cname table"
  ld_logs :: "legacy_log table"

text \<open>\<open>Handler\<close> with its \<open>Envs\<close>; the zero value of \<open>LastClearedLogs\<close> is \<open>None\<close>.\<close>

record legacy_handler =
  lg_AuthAdmin :: bool
  lg_AdminLogin :: string
  lg_Domains :: "string list"
  lg_Title :: string
  lg_DisableAdminAuth :: bool
  lg_LastClearedLogs :: "time option"
  lg_ClearInterval :: nat
  lg_AllowWildcard :: bool
  lg_LogoutUrl :: string

text \<open>\<open>lw_clearing\<close> counts the goroutines of \<open>ClearLogs\<close> that were started and have not run yet.\<close>

record legacy_world =
  lw_db :: legacy_db
  lw_handler :: legacy_handler
  lw_ticks :: nat
  lw_dns :: "string list"
  lw_clearing :: nat

text \<open>
  The environment: that of the main program, and the libraries the legacy server calls: the validator
  on the two bound structs, the htpasswd file, the calendar date of a point in time in the
  server's time zone, SQLite's comparison of a creation time with \<open>datetime('now', '-n day')\<close>, and
  the rows a raw SQL condition selects (\<open>None\<close>: a syntax error).
\<close>

record legacy_env =
  le_env :: env
  le_valid_host :: "legacy_host \<Rightarrow> bool"
  le_valid_cname :: "legacy_cname \<Rightarrow> legacy_host \<Rightarrow> bool"
  le_htpasswd :: "string \<Rightarrow> string \<Rightarrow> string \<Rightarrow> bool option"
  le_date :: "time \<Rightarrow> int \<times> int \<times> int"
  le_older :: "nat \<Rightarrow> time \<Rightarrow> time \<Rightarrow> bool"
  le_raw_sql :: "string \<Rightarrow> (legacy_host \<Rightarrow> bool) option"

datatype legacy_body =
    LError string
  | LDatabaseError
  | LNsupdateError string
  | LText string
  | LHost legacy_host
  | LCName legacy_cname legacy_host
  | LId int
  | LHostsPage string "legacy_host list"
  | LHostForm string "string list" "legacy_host option"
  | LCNamesPage string "(legacy_cname \<times> legacy_host option) list"
  | LCNameForm string "string list" "legacy_host list"
  | LLogsPage string "(legacy_log \<times> legacy_host option) list"
  | LRedirect string
  | LEmpty

record legacy_reply =
  lr_Status :: nat
  lr_Bodies :: "legacy_body list"

type_synonym 'a lop = "(legacy_world, legacy_body, 'a) op"
type_synonym legacy_handling = "(legacy_world, legacy_reply, legacy_reply) op"

definition legacy_reply_of :: "nat \<Rightarrow> legacy_body \<Rightarrow> legacy_reply" where
  "legacy_reply_of status body = \<lparr>lr_Status = status, lr_Bodies = [body]\<rparr>"

section \<open>Statements\<close>

definition ltick :: "legacy_world \<Rightarrow> legacy_world" where
  "ltick w = w\<lparr>lw_ticks := Suc (lw_ticks w)\<rparr>"

definition lfault :: "legacy_env \<Rightarrow> legacy_world \<Rightarrow> bool" where
  "lfault env w \<longleftrightarrow> stmt_fault (le_env env) (lw_ticks w)"

definition lnow :: "legacy_env \<Rightarrow> (legacy_world, 'e, time) op" where
  "lnow env = (\<lambda>w. (Inr (clock (le_env env) (lw_ticks w)), ltick w))"

definition lstmt :: "legacy_env \<Rightarrow> (legacy_db \<Rightarrow> (legacy_body + 'a) \<times> legacy_db) \<Rightarrow> 'a lop" where
  "lstmt env act = (\<lambda>w.
     if lfault env w then (Inl LDatabaseError, ltick w)
     else (case act (lw_db w) of (r, d) \<Rightarrow> (r, (ltick w)\<lparr>lw_db := d\<rparr>)))"

definition lread :: "legacy_env \<Rightarrow> (legacy_db \<Rightarrow> 'a) \<Rightarrow> 'a lop" where
  "lread env f = lstmt env (\<lambda>d. (Inr (f d), d))"

text \<open>\<open>First\<close> returns an error when no row matches.\<close>

definition lfirst_host :: "legacy_env \<Rightarrow> (legacy_host \<Rightarrow> bool) \<Rightarrow> legacy_host lop" where
  "lfirst_host env P = lstmt env (\<lambda>d.
     (case find P (tbl_rows (ld_hosts d)) of None \<Rightarrow> Inl LDatabaseError | Some h \<Rightarrow> Inr h, d))"

text \<open>\<open>Where(&Struct{...})\<close> compares the fields that are not zero.\<close>

definition where_nonzero :: "string \<Rightarrow> string \<Rightarrow> bool" where
  "where_nonzero v column \<longleftrightarrow> v = [] \<or> column = v"

text \<open>
  \<open>Create(host)\<close> and \<open>Save(host)\<close>: the user name is the only unique column. (The tag \<open>unique_index\<close>
  of \<open>Hostname\<close> and \<open>Domain\<close> is gorm v1's and means nothing to gorm v2.) \<open>Save\<close> writes all columns of
  the row with the key of the host, and inserts it when there is none.
\<close>

definition lcreate_host :: "legacy_env \<Rightarrow> legacy_host \<Rightarrow> legacy_host lop" where
  "lcreate_host env h = lstmt env (\<lambda>d.
     (let row = h\<lparr>lh_ID := Suc (tbl_seq (ld_hosts d))\<rparr> in
      if list_ex (\<lambda>x. lh_UserName x = lh_UserName h) (tbl_rows (ld_hosts d)) then (Inl LDatabaseError, d)
      else (Inr row, ld_hosts_update (ins_row row) d)))"

definition lsave_host :: "legacy_env \<Rightarrow> legacy_host \<Rightarrow> unit lop" where
  "lsave_host env h = lstmt env (\<lambda>d.
     if list_ex (\<lambda>x. lh_UserName x = lh_UserName h \<and> lh_ID x \<noteq> lh_ID h) (tbl_rows (ld_hosts d))
     then (Inl LDatabaseError, d)
     else (Inr (), ld_hosts_update (\<lambda>t.
       if list_ex (\<lambda>x. lh_ID x = lh_ID h) (tbl_rows t) then upd_rows (\<lambda>x. lh_ID x = lh_ID h) (\<lambda>_. h) t
       else t\<lparr>tbl_rows := tbl_rows t @ [h], tbl_seq := max (tbl_seq t) (lh_ID h)\<rparr>) d))"

definition target_of :: "legacy_db \<Rightarrow> nat \<Rightarrow> legacy_host option" where
  "target_of d i = find (\<lambda>h. lh_ID h = i) (tbl_rows (ld_hosts d))"

text \<open>An error of a statement is the reply 400 of the handler.\<close>

definition or400 :: "'a lop \<Rightarrow> (legacy_world, legacy_reply, 'a) op" where
  "or400 m = (\<lambda>w. case m w of
     (Inl e, w') \<Rightarrow> (Inl (legacy_reply_of 400 e), w') | (Inr x, w') \<Rightarrow> (Inr x, w'))"

definition bad_request :: "string \<Rightarrow> (legacy_world, legacy_reply, 'a) op" where
  "bad_request msg = raise (legacy_reply_of 400 (LError msg))"

definition finish :: "legacy_handling \<Rightarrow> legacy_world \<Rightarrow> legacy_reply \<times> legacy_world" where
  "finish m w = (case m w of (Inl r, w') \<Rightarrow> (r, w') | (Inr r, w') \<Rightarrow> (r, w'))"

section \<open>nswrapper and ipparser\<close>

definition ValidIP4 :: "string \<Rightarrow> bool" where
  "ValidIP4 ipAddress = (case ParseIP ipAddress of Some (V4 _) \<Rightarrow> True | _ \<Rightarrow> False)"

definition ValidIP6 :: "string \<Rightarrow> bool" where
  "ValidIP6 ip6Address = (ParseIP ip6Address \<noteq> None)"

definition GetIPType :: "string \<Rightarrow> string" where
  "GetIPType ipAddr = (if ValidIP4 ipAddr then ''A'' else if ValidIP6 ipAddr then ''AAAA'' else [])"

text \<open>\<open>inRange\<close> compares the bytes of two addresses; for IPv4 that is the order of the numbers.\<close>

definition inRange :: "32 word \<times> 32 word \<Rightarrow> 32 word \<Rightarrow> bool" where
  "inRange r ipAddress \<longleftrightarrow> ipAddress \<ge> fst r \<and> ipAddress < snd r"

definition privateRanges :: "(32 word \<times> 32 word) list" where
  "privateRanges =
     [(v4_of 10 0 0 0, v4_of 10 255 255 255), (v4_of 100 64 0 0, v4_of 100 127 255 255),
      (v4_of 172 16 0 0, v4_of 172 31 255 255), (v4_of 192 0 0 0, v4_of 192 0 0 255),
      (v4_of 192 168 0 0, v4_of 192 168 255 255), (v4_of 198 18 0 0, v4_of 198 19 255 255)]"

definition isPrivateSubnet :: "ip_addr \<Rightarrow> bool" where
  "isPrivateSubnet ipAddress =
     (case ipAddress of V4 a \<Rightarrow> list_ex (\<lambda>r. inRange r a) privateRanges | V6 _ _ \<Rightarrow> False)"

text \<open>\<open>net.IP.IsGlobalUnicast\<close>.\<close>

definition IsGlobalUnicast :: "ip_addr \<Rightarrow> bool" where
  "IsGlobalUnicast a =
     (case a of
        V4 x \<Rightarrow> \<not> (x = v4_of 255 255 255 255 \<or> IsUnspecified x \<or> IsLoopback x \<or> IsMulticast x \<or> IsLinkLocalUnicast x)
      | V6 g _ \<Rightarrow> \<not> (g = replicate 8 0 \<or> g = replicate 7 0 @ [1] \<or> unat (hd g) div 256 = 255 \<or>
                       unat (hd g) div 64 = 1018))"

definition usable_address :: "string \<Rightarrow> bool" where
  "usable_address entry =
     (case ParseIP entry of None \<Rightarrow> False | Some realIP \<Rightarrow> IsGlobalUnicast realIP \<and> \<not> isPrivateSubnet realIP)"

definition GetCallerIP :: "http_request \<Rightarrow> string option" where
  "GetCallerIP rq =
     find usable_address (concat (map (\<lambda>h. map TrimSpace (rev (Split CHR '','' h))) [rq_XRealIP rq, rq_XForwardedFor rq]))"

definition ShrinkUserAgent :: "string \<Rightarrow> string" where
  "ShrinkUserAgent agent = hd (Split CHR '' '' agent)"

text \<open>The scripts of \<open>UpdateRecord\<close> and \<open>DeleteRecord\<close>, and their run.\<close>

definition legacy_update_script :: "string \<Rightarrow> string \<Rightarrow> string \<Rightarrow> string \<Rightarrow> int \<Rightarrow> bool \<Rightarrow> string" where
  "legacy_update_script hostname target addrType zone ttl enableWildcard =
     ''server localhost'' @ [nl] @
     ''zone '' @ zone @ [nl] @
     ''update delete '' @ hostname @ ''.'' @ zone @ '' '' @ addrType @ [nl] @
     (if enableWildcard then ''update delete *.'' @ hostname @ ''.'' @ zone @ '' '' @ addrType @ [nl] else []) @
     ''update add '' @ hostname @ ''.'' @ zone @ '' '' @ int_string ttl @ '' '' @ addrType @ '' '' @ target @ [nl] @
     (if enableWildcard then
        ''update add *.'' @ hostname @ ''.'' @ zone @ '' '' @ int_string ttl @ '' '' @ addrType @ '' '' @ target @ [nl]
      else []) @
     ''send'' @ [nl]"

definition legacy_delete_script :: "string \<Rightarrow> string \<Rightarrow> bool \<Rightarrow> string" where
  "legacy_delete_script hostname zone enableWildcard =
     ''server localhost'' @ [nl] @
     ''zone '' @ zone @ [nl] @
     ''update delete '' @ hostname @ ''.'' @ zone @ [nl] @
     (if enableWildcard then ''update delete *.'' @ hostname @ ''.'' @ zone @ [nl] else []) @
     ''send'' @ [nl]"

definition legacy_nsupdate :: "legacy_env \<Rightarrow> string \<Rightarrow> unit lop" where
  "legacy_nsupdate env script = (\<lambda>w.
     (case nsupdate_error (le_env env) (lw_ticks w) script of
        Some msg \<Rightarrow> (Inl (LNsupdateError msg), ltick w)
      | None \<Rightarrow> (Inr (), (ltick w)\<lparr>lw_dns := lw_dns w @ [script]\<rparr>)))"

definition UpdateRecord :: "legacy_env \<Rightarrow> string \<Rightarrow> string \<Rightarrow> string \<Rightarrow> string \<Rightarrow> int \<Rightarrow> bool \<Rightarrow> unit lop" where
  "UpdateRecord env hostname target addrType zone ttl enableWildcard =
     legacy_nsupdate env (legacy_update_script hostname target addrType zone ttl enableWildcard)"

definition LegacyDeleteRecord :: "legacy_env \<Rightarrow> string \<Rightarrow> string \<Rightarrow> bool \<Rightarrow> unit lop" where
  "LegacyDeleteRecord env hostname zone enableWildcard =
     legacy_nsupdate env (legacy_delete_script hostname zone enableWildcard)"

section \<open>handler.go: configuration and authentication\<close>

text \<open>\<open>strconv.ParseUint(s, 10, 32)\<close>; \<open>os.LookupEnv\<close> is \<open>lookup\<close>, \<open>os.Getenv\<close> is empty for an unset variable.\<close>

definition ParseUint32 :: "string \<Rightarrow> nat option" where
  "ParseUint32 s = (case ParseUint64 s of None \<Rightarrow> None | Some n \<Rightarrow> if n < 2 ^ 32 then Some n else None)"

definition Getenv :: "(string \<Rightarrow> string option) \<Rightarrow> string \<Rightarrow> string" where
  "Getenv lookup key = (case lookup key of None \<Rightarrow> [] | Some v \<Rightarrow> v)"

definition ParseEnvs :: "legacy_env \<Rightarrow> (string \<Rightarrow> string option) \<Rightarrow> legacy_handler \<Rightarrow> legacy_world \<Rightarrow> (string + bool) \<times> legacy_world" where
  "ParseEnvs env lookup h0 w =
     (let adminLogin = Getenv lookup ''DDNS_ADMIN_LOGIN'';
          adminAuth = (adminLogin \<noteq> []);
          h1 = h0\<lparr>lg_AdminLogin := adminLogin, lg_Domains := [],
                 lg_AuthAdmin := (if adminAuth then lg_AuthAdmin h0 else True),
                 lg_DisableAdminAuth := (if adminAuth then lg_DisableAdminAuth h0 else True)\<rparr>;
          h2 = h1\<lparr>lg_Title := (case lookup ''DDNS_TITLE'' of None \<Rightarrow> ''TheBBCloud DynDNS'' | Some t \<Rightarrow> t)\<rparr>;
          h3 = (case lookup ''DDNS_ALLOW_WILDCARD'' of None \<Rightarrow> h2
                | Some v \<Rightarrow> h2\<lparr>lg_AllowWildcard := (case ParseBool v of None \<Rightarrow> False | Some b \<Rightarrow> b)\<rparr>);
          h4 = (case lookup ''DDNS_LOGOUT_URL'' of None \<Rightarrow> h3
                | Some url \<Rightarrow> if length url > 0 then h3\<lparr>lg_LogoutUrl := url\<rparr> else h3);
          (h5, w5) = (case ParseUint32 (Getenv lookup ''DDNS_CLEAR_LOG_INTERVAL'') of None \<Rightarrow> (h4, w)
                | Some clearInterval \<Rightarrow>
                    if clearInterval > 0
                    then (h4\<lparr>lg_ClearInterval := clearInterval,
                            lg_LastClearedLogs := Some (clock (le_env env) (lw_ticks w))\<rparr>, ltick w)
                    else (h4\<lparr>lg_ClearInterval := clearInterval\<rparr>, w));
          h6 = h5\<lparr>lg_Domains := Split CHR '','' (Getenv lookup ''DDNS_DOMAINS'')\<rparr>
      in (if length (lg_Domains h6) < 1 then Inl ''environment variable DDNS_DOMAINS has to be set'' else Inr adminAuth,
          w5\<lparr>lw_handler := h6\<rparr>))"

definition DateEqual :: "legacy_env \<Rightarrow> time \<Rightarrow> time \<Rightarrow> bool" where
  "DateEqual env date1 date2 \<longleftrightarrow> le_date env date1 = le_date env date2"

text \<open>\<open>CheckClearInterval\<close> starts a goroutine, which runs later.\<close>

definition CheckClearInterval :: "legacy_env \<Rightarrow> legacy_world \<Rightarrow> legacy_world" where
  "CheckClearInterval env w =
     (case lg_LastClearedLogs (lw_handler w) of
        None \<Rightarrow> w
      | Some cleared \<Rightarrow>
          if \<not> DateEqual env (clock (le_env env) (lw_ticks w)) cleared
          then (ltick w)\<lparr>lw_clearing := Suc (lw_clearing w)\<rparr> else ltick w)"

definition ClearLogs :: "legacy_env \<Rightarrow> legacy_world \<Rightarrow> legacy_world" where
  "ClearLogs env w =
     (let now = clock (le_env env) (lw_ticks w);
          (_, w') = lstmt env (\<lambda>d. (Inr (), ld_logs_update
             (del_rows (\<lambda>l. le_older env (lg_ClearInterval (lw_handler w)) now (ll_CreatedAt l))) d)) w
      in (ltick w')\<lparr>lw_handler := (lw_handler w')\<lparr>lg_LastClearedLogs := Some (clock (le_env env) (lw_ticks w'))\<rparr>,
                    lw_clearing := lw_clearing w' - 1\<rparr>)"

definition matches_login :: "string \<Rightarrow> string \<Rightarrow> string \<Rightarrow> string \<Rightarrow> legacy_host \<Rightarrow> bool" where
  "matches_login username password hostname domain h \<longleftrightarrow>
     where_nonzero username (lh_UserName h) \<and> where_nonzero password (lh_Password h) \<and>
     where_nonzero hostname (lh_Hostname h) \<and> where_nonzero domain (lh_Domain h)"

definition AuthenticateUpdate :: "legacy_env \<Rightarrow> string \<Rightarrow> string \<Rightarrow> string \<Rightarrow> legacy_world \<Rightarrow> legacy_host option \<times> legacy_world" where
  "AuthenticateUpdate env username password reqParameter w =
     (case SplitN2 CHR ''.'' reqParameter of
        [hostname, domain] \<Rightarrow>
          (case lfirst_host env (matches_login username password hostname domain) (CheckClearInterval env w) of
             (Inl e, w') \<Rightarrow> (None, w')
           | (Inr host, w') \<Rightarrow> if lh_ID host = 0 then (None, w') else (Some host, w'))
      | _ \<Rightarrow> (None, CheckClearInterval env w))"

definition set_AuthAdmin :: "bool \<Rightarrow> legacy_world \<Rightarrow> legacy_world" where
  "set_AuthAdmin b w = w\<lparr>lw_handler := (lw_handler w)\<lparr>lg_AuthAdmin := b\<rparr>\<rparr>"

definition authByEnv :: "legacy_env \<Rightarrow> legacy_handler \<Rightarrow> string \<Rightarrow> string \<Rightarrow> bool option" where
  "authByEnv env h username password = le_htpasswd env (lg_AdminLogin h) username password"

definition AuthenticateAdmin :: "legacy_env \<Rightarrow> string \<Rightarrow> string \<Rightarrow> legacy_world \<Rightarrow> bool \<times> legacy_world" where
  "AuthenticateAdmin env username password w =
     (let w0 = set_AuthAdmin False w in
      case authByEnv env (lw_handler w0) username password of
        None \<Rightarrow> (False, w0)
      | Some ok \<Rightarrow> if ok then (True, set_AuthAdmin True w0) else (False, w0))"

definition UNAUTHORIZED :: string where
  "UNAUTHORIZED = ''You are not allowed to view that content''"

text \<open>The first lines of every administrative handler.\<close>

definition admin_only :: "(legacy_world, legacy_reply, 'a) op \<Rightarrow> (legacy_world, legacy_reply, 'a) op" where
  "admin_only m = (\<lambda>w. if \<not> lg_AuthAdmin (lw_handler w) then (Inl (legacy_reply_of 401 (LError UNAUTHORIZED)), w) else m w)"

definition with_handler :: "(legacy_handler \<Rightarrow> (legacy_world, 'e, 'a) op) \<Rightarrow> (legacy_world, 'e, 'a) op" where
  "with_handler f = (\<lambda>w. f (lw_handler w) w)"

definition reply_ok :: "legacy_body \<Rightarrow> legacy_handling" where
  "reply_ok body = ret (legacy_reply_of 200 body)"

definition id_param :: "string \<Rightarrow> (int \<Rightarrow> (legacy_world, legacy_reply, 'a) op) \<Rightarrow> (legacy_world, legacy_reply, 'a) op" where
  "id_param value k = (case Atoi value of None \<Rightarrow> bad_request ''invalid id'' | Some i \<Rightarrow> k i)"

section \<open>log.go\<close>

text \<open>A log entry refers to the host by its key; \<open>Create\<close> also inserts the host, unless it is there.\<close>

definition CreateLogEntry :: "legacy_env \<Rightarrow> legacy_log \<Rightarrow> unit lop" where
  "CreateLogEntry env entry = (\<lambda>w. lstmt env (\<lambda>d. (Inr (), ld_logs_update
     (\<lambda>t. ins_row (entry\<lparr>ll_ID := Suc (tbl_seq t), ll_CreatedAt := clock (le_env env) (lw_ticks w), ll_Deleted := False\<rparr>) t) d)) w)"

definition ShowLogs :: "legacy_env \<Rightarrow> legacy_handling" where
  "ShowLogs env = admin_only (with_handler (\<lambda>h.
     bindE (or400 (lread env (\<lambda>d. map (\<lambda>l. (l, target_of d (ll_HostID l)))
       (take 30 (newest_first ll_CreatedAt (filter (\<lambda>l. \<not> ll_Deleted l) (tbl_rows (ld_logs d)))))))) (\<lambda>logs.
     reply_ok (LLogsPage (lg_Title h) logs))))"

definition ShowHostLogs :: "legacy_env \<Rightarrow> string \<Rightarrow> legacy_handling" where
  "ShowHostLogs env idParam = admin_only (id_param idParam (\<lambda>i. with_handler (\<lambda>h.
     bindE (or400 (lread env (\<lambda>d. map (\<lambda>l. (l, target_of d (ll_HostID l)))
       (take 30 (newest_first ll_CreatedAt (filter (\<lambda>l. \<not> ll_Deleted l \<and> (i = 0 \<or> int (ll_HostID l) = i mod 2 ^ 64)) (tbl_rows (ld_logs d)))))))) (\<lambda>logs.
     reply_ok (LLogsPage (lg_Title h) logs)))))"

section \<open>host.go\<close>

text \<open>A bound form: \<open>None\<close> when \<open>c.Bind\<close> fails. The website posts forms; the fields without a tag stay zero.\<close>

record host_form =
  hf_Hostname :: string
  hf_Domain :: string
  hf_Ip :: string
  hf_Ttl :: int
  hf_LastUpdate :: time
  hf_UserName :: string
  hf_Password :: string

definition host_of_form :: "host_form \<Rightarrow> legacy_host" where
  "host_of_form f = \<lparr>lh_ID = 0, lh_Hostname = hf_Hostname f, lh_Domain = hf_Domain f, lh_Ip = hf_Ip f, lh_Ttl = hf_Ttl f,
     lh_LastUpdate = hf_LastUpdate f, lh_UserName = hf_UserName f, lh_Password = hf_Password f\<rparr>"

definition bind_form :: "'f option \<Rightarrow> ('f \<Rightarrow> (legacy_world, legacy_reply, 'a) op) \<Rightarrow> (legacy_world, legacy_reply, 'a) op" where
  "bind_form form k = (case form of None \<Rightarrow> bad_request ''invalid form'' | Some f \<Rightarrow> k f)"

definition host_by_id :: "legacy_env \<Rightarrow> int \<Rightarrow> legacy_host lop" where
  "host_by_id env i = lfirst_host env (\<lambda>h. int (lh_ID h) = i)"

definition GetHost :: "legacy_env \<Rightarrow> string \<Rightarrow> legacy_handling" where
  "GetHost env idParam = admin_only (id_param idParam (\<lambda>i.
     bindE (or400 (host_by_id env i)) (\<lambda>_. reply_ok (LId i))))"

definition ListHosts :: "legacy_env \<Rightarrow> legacy_handling" where
  "ListHosts env = admin_only (with_handler (\<lambda>h.
     bindE (or400 (lread env (\<lambda>d. tbl_rows (ld_hosts d)))) (\<lambda>hosts. reply_ok (LHostsPage (lg_Title h) hosts))))"

definition AddHost :: "legacy_handling" where
  "AddHost = admin_only (with_handler (\<lambda>h. reply_ok (LHostForm (lg_Title h) (lg_Domains h) None)))"

definition EditHost :: "legacy_env \<Rightarrow> string \<Rightarrow> legacy_handling" where
  "EditHost env idParam = admin_only (id_param idParam (\<lambda>i. with_handler (\<lambda>h.
     bindE (or400 (host_by_id env i)) (\<lambda>host. reply_ok (LHostForm (lg_Title h) (lg_Domains h) (Some host))))))"

definition checkUniqueHostname :: "legacy_env \<Rightarrow> string \<Rightarrow> string \<Rightarrow> unit lop" where
  "checkUniqueHostname env hostname domain =
     bindE (lread env (\<lambda>d. filter (\<lambda>h. where_nonzero hostname (lh_Hostname h) \<and> where_nonzero domain (lh_Domain h)) (tbl_rows (ld_hosts d)))) (\<lambda>hosts.
     failIf (length hosts > 0) (LError ''hostname already exists'')
    (bindE (lread env (\<lambda>d. map (\<lambda>c. (c, target_of d (lc_TargetID c)))
              (filter (\<lambda>c. \<not> lc_Deleted c \<and> where_nonzero hostname (lc_Hostname c)) (tbl_rows (ld_cnames d))))) (\<lambda>cnames.
     failIf (\<exists>p \<in> set cnames. (case snd p of None \<Rightarrow> [] | Some h \<Rightarrow> lh_Domain h) = domain) (LError ''hostname already exists'')
       (ret ()))))"

text \<open>The end of \<open>CreateHost\<close> and \<open>UpdateHost\<close>: publish the address of a host.\<close>

definition publish_host :: "legacy_env \<Rightarrow> legacy_host \<Rightarrow> (legacy_world, legacy_reply, unit) op" where
  "publish_host env host = with_handler (\<lambda>h.
     (let ipType = GetIPType (lh_Ip host) in
      if ipType = [] then bad_request (''ip '' @ lh_Ip host @ '' is not a valid ip'')
      else or400 (UpdateRecord env (lh_Hostname host) (lh_Ip host) ipType (lh_Domain host) (lh_Ttl host) (lg_AllowWildcard h))))"

definition CreateHost :: "legacy_env \<Rightarrow> host_form option \<Rightarrow> legacy_handling" where
  "CreateHost env form = admin_only (bind_form form (\<lambda>f.
     (let host = host_of_form f in
      if \<not> le_valid_host env host then bad_request ''validation''
      else
        bindE (or400 (checkUniqueHostname env (lh_Hostname host) (lh_Domain host))) (\<lambda>_.
        bindE (lnow env) (\<lambda>t.
        bindE (or400 (lcreate_host env (host\<lparr>lh_LastUpdate := t\<rparr>))) (\<lambda>host.
        bindE (if lh_Ip host \<noteq> [] then publish_host env host else ret ()) (\<lambda>_.
        reply_ok (LHost host))))))))"

text \<open>\<open>model.Host.UpdateHost\<close>.\<close>

definition update_host_fields :: "time \<Rightarrow> legacy_host \<Rightarrow> legacy_host \<Rightarrow> bool \<times> legacy_host" where
  "update_host_fields t h updateHost =
     (let updateRecord = (lh_Ip h \<noteq> lh_Ip updateHost \<or> lh_Ttl h \<noteq> lh_Ttl updateHost);
          h1 = (if updateRecord then h\<lparr>lh_LastUpdate := t\<rparr> else h)
      in (updateRecord, h1\<lparr>lh_Ip := lh_Ip updateHost, lh_Ttl := lh_Ttl updateHost, lh_UserName := lh_UserName updateHost,
                          lh_Password := lh_Password updateHost\<rparr>))"

definition UpdateHost :: "legacy_env \<Rightarrow> host_form option \<Rightarrow> string \<Rightarrow> legacy_handling" where
  "UpdateHost env form idParam = admin_only (bind_form form (\<lambda>f. id_param idParam (\<lambda>i.
     bindE (or400 (host_by_id env i)) (\<lambda>host.
     bindE (lnow env) (\<lambda>t.
     (let (forceRecordUpdate, host) = update_host_fields t host (host_of_form f) in
      if \<not> le_valid_host env host then bad_request ''validation''
      else
        bindE (or400 (lsave_host env host)) (\<lambda>_.
        bindE (if forceRecordUpdate then publish_host env host else ret ()) (\<lambda>_.
        reply_ok (LHost host)))))))))"

text \<open>
  The transaction of a deletion: a statement that fails writes the reply 400 and ends the function,
  which still returns \<open>nil\<close> (the result of \<open>c.JSON\<close>), so the transaction commits. The result is the
  error that was written, and the error of \<open>BEGIN\<close> or \<open>COMMIT\<close>.
\<close>

fun until_error :: "unit lop list \<Rightarrow> legacy_world \<Rightarrow> legacy_body option \<times> legacy_world" where
  "until_error [] w = (None, w)"
| "until_error (m # ms) w = (case m w of (Inl e, w') \<Rightarrow> (Some e, w') | (Inr _, w') \<Rightarrow> until_error ms w')"

definition delete_transaction :: "legacy_env \<Rightarrow> unit lop list \<Rightarrow> legacy_world \<Rightarrow> (legacy_body option \<times> legacy_body option) \<times> legacy_world" where
  "delete_transaction env body w =
     (if lfault env w then ((None, Some LDatabaseError), ltick w)
      else (case until_error body (ltick w) of (written, w') \<Rightarrow>
        if lfault env w' then ((written, Some LDatabaseError), (ltick w')\<lparr>lw_db := lw_db w\<rparr>)
        else ((written, None), ltick w')))"

definition delete_and_reply :: "legacy_env \<Rightarrow> unit lop list \<Rightarrow> unit lop \<Rightarrow> int \<Rightarrow> legacy_handling" where
  "delete_and_reply env body deleteRecord i = (\<lambda>w.
     (case delete_transaction env body w of ((written, failure), w1) \<Rightarrow>
        (let first = (case written of None \<Rightarrow> [] | Some e \<Rightarrow> [e]);
             reply = (\<lambda>status b. \<lparr>lr_Status = (if written = None then status else 400), lr_Bodies = first @ [b]\<rparr>)
         in case failure of
              Some e \<Rightarrow> (Inr (reply 400 e), w1)
            | None \<Rightarrow> (case deleteRecord w1 of
                  (Inl e, w2) \<Rightarrow> (Inr (reply 400 e), w2)
                | (Inr _, w2) \<Rightarrow> (Inr (reply 200 (LId i)), w2)))))"

definition delete_host_row :: "legacy_env \<Rightarrow> legacy_host \<Rightarrow> unit lop" where
  "delete_host_row env host = lstmt env (\<lambda>d. (Inr (), ld_hosts_update (del_rows (\<lambda>h. lh_ID h = lh_ID host)) d))"

definition delete_host_logs :: "legacy_env \<Rightarrow> legacy_host \<Rightarrow> unit lop" where
  "delete_host_logs env host = lstmt env (\<lambda>d. (Inr (), ld_logs_update (upd_rows (\<lambda>l. ll_HostID l = lh_ID host) (ll_Deleted_update (\<lambda>_. True))) d))"

definition delete_host_cnames :: "legacy_env \<Rightarrow> legacy_host \<Rightarrow> unit lop" where
  "delete_host_cnames env host = lstmt env (\<lambda>d. (Inr (), ld_cnames_update (upd_rows (\<lambda>c. lc_TargetID c = lh_ID host) (lc_Deleted_update (\<lambda>_. True))) d))"

definition DeleteHost :: "legacy_env \<Rightarrow> string \<Rightarrow> legacy_handling" where
  "DeleteHost env idParam = admin_only (id_param idParam (\<lambda>i.
     bindE (or400 (host_by_id env i)) (\<lambda>host. with_handler (\<lambda>h.
     delete_and_reply env [delete_host_row env host, delete_host_logs env host, delete_host_cnames env host]
       (LegacyDeleteRecord env (lh_Hostname host) (lh_Domain host) (lg_AllowWildcard h)) i))))"

text \<open>\<open>UpdateIP\<close>: the errors of \<open>CreateLogEntry\<close> are only logged.\<close>

definition log_quietly :: "legacy_env \<Rightarrow> legacy_log \<Rightarrow> (legacy_world, 'e, unit) op" where
  "log_quietly env entry = (\<lambda>w. (Inr (), snd (CreateLogEntry env entry w)))"

definition UpdateIP :: "legacy_env \<Rightarrow> http_request \<Rightarrow> string \<Rightarrow> string \<Rightarrow> legacy_host \<Rightarrow> legacy_handling" where
  "UpdateIP env rq hostname myip host =
     bindE (lnow env) (\<lambda>t.
     (let entry = (\<lambda>status message sent caller. \<lparr>ll_ID = 0, ll_CreatedAt = 0, ll_Deleted = False, ll_Status = status,
                     ll_Message = message, ll_HostID = lh_ID host, ll_SentIP = sent, ll_CallerIP = caller, ll_TimeStamp = t,
                     ll_UserAgent = ShrinkUserAgent (rq_UserAgent rq)\<rparr>);
          refuse = (\<lambda>message sent caller text. bindE (log_quietly env (entry False message sent caller)) (\<lambda>_.
                     ret (legacy_reply_of 400 (LText (text @ [nl])))))
      in case (case GetCallerIP rq of Some ip \<Rightarrow> Some ip | None \<Rightarrow> map_option fst (SplitHostPort (rq_RemoteAddr rq))) of
           None \<Rightarrow> refuse ''Bad Request: Unable to get caller IP'' myip [] ''badrequest''
         | Some sender \<Rightarrow>
             if hostname = [] \<or> hostname \<noteq> lh_Hostname host @ ''.'' @ lh_Domain host
             then refuse ''Hostname or combination of authenticated user and hostname is invalid'' myip sender ''notfqdn''
             else
               (let sentIP = (if GetIPType myip = [] then sender else myip); ipType = GetIPType sentIP in
                if ipType = [] then refuse ''Bad Request: Sent IP is invalid'' sentIP sender ''badrequest''
                else with_handler (\<lambda>h. \<lambda>w.
                  (case UpdateRecord env (lh_Hostname host) sentIP ipType (lh_Domain host) (lh_Ttl host) (lg_AllowWildcard h) w of
                     (Inl e, w') \<Rightarrow>
                       refuse (''DNS error: '' @ (case e of LNsupdateError msg \<Rightarrow> msg | _ \<Rightarrow> [])) sentIP sender ''dnserr'' w'
                   | (Inr _, w') \<Rightarrow>
                       (case lsave_host env (host\<lparr>lh_Ip := sentIP, lh_LastUpdate := t\<rparr>) w' of
                          (Inl e, w'') \<Rightarrow> (Inr (legacy_reply_of 400 (LText (''badrequest'' @ [nl]))), w'')
                        | (Inr _, w'') \<Rightarrow>
                            bindE (log_quietly env (entry True ''No errors occurred'' sentIP sender)) (\<lambda>_.
                            ret (legacy_reply_of 200 (LText (''good'' @ [nl])))) w''))))))"

section \<open>cname.go\<close>

record cname_form =
  cf_Hostname :: string
  cf_Ttl :: int

definition ListCNames :: "legacy_env \<Rightarrow> legacy_handling" where
  "ListCNames env = admin_only (with_handler (\<lambda>h.
     bindE (or400 (lread env (\<lambda>d. map (\<lambda>c. (c, target_of d (lc_TargetID c))) (filter (\<lambda>c. \<not> lc_Deleted c) (tbl_rows (ld_cnames d)))))) (\<lambda>cnames.
     reply_ok (LCNamesPage (lg_Title h) cnames))))"

definition AddCName :: "legacy_env \<Rightarrow> legacy_handling" where
  "AddCName env = admin_only (with_handler (\<lambda>h.
     bindE (or400 (lread env (\<lambda>d. tbl_rows (ld_hosts d)))) (\<lambda>hosts.
     reply_ok (LCNameForm (lg_Title h) (lg_Domains h) hosts))))"

text \<open>
  \<open>First(host, c.FormValue("target_id"))\<close>: gorm takes a number as the primary key, nothing as no
  condition, and any other text as SQL.
\<close>

definition target_by_form :: "legacy_env \<Rightarrow> string \<Rightarrow> legacy_host lop" where
  "target_by_form env value =
     (case Atoi value of
        Some i \<Rightarrow> host_by_id env i
      | None \<Rightarrow> if value = [] then lfirst_host env (\<lambda>_. True)
                else (case le_raw_sql env value of
                        None \<Rightarrow> lstmt env (\<lambda>d. (Inl LDatabaseError, d))
                      | Some condition \<Rightarrow> lfirst_host env condition))"

definition lcreate_cname :: "legacy_env \<Rightarrow> legacy_cname \<Rightarrow> legacy_cname lop" where
  "lcreate_cname env c = lstmt env (\<lambda>d.
     (let row = c\<lparr>lc_ID := Suc (tbl_seq (ld_cnames d))\<rparr> in (Inr row, ld_cnames_update (ins_row row) d)))"

definition CreateCName :: "legacy_env \<Rightarrow> cname_form option \<Rightarrow> string \<Rightarrow> legacy_handling" where
  "CreateCName env form targetID = admin_only (bind_form form (\<lambda>f.
     bindE (or400 (target_by_form env targetID)) (\<lambda>host.
     (let cname = \<lparr>lc_ID = 0, lc_Deleted = False, lc_Hostname = cf_Hostname f, lc_TargetID = lh_ID host, lc_Ttl = cf_Ttl f\<rparr> in
      if \<not> le_valid_cname env cname host then bad_request ''validation''
      else
        bindE (or400 (checkUniqueHostname env (lc_Hostname cname) (lh_Domain host))) (\<lambda>_.
        bindE (or400 (lcreate_cname env cname)) (\<lambda>cname. with_handler (\<lambda>h.
        bindE (or400 (UpdateRecord env (lc_Hostname cname) (lh_Hostname host @ ''.'' @ lh_Domain host) ''CNAME'' (lh_Domain host)
                        (lc_Ttl cname) (lg_AllowWildcard h))) (\<lambda>_.
        reply_ok (LCName cname host))))))))) "

definition cname_by_id :: "legacy_env \<Rightarrow> int \<Rightarrow> (legacy_cname \<times> legacy_host option) lop" where
  "cname_by_id env i = lstmt env (\<lambda>d.
     (case find (\<lambda>c. \<not> lc_Deleted c \<and> int (lc_ID c) = i) (tbl_rows (ld_cnames d)) of
        None \<Rightarrow> Inl LDatabaseError | Some c \<Rightarrow> Inr (c, target_of d (lc_TargetID c)), d))"

definition delete_cname_row :: "legacy_env \<Rightarrow> legacy_cname \<Rightarrow> unit lop" where
  "delete_cname_row env cname = lstmt env (\<lambda>d. (Inr (), ld_cnames_update (del_rows (\<lambda>c. lc_ID c = lc_ID cname)) d))"

definition DeleteCName :: "legacy_env \<Rightarrow> string \<Rightarrow> legacy_handling" where
  "DeleteCName env idParam = admin_only (id_param idParam (\<lambda>i.
     bindE (or400 (cname_by_id env i)) (\<lambda>(cname, target). with_handler (\<lambda>h.
     delete_and_reply env [delete_cname_row env cname]
       (LegacyDeleteRecord env (lc_Hostname cname) (case target of None \<Rightarrow> [] | Some t \<Rightarrow> lh_Domain t) (lg_AllowWildcard h)) i))))"

section \<open>main.go\<close>

datatype legacy_endpoint =
    LPublic string
  | LAdminHosts
  | LAdminAddHost
  | LAdminEditHost string
  | LAdminAddCName
  | LAdminCNames
  | LAdminLogs
  | LAdminHostLogs string
  | LAdminCreateHost "host_form option"
  | LAdminUpdateHost "host_form option" string
  | LAdminDeleteHost string
  | LAdminLogout
  | LAdminCreateCName "cname_form option" string
  | LAdminDeleteCName string
  | LUpdate string string
  | LPing

text \<open>\<open>middleware.BasicAuth\<close>: the request goes on only when the validator accepts the login it carries.\<close>

definition legacy_admin :: "legacy_env \<Rightarrow> http_request \<Rightarrow> legacy_handling \<Rightarrow> legacy_world \<Rightarrow> legacy_reply \<times> legacy_world" where
  "legacy_admin env rq m w =
     (if lg_AdminLogin (lw_handler w) = [] then finish m w
      else (case rq_BasicAuth rq of
              None \<Rightarrow> (legacy_reply_of 401 LEmpty, w)
            | Some (username, password) \<Rightarrow>
                (case AuthenticateAdmin env username password w of
                   (True, w') \<Rightarrow> finish m w'
                 | (False, w') \<Rightarrow> (legacy_reply_of 401 LEmpty, w'))))"

definition legacy_update :: "legacy_env \<Rightarrow> http_request \<Rightarrow> string \<Rightarrow> string \<Rightarrow> legacy_world \<Rightarrow> legacy_reply \<times> legacy_world" where
  "legacy_update env rq hostname myip w =
     (case rq_BasicAuth rq of
        None \<Rightarrow> (legacy_reply_of 401 LEmpty, w)
      | Some (username, password) \<Rightarrow>
          (case AuthenticateUpdate env username password hostname w of
             (Some host, w') \<Rightarrow> finish (UpdateIP env rq hostname myip host) w'
           | (None, w') \<Rightarrow> (legacy_reply_of 401 LEmpty, w')))"

definition logout :: legacy_handling where
  "logout = with_handler (\<lambda>h. ret (legacy_reply_of 302 (LRedirect (if length (lg_LogoutUrl h) > 0 then lg_LogoutUrl h else ''../''))))"

definition legacy_serve :: "legacy_env \<Rightarrow> http_request \<Rightarrow> legacy_endpoint \<Rightarrow> legacy_world \<Rightarrow> legacy_reply \<times> legacy_world" where
  "legacy_serve env rq ep =
     (case ep of
        LPublic path \<Rightarrow> (\<lambda>w. (legacy_reply_of 301 (LRedirect ''./admin/''), w))
      | LAdminHosts \<Rightarrow> legacy_admin env rq (ListHosts env)
      | LAdminAddHost \<Rightarrow> legacy_admin env rq AddHost
      | LAdminEditHost i \<Rightarrow> legacy_admin env rq (EditHost env i)
      | LAdminAddCName \<Rightarrow> legacy_admin env rq (AddCName env)
      | LAdminCNames \<Rightarrow> legacy_admin env rq (ListCNames env)
      | LAdminLogs \<Rightarrow> legacy_admin env rq (ShowLogs env)
      | LAdminHostLogs i \<Rightarrow> legacy_admin env rq (ShowHostLogs env i)
      | LAdminCreateHost f \<Rightarrow> legacy_admin env rq (CreateHost env f)
      | LAdminUpdateHost f i \<Rightarrow> legacy_admin env rq (UpdateHost env f i)
      | LAdminDeleteHost i \<Rightarrow> legacy_admin env rq (DeleteHost env i)
      | LAdminLogout \<Rightarrow> legacy_admin env rq logout
      | LAdminCreateCName f t \<Rightarrow> legacy_admin env rq (CreateCName env f t)
      | LAdminDeleteCName i \<Rightarrow> legacy_admin env rq (DeleteCName env i)
      | LUpdate hostname myip \<Rightarrow> legacy_update env rq hostname myip
      | LPing \<Rightarrow> (\<lambda>w. (legacy_reply_of 200 (LError ''OK''), w)))"

end
