(* ===== verification/Hermes_Legacy_Properties.thy ===== *)
theory Hermes_Legacy_Properties
  imports Hermes_Legacy Hermes_Access
begin

text \<open>
  What the legacy server promises and what it does not: the invariant of its hosts over all
  requests, the effect of an update, the hole in its authentication, and a deletion that is reported
  as failed and still happens.
\<close>

section \<open>Statements and what they leave alone\<close>

interpretation lhost_rows: keyed_table lh_ID .

lemma ltick_simps [simp]:
  "lw_db (ltick w) = lw_db w" "lw_ticks (ltick w) = Suc (lw_ticks w)" "lw_dns (ltick w) = lw_dns w"
  "lw_handler (ltick w) = lw_handler w" "lw_clearing (ltick w) = lw_clearing w"
  by (simp_all add: ltick_def)

definition legacy_ok :: "legacy_db \<Rightarrow> bool" where
  "legacy_ok d \<longleftrightarrow> wf_table lh_ID (ld_hosts d) \<and> wf_table lc_ID (ld_cnames d) \<and> wf_table ll_ID (ld_logs d) \<and>
     distinct (map (\<lambda>h. (lh_Hostname h, lh_Domain h)) (tbl_rows (ld_hosts d))) \<and>
     distinct (map lh_UserName (tbl_rows (ld_hosts d)))"

text \<open>A computation that keeps the invariant, and one that does not change the database at all.\<close>

definition lkeeps :: "(legacy_world, 'e, 'a) op \<Rightarrow> bool" where
  "lkeeps m \<longleftrightarrow> (\<forall>w. legacy_ok (lw_db w) \<longrightarrow> legacy_ok (lw_db (snd (m w))))"

definition lreads :: "(legacy_world, 'e, 'a) op \<Rightarrow> bool" where
  "lreads m \<longleftrightarrow> (\<forall>w. lw_db (snd (m w)) = lw_db w)"

named_theorems lkeeps

lemma lkeepsD: "lkeeps m \<Longrightarrow> m w = (r, w') \<Longrightarrow> legacy_ok (lw_db w) \<Longrightarrow> legacy_ok (lw_db w')"
  by (metis lkeeps_def snd_conv)

lemma lreadsD: "lreads m \<Longrightarrow> m w = (r, w') \<Longrightarrow> lw_db w' = lw_db w"
  by (metis lreads_def snd_conv)

lemma lreads_keeps: "lreads m \<Longrightarrow> lkeeps m"
  by (simp add: lreads_def lkeeps_def)

lemma lreads_basic:
  "lreads (lread env f)" "lreads (lfirst_host env P)" "lreads (lnow env)" "lreads (ret x)" "lreads (raise e)"
  "lreads (bad_request msg)" "lreads (legacy_nsupdate env s)" "lreads (reply_ok b)"
  "lreads (lstmt env (\<lambda>d. (z, d)))"
  by (simp_all add: lreads_def lread_def lfirst_host_def lnow_def lstmt_def bad_request_def legacy_nsupdate_def reply_ok_def
      split: option.split)

lemmas lkeeps_basic [lkeeps] = lreads_basic [THEN lreads_keeps]

lemma lkeeps_bind [lkeeps]: "lkeeps m \<Longrightarrow> (\<And>x. lkeeps (f x)) \<Longrightarrow> lkeeps (bindE m f)"
  by (simp add: lkeeps_def bindE_def split: prod.split sum.split) (metis snd_conv)

lemma lreads_bind: "lreads m \<Longrightarrow> (\<And>x. lreads (f x)) \<Longrightarrow> lreads (bindE m f)"
  by (simp add: lreads_def bindE_def split: prod.split sum.split) (metis snd_conv)

lemma lkeeps_or400 [lkeeps]: "lkeeps m \<Longrightarrow> lkeeps (or400 m)"
  by (simp add: lkeeps_def or400_def split: prod.split sum.split) (metis snd_conv)

lemma lkeeps_structure [lkeeps]:
  "(\<And>h. lkeeps (f h)) \<Longrightarrow> lkeeps (with_handler f)" "lkeeps m \<Longrightarrow> lkeeps (admin_only m)"
  "(\<And>i. lkeeps (g i)) \<Longrightarrow> lkeeps (id_param v g)" "(\<And>x. lkeeps (k x)) \<Longrightarrow> lkeeps (bind_form y k)"
  "lkeeps m \<Longrightarrow> lkeeps (failIf b e m)" "lkeeps m \<Longrightarrow> lkeeps n \<Longrightarrow> lkeeps (if b then m else n)"
  by (simp_all add: lkeeps_def with_handler_def admin_only_def id_param_def bind_form_def bad_request_def failIf_apply split: option.split)

lemma lkeeps_finish: "lkeeps m \<Longrightarrow> finish m w = (r, w') \<Longrightarrow> legacy_ok (lw_db w) \<Longrightarrow> legacy_ok (lw_db w')"
  using lkeepsD [of m w] by (auto simp: finish_def split: prod.splits sum.splits)

section \<open>Each change keeps the invariant\<close>

lemma legacy_ok_create:
  assumes "legacy_ok d" "lh_ID row = Suc (tbl_seq (ld_hosts d))"
    and "\<forall>x \<in> set (tbl_rows (ld_hosts d)). lh_UserName x \<noteq> lh_UserName row \<and> \<not> (lh_Hostname x = lh_Hostname row \<and> lh_Domain x = lh_Domain row)"
  shows "legacy_ok (ld_hosts_update (ins_row row) d)"
  using assms lhost_rows.wf_ins [of "ld_hosts d" row] by (auto simp: legacy_ok_def)

lemma map_upd_same: "(\<And>x. x \<in> set xs \<Longrightarrow> P x \<Longrightarrow> g (f x) = g x) \<Longrightarrow> map (\<lambda>x. g (if P x then f x else x)) xs = map g xs"
  by (rule map_cong) auto

lemma wf_table_keys:
  assumes "map key (tbl_rows t') = map key (tbl_rows t)" "tbl_seq t' = tbl_seq t"
  shows "wf_table key t' = wf_table key t"
proof -
  have "(\<forall>r \<in> set (tbl_rows x). 1 \<le> key r \<and> key r \<le> n) \<longleftrightarrow> (\<forall>i \<in> set (map key (tbl_rows x)). 1 \<le> i \<and> i \<le> n)" for x :: "'a table" and n
    by simp
  then show ?thesis unfolding wf_table_def assms by (simp only: assms)
qed

lemma legacy_db_update_simps:
  "ld_hosts (ld_hosts_update f d) = f (ld_hosts d)" "ld_cnames (ld_hosts_update f d) = ld_cnames d"
  "ld_logs (ld_hosts_update f d) = ld_logs d"
  by simp_all

text \<open>\<open>Save\<close> of a host that is there, with its name and key unchanged.\<close>

lemma legacy_ok_save:
  assumes ok: "legacy_ok d" and row: "x \<in> set (tbl_rows (ld_hosts d))"
    and same: "lh_ID h = lh_ID x" "lh_Hostname h = lh_Hostname x" "lh_Domain h = lh_Domain x"
    and user: "\<forall>y \<in> set (tbl_rows (ld_hosts d)). lh_UserName y = lh_UserName h \<longrightarrow> lh_ID y = lh_ID h"
  shows "legacy_ok (ld_hosts_update (upd_rows (\<lambda>y. lh_ID y = lh_ID h) (\<lambda>_. h)) d)"
proof -
  let ?rows = "tbl_rows (ld_hosts d)"
  have ids: "inj_on lh_ID (set ?rows)" using ok by (simp add: legacy_ok_def wf_table_def distinct_map)
  have one: "y = x" if "y \<in> set ?rows" "lh_ID y = lh_ID h" for y
    using inj_onD [OF ids _ that(1) row] that(2) same(1) by simp
  have users: "distinct (map (\<lambda>y. lh_UserName (if lh_ID y = lh_ID h then h else y)) ?rows)"
  proof -
    have "inj_on (\<lambda>y. lh_UserName (if lh_ID y = lh_ID h then h else y)) (set ?rows)"
    proof (rule inj_onI)
      fix a b assume a: "a \<in> set ?rows" and b: "b \<in> set ?rows"
        and eq: "lh_UserName (if lh_ID a = lh_ID h then h else a) = lh_UserName (if lh_ID b = lh_ID h then h else b)"
      have inj: "inj_on lh_UserName (set ?rows)" using ok by (simp add: legacy_ok_def distinct_map)
      show "a = b"
      proof (cases "lh_ID a = lh_ID h"; cases "lh_ID b = lh_ID h")
        assume "lh_ID a = lh_ID h" "lh_ID b = lh_ID h"
        then show ?thesis using one [OF a] one [OF b] by simp
      next
        assume k: "lh_ID a = lh_ID h" "lh_ID b \<noteq> lh_ID h"
        then have "lh_UserName b = lh_UserName h" using eq by simp
        with user b k show ?thesis by blast
      next
        assume k: "lh_ID a \<noteq> lh_ID h" "lh_ID b = lh_ID h"
        then have "lh_UserName a = lh_UserName h" using eq by simp
        with user a k show ?thesis by blast
      next
        assume "lh_ID a \<noteq> lh_ID h" "lh_ID b \<noteq> lh_ID h"
        with eq show ?thesis using inj_onD [OF inj _ a b] by simp
      qed
    qed
    moreover have "distinct ?rows" using ok by (auto simp: legacy_ok_def distinct_map)
    ultimately show ?thesis by (simp add: distinct_map)
  qed
  have row_kept: "lh_ID (if lh_ID y = lh_ID h then h else y) = lh_ID y"
    "lh_Hostname (if lh_ID y = lh_ID h then h else y) = lh_Hostname y"
    "lh_Domain (if lh_ID y = lh_ID h then h else y) = lh_Domain y" if "y \<in> set ?rows" for y
    by (metis one same that)+
  let ?t = "upd_rows (\<lambda>y. lh_ID y = lh_ID h) (\<lambda>_. h) (ld_hosts d)"
  have "map lh_ID (tbl_rows ?t) = map lh_ID ?rows" using row_kept(1) by simp
  then have "wf_table lh_ID ?t = wf_table lh_ID (ld_hosts d)" by (rule wf_table_keys) simp
  moreover have "map (\<lambda>y. (lh_Hostname y, lh_Domain y)) (tbl_rows ?t) = map (\<lambda>y. (lh_Hostname y, lh_Domain y)) ?rows"
    using row_kept(2,3) by simp
  moreover have "map lh_UserName (tbl_rows ?t) = map (\<lambda>y. lh_UserName (if lh_ID y = lh_ID h then h else y)) ?rows" by simp
  ultimately show ?thesis using ok users unfolding legacy_ok_def by (metis legacy_db_update_simps)
qed

section \<open>Every handler keeps the invariant\<close>

lemma checkUniqueHostname_reads: "lreads (checkUniqueHostname env hostname domain)"
  unfolding checkUniqueHostname_def failIf_def
  by (intro lreads_bind lreads_basic) (simp add: lreads_def failIf_apply lreads_bind lreads_basic
      bindE_def lread_def lstmt_def split: prod.split sum.split)

lemma checkUniqueHostname_none:
  assumes "checkUniqueHostname env hostname domain w = (Inr u, w')" "x \<in> set (tbl_rows (ld_hosts (lw_db w)))"
  shows "\<not> (lh_Hostname x = hostname \<and> lh_Domain x = domain)"
  using assms by (auto simp: checkUniqueHostname_def bindE_def lread_def lstmt_def failIf_apply where_nonzero_def filter_empty_conv
      split: prod.splits sum.splits if_splits)

lemma publish_host_keeps [lkeeps]: "lkeeps (publish_host env host)"
  unfolding publish_host_def UpdateRecord_def Let_def by (intro lkeeps)

text \<open>
  A step that establishes more than the invariant: from \<open>P\<close>, an error leaves the invariant and a value
  \<open>x\<close> leaves \<open>Q x\<close>.
\<close>

definition ltriple :: "(legacy_db \<Rightarrow> bool) \<Rightarrow> (legacy_world, 'e, 'a) op \<Rightarrow> ('a \<Rightarrow> legacy_db \<Rightarrow> bool) \<Rightarrow> bool" where
  "ltriple P m Q \<longleftrightarrow> (\<forall>w. P (lw_db w) \<longrightarrow>
     (case m w of (Inl e, w') \<Rightarrow> legacy_ok (lw_db w') | (Inr x, w') \<Rightarrow> Q x (lw_db w')))"

lemma ltriple_lkeeps: "ltriple legacy_ok m (\<lambda>_. legacy_ok) \<longleftrightarrow> lkeeps m"
  by (simp add: ltriple_def lkeeps_def split: prod.split sum.split) (metis snd_conv prod.collapse sum.exhaust)

lemma ltriple_bind: "ltriple P m R \<Longrightarrow> (\<And>x. ltriple (R x) (f x) Q) \<Longrightarrow> ltriple P (bindE m f) Q"
  by (fastforce simp: ltriple_def bindE_def split: prod.splits sum.splits)

lemma ltriple_or400: "ltriple P m Q \<Longrightarrow> ltriple P (or400 m) Q"
  by (fastforce simp: ltriple_def or400_def split: prod.splits sum.splits)

lemma ltriple_reads: "lreads m \<Longrightarrow> (\<And>d. P d \<Longrightarrow> legacy_ok d) \<Longrightarrow> ltriple P m (\<lambda>_. P)"
  by (auto simp: ltriple_def lreads_def split: prod.split sum.split) (metis snd_conv)+

lemma ltriple_if: "(b \<Longrightarrow> ltriple P m Q) \<Longrightarrow> (\<not> b \<Longrightarrow> ltriple P n Q) \<Longrightarrow> ltriple P (if b then m else n) Q"
  by simp

lemma ltriple_weaken: "lkeeps m \<Longrightarrow> (\<And>d. P d \<Longrightarrow> legacy_ok d) \<Longrightarrow> ltriple P m (\<lambda>_. legacy_ok)"
  using ltriple_lkeeps [of m] by (auto simp: ltriple_def)

definition name_free :: "legacy_host \<Rightarrow> legacy_db \<Rightarrow> bool" where
  "name_free h d \<longleftrightarrow> legacy_ok d \<and> (\<forall>x \<in> set (tbl_rows (ld_hosts d)). \<not> (lh_Hostname x = lh_Hostname h \<and> lh_Domain x = lh_Domain h))"

lemma name_free_ok: "name_free h d \<Longrightarrow> legacy_ok d"
  by (simp add: name_free_def)

lemma checkUniqueHostname_free:
  "ltriple legacy_ok (checkUniqueHostname env (lh_Hostname h) (lh_Domain h)) (\<lambda>_. name_free h)"
  unfolding ltriple_def
proof (intro allI impI)
  fix w :: legacy_world assume ok: "legacy_ok (lw_db w)"
  obtain r w' where run: "checkUniqueHostname env (lh_Hostname h) (lh_Domain h) w = (r, w')" by fastforce
  have "lw_db w' = lw_db w" using lreadsD [OF checkUniqueHostname_reads run] .
  with ok run checkUniqueHostname_none [of env "lh_Hostname h" "lh_Domain h" w _ w']
  show "case checkUniqueHostname env (lh_Hostname h) (lh_Domain h) w of (Inl e, w') \<Rightarrow> legacy_ok (lw_db w') | (Inr x, w') \<Rightarrow> name_free h (lw_db w')"
    by (cases r) (auto simp: name_free_def)
qed

lemma lcreate_host_free: "ltriple (name_free h) (lcreate_host env (h\<lparr>lh_LastUpdate := t\<rparr>)) (\<lambda>_. legacy_ok)"
  using legacy_ok_create [of _ "h\<lparr>lh_LastUpdate := t, lh_ID := Suc (tbl_seq (ld_hosts _))\<rparr>"]
  by (auto simp: ltriple_def lcreate_host_def lstmt_def Let_def list_ex_iff name_free_def split: if_splits)

lemma CreateHost_keeps: "lkeeps (CreateHost env form)"
proof -
  have "lkeeps (bindE (or400 (checkUniqueHostname env (lh_Hostname host) (lh_Domain host))) (\<lambda>_.
        bindE (lnow env) (\<lambda>t. bindE (or400 (lcreate_host env (host\<lparr>lh_LastUpdate := t\<rparr>))) (\<lambda>host.
        bindE (if lh_Ip host \<noteq> [] then publish_host env host else ret ()) (\<lambda>_. reply_ok (LHost host))))))" for host
    unfolding ltriple_lkeeps [symmetric]
    by (intro ltriple_bind [OF ltriple_or400 [OF checkUniqueHostname_free]] ltriple_bind [OF ltriple_reads [OF lreads_basic(3) name_free_ok]]
        ltriple_bind [OF ltriple_or400 [OF lcreate_host_free]]) (simp_all only: ltriple_lkeeps lkeeps)
  then show ?thesis unfolding CreateHost_def Let_def by (intro lkeeps_structure lkeeps_basic)
qed

text \<open>An update of a host that was read from the database.\<close>

definition host_known :: "legacy_host \<Rightarrow> legacy_db \<Rightarrow> bool" where
  "host_known h d \<longleftrightarrow> legacy_ok d \<and> (\<exists>x \<in> set (tbl_rows (ld_hosts d)). lh_ID h = lh_ID x \<and> lh_Hostname h = lh_Hostname x \<and> lh_Domain h = lh_Domain x)"

lemma host_known_ok: "host_known h d \<Longrightarrow> legacy_ok d"
  by (simp add: host_known_def)

lemma lfirst_host_known: "ltriple legacy_ok (lfirst_host env P) (\<lambda>h. host_known h)"
  by (auto simp: ltriple_def lfirst_host_def lstmt_def host_known_def dest!: find_SomeD split: option.splits)

lemma lsave_host_known: "ltriple (host_known h) (lsave_host env h) (\<lambda>_. legacy_ok)"
proof -
  have "legacy_ok (ld_hosts_update (\<lambda>t. if list_ex (\<lambda>x. lh_ID x = lh_ID h) (tbl_rows t) then upd_rows (\<lambda>x. lh_ID x = lh_ID h) (\<lambda>_. h) t
       else t\<lparr>tbl_rows := tbl_rows t @ [h], tbl_seq := max (tbl_seq t) (lh_ID h)\<rparr>) d)"
    if known: "host_known h d" and user: "\<not> list_ex (\<lambda>x. lh_UserName x = lh_UserName h \<and> lh_ID x \<noteq> lh_ID h) (tbl_rows (ld_hosts d))" for d
  proof -
    obtain x where x: "x \<in> set (tbl_rows (ld_hosts d))" "lh_ID h = lh_ID x" "lh_Hostname h = lh_Hostname x" "lh_Domain h = lh_Domain x"
      using known by (auto simp: host_known_def)
    have "list_ex (\<lambda>x. lh_ID x = lh_ID h) (tbl_rows (ld_hosts d))" using x by (auto simp: list_ex_iff)
    moreover have "legacy_ok (ld_hosts_update (upd_rows (\<lambda>y. lh_ID y = lh_ID h) (\<lambda>_. h)) d)"
      by (rule legacy_ok_save [OF host_known_ok [OF known] x]) (use user in \<open>auto simp: list_ex_iff\<close>)
    ultimately show ?thesis by (simp cong: legacy_db.fold_congs)
  qed
  then show ?thesis by (auto simp: ltriple_def lsave_host_def lstmt_def dest: host_known_ok split: if_splits)
qed

lemma UpdateHost_keeps: "lkeeps (UpdateHost env form idParam)"
proof -
  have later: "lkeeps (bindE (if b then publish_host env host else ret ()) (\<lambda>_. reply_ok (LHost host)))" for b host
    by (intro lkeeps)
  have body: "ltriple (host_known h0) (bindE (lnow env) (\<lambda>t.
     (let (forceRecordUpdate, host) = update_host_fields t h0 g in
      if \<not> le_valid_host env host then bad_request ''validation''
      else bindE (or400 (lsave_host env host)) (\<lambda>_.
        bindE (if forceRecordUpdate then publish_host env host else ret ()) (\<lambda>_. reply_ok (LHost host)))))) (\<lambda>_. legacy_ok)" for h0 g
  proof (rule ltriple_bind [OF ltriple_reads [OF lreads_basic(3) host_known_ok]])
    fix t
    obtain b h where bh: "update_host_fields t h0 g = (b, h)" by fastforce
    then have same: "host_known h d \<longleftrightarrow> host_known h0 d" for d
      by (auto simp: host_known_def update_host_fields_def Let_def)
    have "ltriple (host_known h) (if \<not> le_valid_host env h then bad_request ''validation''
      else bindE (or400 (lsave_host env h)) (\<lambda>_. bindE (if b then publish_host env h else ret ()) (\<lambda>_. reply_ok (LHost h)))) (\<lambda>_. legacy_ok)"
      by (intro ltriple_if ltriple_weaken [OF lkeeps_basic(6) host_known_ok] ltriple_bind [OF ltriple_or400 [OF lsave_host_known]])
        (simp_all only: ltriple_lkeeps later)
    then show "ltriple (host_known h0) (let (forceRecordUpdate, host) = update_host_fields t h0 g in
      if \<not> le_valid_host env host then bad_request ''validation''
      else bindE (or400 (lsave_host env host)) (\<lambda>_.
        bindE (if forceRecordUpdate then publish_host env host else ret ()) (\<lambda>_. reply_ok (LHost host)))) (\<lambda>_. legacy_ok)"
      by (simp add: bh ltriple_def same)
  qed
  have "lkeeps (bindE (or400 (host_by_id env i)) (\<lambda>host. bindE (lnow env) (\<lambda>t.
     (let (forceRecordUpdate, host) = update_host_fields t host g in
      if \<not> le_valid_host env host then bad_request ''validation''
      else bindE (or400 (lsave_host env host)) (\<lambda>_.
        bindE (if forceRecordUpdate then publish_host env host else ret ()) (\<lambda>_. reply_ok (LHost host)))))))" for i g
    unfolding ltriple_lkeeps [symmetric] host_by_id_def by (intro ltriple_bind [OF ltriple_or400 [OF lfirst_host_known]] body)
  then show ?thesis unfolding UpdateHost_def by (intro lkeeps_structure lkeeps_basic)
qed

text \<open>Rows of aliases and logs, which the invariant only asks to have keys.\<close>

lemma wf_upd_rows: "wf_table key t \<Longrightarrow> (\<And>r. key (f r) = key r) \<Longrightarrow> wf_table key (upd_rows P f t)"
  by (auto simp: wf_table_def o_def if_distrib [of key] cong: if_cong)

lemma wf_del_rows: "wf_table key t \<Longrightarrow> wf_table key (del_rows P t)"
  by (auto simp: wf_table_def distinct_map_filter)

lemma wf_ins_row: "wf_table key t \<Longrightarrow> key r = Suc (tbl_seq t) \<Longrightarrow> wf_table key (ins_row r t)"
  by (fastforce simp: wf_table_def)

lemma legacy_ok_rows:
  assumes "legacy_ok d"
  shows "legacy_ok (ld_hosts_update (del_rows P) d)"
    "(\<And>l. ll_ID (f l) = ll_ID l) \<Longrightarrow> legacy_ok (ld_logs_update (upd_rows Q f) d)" "legacy_ok (ld_logs_update (del_rows Q) d)"
    "(\<And>c. lc_ID (g c) = lc_ID c) \<Longrightarrow> legacy_ok (ld_cnames_update (upd_rows R g) d)" "legacy_ok (ld_cnames_update (del_rows R) d)"
  using assms by (simp_all add: legacy_ok_def wf_upd_rows wf_del_rows distinct_map_filter)

lemma legacy_ok_ins:
  assumes "legacy_ok d"
  shows "ll_ID l = Suc (tbl_seq (ld_logs d)) \<Longrightarrow> legacy_ok (ld_logs_update (ins_row l) d)"
    "lc_ID c = Suc (tbl_seq (ld_cnames d)) \<Longrightarrow> legacy_ok (ld_cnames_update (ins_row c) d)"
  using assms by (simp_all add: legacy_ok_def wf_ins_row)

lemma lstmt_keeps: "(\<And>d. legacy_ok d \<Longrightarrow> legacy_ok (snd (act d))) \<Longrightarrow> lkeeps (lstmt env act)"
  by (simp add: lkeeps_def lstmt_def split: prod.split) (metis snd_conv)

lemma delete_statements_keep:
  "lkeeps (delete_host_row env h)" "lkeeps (delete_host_logs env h)" "lkeeps (delete_host_cnames env h)" "lkeeps (delete_cname_row env c)"
  unfolding delete_host_row_def delete_host_logs_def delete_host_cnames_def delete_cname_row_def
  by (intro lstmt_keeps; simp add: legacy_ok_rows)+

lemma CreateLogEntry_keeps: "legacy_ok (lw_db w) \<Longrightarrow> legacy_ok (lw_db (snd (CreateLogEntry env entry w)))"
  by (auto simp: CreateLogEntry_def lstmt_def legacy_ok_def wf_ins_row)

lemma lcreate_cname_keeps [lkeeps]: "lkeeps (lcreate_cname env c)"
  unfolding lcreate_cname_def by (intro lstmt_keeps) (simp add: Let_def legacy_ok_def wf_ins_row)

lemma until_error_keeps:
  "(\<And>m. m \<in> set ms \<Longrightarrow> lkeeps m) \<Longrightarrow> legacy_ok (lw_db w) \<Longrightarrow> legacy_ok (lw_db (snd (until_error ms w)))"
proof (induction ms arbitrary: w)
  case (Cons m ms)
  obtain r w' where run: "m w = (r, w')" by fastforce
  have "legacy_ok (lw_db w')" using lkeepsD [of m w r w'] run Cons.prems by simp
  with Cons.IH [of w'] Cons.prems(1) run show ?case by (cases r) auto
qed simp

lemma delete_transaction_keeps:
  assumes "\<And>m. m \<in> set ms \<Longrightarrow> lkeeps m" "legacy_ok (lw_db w)"
  shows "legacy_ok (lw_db (snd (delete_transaction env ms w)))"
  using until_error_keeps [of ms "ltick w"] assms by (auto simp: delete_transaction_def split: prod.split)

lemma delete_and_reply_keeps:
  assumes "\<And>m. m \<in> set ms \<Longrightarrow> lkeeps m" "lreads dr"
  shows "lkeeps (delete_and_reply env ms dr i)"
  unfolding lkeeps_def
proof (intro allI impI)
  fix w :: legacy_world assume ok: "legacy_ok (lw_db w)"
  obtain x e w1 where t: "delete_transaction env ms w = ((x, e), w1)" by (metis prod.collapse)
  have w1: "legacy_ok (lw_db w1)" using delete_transaction_keeps [of ms w env] assms(1) ok t by simp
  obtain r w2 where d: "dr w1 = (r, w2)" by fastforce
  have "lw_db w2 = lw_db w1" using lreadsD [OF assms(2) d] .
  with t d w1 show "legacy_ok (lw_db (snd (delete_and_reply env ms dr i w)))"
    by (auto simp: delete_and_reply_def Let_def split: option.split sum.split)
qed

lemma cname_by_id_reads: "lreads (cname_by_id env i)"
  by (auto simp: lreads_def cname_by_id_def lstmt_def split: option.split)

lemma Delete_keeps: "lkeeps (DeleteHost env idParam)" "lkeeps (DeleteCName env idParam)"
  unfolding DeleteHost_def DeleteCName_def host_by_id_def LegacyDeleteRecord_def
  by (intro lkeeps; auto simp: split_beta intro!: lkeeps delete_and_reply_keeps delete_statements_keep lreads_basic lreads_keeps [OF cname_by_id_reads])+

lemma target_by_form_reads: "lreads (target_by_form env v)"
  by (auto simp: target_by_form_def host_by_id_def lreads_basic split: option.split)

lemma CreateCName_keeps: "lkeeps (CreateCName env form t)"
  unfolding CreateCName_def Let_def UpdateRecord_def
  by (intro lkeeps lreads_keeps [OF target_by_form_reads] lreads_keeps [OF checkUniqueHostname_reads])

lemma log_quietly_keeps [lkeeps]: "lkeeps (log_quietly env entry)"
  by (simp add: lkeeps_def log_quietly_def CreateLogEntry_keeps)

lemma CreateLogEntry_frame:
  "ld_hosts (lw_db (snd (CreateLogEntry env e w))) = ld_hosts (lw_db w)" "ld_cnames (lw_db (snd (CreateLogEntry env e w))) = ld_cnames (lw_db w)"
  "lw_dns (snd (CreateLogEntry env e w)) = lw_dns w" "lw_handler (snd (CreateLogEntry env e w)) = lw_handler w"
  by (simp_all add: CreateLogEntry_def lstmt_def)

text \<open>The address an update asks for: the one it sends, or else the one it comes from.\<close>

definition update_sender :: "http_request \<Rightarrow> string option" where
  "update_sender rq = (case GetCallerIP rq of Some ip \<Rightarrow> Some ip | None \<Rightarrow> map_option fst (SplitHostPort (rq_RemoteAddr rq)))"

definition update_address :: "http_request \<Rightarrow> string \<Rightarrow> string option" where
  "update_address rq myip =
     (case update_sender rq of None \<Rightarrow> None
      | Some sender \<Rightarrow> let ip = (if GetIPType myip = [] then sender else myip) in if GetIPType ip = [] then None else Some ip)"

definition host_script :: "legacy_handler \<Rightarrow> legacy_host \<Rightarrow> string \<Rightarrow> string" where
  "host_script cfg h ip = legacy_update_script (lh_Hostname h) ip (GetIPType ip) (lh_Domain h) (lh_Ttl h) (lg_AllowWildcard cfg)"

text \<open>The three ends of \<open>UpdateIP\<close>: refused, published but not saved, done.\<close>

lemma UpdateIP_cases:
  assumes run: "finish (UpdateIP env rq hostname myip host) w = (rp, w')"
  obtains (refused) v e msg where "rp = legacy_reply_of 400 (LText (msg @ [nl]))" "w' = snd (CreateLogEntry env e v)" "lw_db v = lw_db w"
      "lw_dns v = lw_dns w" "lw_handler v = lw_handler w"
    | (unsaved) v ip t e where "rp = legacy_reply_of 400 (LText (''badrequest'' @ [nl]))" "update_address rq myip = Some ip"
      "hostname = lh_Hostname host @ ''.'' @ lh_Domain host"
      "lsave_host env (host\<lparr>lh_Ip := ip, lh_LastUpdate := t\<rparr>) v = (Inl e, w')" "lw_db v = lw_db w"
      "lw_dns v = lw_dns w @ [host_script (lw_handler w) host ip]" "lw_handler v = lw_handler w"
    | (good) v ip t v' e where "rp = legacy_reply_of 200 (LText (''good'' @ [nl]))" "update_address rq myip = Some ip"
      "hostname = lh_Hostname host @ ''.'' @ lh_Domain host"
      "lsave_host env (host\<lparr>lh_Ip := ip, lh_LastUpdate := t\<rparr>) v = (Inr (), v')" "lw_db v = lw_db w"
      "lw_dns v = lw_dns w @ [host_script (lw_handler w) host ip]" "lw_handler v = lw_handler w"
      "w' = snd (CreateLogEntry env e v')" "ll_Status e" "ll_HostID e = lh_ID host" "ll_SentIP e = ip"
proof -
  let ?t = "clock (le_env env) (lw_ticks w)"
  consider (sender) "update_sender rq = None" | (name) x where "update_sender rq = Some x" "hostname = [] \<or> hostname \<noteq> lh_Hostname host @ ''.'' @ lh_Domain host"
    | (addr) x where "update_sender rq = Some x" "hostname = lh_Hostname host @ ''.'' @ lh_Domain host" "update_address rq myip = None"
    | (send) x ip where "update_sender rq = Some x" "hostname = lh_Hostname host @ ''.'' @ lh_Domain host" "update_address rq myip = Some ip"
    by (cases "update_sender rq"; cases "update_address rq myip") auto
  then show thesis
  proof cases
    case sender
    then show thesis using run
      by (intro refused [of "''badrequest''" _ "ltick w"])
        (auto simp: UpdateIP_def finish_def bindE_def lnow_def log_quietly_def Let_def simp flip: update_sender_def)
  next
    case name
    then show thesis using run
      by (intro refused [of "''notfqdn''" _ "ltick w"])
        (auto simp: UpdateIP_def finish_def bindE_def lnow_def log_quietly_def Let_def simp flip: update_sender_def)
  next
    case addr
    then show thesis using run
      by (intro refused [of "''badrequest''" _ "ltick w"])
        (auto simp: UpdateIP_def finish_def bindE_def lnow_def log_quietly_def Let_def update_address_def simp flip: update_sender_def split: if_splits)
  next
    case send
    have ip: "ip = (if GetIPType myip = [] then x else myip)" "GetIPType ip \<noteq> []" "hostname \<noteq> []"
      using send by (auto simp: update_address_def Let_def split: if_splits)
    note unfold = UpdateIP_def bindE_def lnow_def log_quietly_def with_handler_def finish_def Let_def
    let ?w1 = "(ltick (ltick w))\<lparr>lw_dns := lw_dns w @ [host_script (lw_handler w) host ip]\<rparr>"
    obtain u v where u: "UpdateRecord env (lh_Hostname host) ip (GetIPType ip) (lh_Domain host) (lh_Ttl host) (lg_AllowWildcard (lw_handler w)) (ltick w) = (u, v)"
      by fastforce
    show thesis
    proof (cases u)
      case (Inl e)
      with u have "v = ltick (ltick w)" by (auto simp: UpdateRecord_def legacy_nsupdate_def split: option.splits)
      then show thesis using run send u Inl ip
        by (intro refused [of "''dnserr''" _ v]) (auto simp: unfold simp flip: update_sender_def)
    next
      case (Inr z)
      then have v: "v = ?w1" using u by (auto simp: UpdateRecord_def legacy_nsupdate_def host_script_def split: option.splits)
      obtain sr v' where sv: "lsave_host env (host\<lparr>lh_Ip := ip, lh_LastUpdate := ?t\<rparr>) v = (sr, v')" by fastforce
      show thesis
      proof (cases sr)
        case (Inl e)
        then show thesis using run send u \<open>u = Inr z\<close> ip sv v
          by (intro unsaved [of ip ?t v e]) (auto simp: unfold simp flip: update_sender_def)
      next
        case (Inr z')
        then show thesis using run send u \<open>u = Inr z\<close> ip sv v
          by (intro good [of ip ?t v v']) (auto simp: unfold simp flip: update_sender_def)
      qed
    qed
  qed
qed

lemma UpdateIP_keeps:
  assumes run: "finish (UpdateIP env rq hostname myip host) w = (rp, w')" and known: "host_known host (lw_db w)"
  shows "legacy_ok (lw_db w')"
proof -
  have saved: "legacy_ok (lw_db v')" if "lsave_host env (host\<lparr>lh_Ip := ip, lh_LastUpdate := t\<rparr>) v = (r, v')" "lw_db v = lw_db w" for ip t v r v'
  proof -
    have "host_known (host\<lparr>lh_Ip := ip, lh_LastUpdate := t\<rparr>) (lw_db v)" using known that(2) by (simp add: host_known_def)
    with lsave_host_known [of "host\<lparr>lh_Ip := ip, lh_LastUpdate := t\<rparr>" env] that(1) show ?thesis
      unfolding ltriple_def by (cases r) (metis (no_types, lifting) prod.case sum.case)+
  qed
  from run show ?thesis
    by (cases rule: UpdateIP_cases) (use known saved in \<open>auto simp: CreateLogEntry_keeps host_known_ok\<close>)
qed

lemma admin_keeps:
  assumes "lkeeps m" "legacy_admin env rq m w = (rp, w')" "legacy_ok (lw_db w)"
  shows "legacy_ok (lw_db w')"
proof -
  have "finish m v = (rp, w') \<Longrightarrow> lw_db v = lw_db w \<Longrightarrow> ?thesis" for v
    using lkeeps_finish [OF assms(1), of v] assms(3) by simp
  with assms(2,3) show ?thesis
    by (auto simp: legacy_admin_def AuthenticateAdmin_def set_AuthAdmin_def Let_def split: if_splits option.splits prod.splits)
qed

lemma reads_admin: "lkeeps (ListHosts env)" "lkeeps AddHost" "lkeeps (EditHost env i)" "lkeeps (AddCName env)" "lkeeps (ListCNames env)"
  "lkeeps (ShowLogs env)" "lkeeps (ShowHostLogs env i)" "lkeeps (GetHost env i)" "lkeeps logout"
  unfolding ListHosts_def AddHost_def EditHost_def AddCName_def ListCNames_def ShowLogs_def ShowHostLogs_def GetHost_def host_by_id_def logout_def
  by (intro lkeeps)+

lemma CheckClearInterval_simps [simp]:
  "lw_db (CheckClearInterval env w) = lw_db w" "lw_handler (CheckClearInterval env w) = lw_handler w" "lw_dns (CheckClearInterval env w) = lw_dns w"
  by (simp_all add: CheckClearInterval_def split: option.split)

lemma AuthenticateUpdate_found:
  assumes "AuthenticateUpdate env u p q w = (r, w')"
  shows "lw_db w' = lw_db w \<and> lw_handler w' = lw_handler w \<and> lw_dns w' = lw_dns w \<and>
    (\<forall>h. r = Some h \<longrightarrow> h \<in> set (tbl_rows (ld_hosts (lw_db w))) \<and> (\<exists>a b. SplitN2 CHR ''.'' q = [a, b] \<and> matches_login u p a b h))"
  using assms
  by (auto simp: AuthenticateUpdate_def lfirst_host_def lstmt_def dest!: find_SomeD split: list.splits prod.splits sum.splits option.splits if_splits)

lemma legacy_update_keeps:
  assumes "legacy_update env rq hostname myip w = (rp, w')" "legacy_ok (lw_db w)"
  shows "legacy_ok (lw_db w')"
proof (cases "rq_BasicAuth rq")
  case (Some up)
  obtain u p where up: "up = (u, p)" by fastforce
  obtain r v where a: "AuthenticateUpdate env u p hostname w = (r, v)" by fastforce
  note v = AuthenticateUpdate_found [OF a]
  show ?thesis
  proof (cases r)
    case (Some h)
    with v assms(2) have "host_known h (lw_db v)" by (auto simp: host_known_def)
    moreover have "finish (UpdateIP env rq hostname myip h) v = (rp, w')"
      using assms(1) \<open>rq_BasicAuth rq = Some up\<close> up a Some by (simp add: legacy_update_def)
    ultimately show ?thesis using UpdateIP_keeps by blast
  qed (use assms v \<open>rq_BasicAuth rq = Some up\<close> up a in \<open>auto simp: legacy_update_def\<close>)
qed (use assms in \<open>simp add: legacy_update_def\<close>)

lemma legacy_serve_keeps:
  assumes "legacy_serve env rq ep w = (rp, w')" "legacy_ok (lw_db w)"
  shows "legacy_ok (lw_db w')"
proof -
  note keep = reads_admin CreateHost_keeps UpdateHost_keeps Delete_keeps CreateCName_keeps
  from assms show ?thesis
    by (cases ep) (auto simp: legacy_serve_def dest: keep [THEN admin_keeps] legacy_update_keeps)
qed

section \<open>The server\<close>

text \<open>A request, or the clearing of logs that an earlier request started.\<close>

inductive legacy_step :: "legacy_env \<Rightarrow> legacy_world \<Rightarrow> legacy_world \<Rightarrow> bool" for env where
  request: "legacy_serve env rq ep w = (rp, w') \<Longrightarrow> legacy_step env w w'"
| clearing: "lw_clearing w > 0 \<Longrightarrow> legacy_step env w (ClearLogs env w)"

definition legacy_start :: "legacy_handler \<Rightarrow> legacy_world" where
  "legacy_start h = \<lparr>lw_db = \<lparr>ld_hosts = empty_table, ld_cnames = empty_table, ld_logs = empty_table\<rparr>, lw_handler = h,
     lw_ticks = 0, lw_dns = [], lw_clearing = 0\<rparr>"

lemma ClearLogs_keeps: "legacy_ok (lw_db w) \<Longrightarrow> legacy_ok (lw_db (ClearLogs env w))"
  by (simp add: ClearLogs_def lstmt_def Let_def legacy_ok_rows)

interpretation legacy_system: invariant_system "\<lambda>w. w = legacy_start h" "legacy_step env" "\<lambda>w. legacy_ok (lw_db w)"
proof
  show "legacy_ok (lw_db s)" if "s = legacy_start h" for s
    using that by (simp add: legacy_start_def legacy_ok_def) (simp add: empty_table_def)
  fix s t assume "legacy_step env s t" "legacy_ok (lw_db s)"
  then show "legacy_ok (lw_db t)" by cases (blast intro: legacy_serve_keeps ClearLogs_keeps)+
qed


lemma lsave_host_effect:
  assumes "lsave_host env h v = (r, v')" "host_known h (lw_db v)"
  shows "lw_dns v' = lw_dns v \<and> lw_handler v' = lw_handler v \<and>
    lw_db v' = (case r of Inl e \<Rightarrow> lw_db v | Inr _ \<Rightarrow> ld_hosts_update (upd_rows (\<lambda>x. lh_ID x = lh_ID h) (\<lambda>_. h)) (lw_db v))"
proof -
  have "list_ex (\<lambda>x. lh_ID x = lh_ID h) (tbl_rows (ld_hosts (lw_db v)))" using assms(2) by (auto simp: host_known_def list_ex_iff)
  with assms(1) show ?thesis by (auto simp: lsave_host_def lstmt_def split: if_splits cong: legacy_db.fold_congs)
qed

lemma legacy_update_run:
  assumes ok: "legacy_ok (lw_db w)" and run: "legacy_serve env rq (LUpdate hostname myip) w = (rp, w')"
  shows "ld_cnames (lw_db w') = ld_cnames (lw_db w) \<and>
    (if lr_Status rp = 200
     then \<exists>h u p a b ip t. rq_BasicAuth rq = Some (u, p) \<and> h \<in> set (tbl_rows (ld_hosts (lw_db w))) \<and> matches_login u p a b h \<and>
       hostname = lh_Hostname h @ ''.'' @ lh_Domain h \<and> update_address rq myip = Some ip \<and>
       ld_hosts (lw_db w') = upd_rows (\<lambda>x. lh_ID x = lh_ID h) (\<lambda>_. h\<lparr>lh_Ip := ip, lh_LastUpdate := t\<rparr>) (ld_hosts (lw_db w)) \<and>
       lw_dns w' = lw_dns w @ [host_script (lw_handler w) h ip]
     else lr_Status rp \<in> {400, 401} \<and> ld_hosts (lw_db w') = ld_hosts (lw_db w) \<and>
       (lw_dns w' = lw_dns w \<or> (\<exists>s. lw_dns w' = lw_dns w @ [s] \<and> lr_Bodies rp = [LText (''badrequest'' @ [nl])])))"
proof -
  have unchanged: ?thesis if "lr_Status rp = 401" "lw_db w' = lw_db w" "lw_dns w' = lw_dns w" using that by simp
  show ?thesis
  proof (cases "rq_BasicAuth rq")
    case None
    with run show ?thesis by (intro unchanged) (auto simp: legacy_serve_def legacy_update_def legacy_reply_of_def)
  next
    case (Some up)
    obtain u p where up: "up = (u, p)" by fastforce
    obtain r v where a: "AuthenticateUpdate env u p hostname w = (r, v)" by fastforce
    note v = AuthenticateUpdate_found [OF a]
    show ?thesis
    proof (cases r)
      case None
      with run Some up a v show ?thesis
        by (intro unchanged) (auto simp: legacy_serve_def legacy_update_def legacy_reply_of_def)
    next
      case (Some h)
      have known: "host_known (h\<lparr>lh_Ip := ip, lh_LastUpdate := t\<rparr>) (lw_db w)" for ip t
        using v Some ok by (auto simp: host_known_def)
      have "finish (UpdateIP env rq hostname myip h) v = (rp, w')"
        using run \<open>rq_BasicAuth rq = Some up\<close> up a Some by (simp add: legacy_serve_def legacy_update_def)
      then show ?thesis
      proof (cases rule: UpdateIP_cases)
        case (refused v1 e msg)
        then show ?thesis using v by (simp add: CreateLogEntry_frame legacy_reply_of_def)
      next
        case (unsaved v1 ip t e)
        then show ?thesis using v lsave_host_effect [OF unsaved(4)] known [where ip = ip and t = t] by (simp add: legacy_reply_of_def)
      next
        case (good v1 ip t v2 e)
        obtain a b where m: "matches_login u p a b h" "h \<in> set (tbl_rows (ld_hosts (lw_db w)))" using v Some by blast
        have "lw_dns v2 = lw_dns v1 \<and> lw_db v2 = ld_hosts_update (upd_rows (\<lambda>x. lh_ID x = lh_ID h) (\<lambda>_. h\<lparr>lh_Ip := ip, lh_LastUpdate := t\<rparr>)) (lw_db w)"
          using lsave_host_effect [OF good(4)] known [where ip = ip and t = t] v good(5) by simp
        then have "ld_hosts (lw_db w') = upd_rows (\<lambda>x. lh_ID x = lh_ID h) (\<lambda>_. h\<lparr>lh_Ip := ip, lh_LastUpdate := t\<rparr>) (ld_hosts (lw_db w))"
          "ld_cnames (lw_db w') = ld_cnames (lw_db w)" "lw_dns w' = lw_dns w @ [host_script (lw_handler w) h ip]"
          using good(6,8) v by (simp_all add: CreateLogEntry_frame)
        then show ?thesis using good(1-3) m \<open>rq_BasicAuth rq = Some up\<close> up by (auto simp: legacy_reply_of_def)
      qed
    qed
  qed
qed

text \<open>C36. An update of the legacy server is answered 200 only to a login that matches a stored host whose
  full name is the one asked for; it then sends one script for that name with the address, and
  changes nothing in the hosts but the address and the time of that host. Any other answer
  leaves the hosts as they are, and sends a script only when the address could not be saved.\<close>

theorem legacy_update_effect:
  assumes ok: "legacy_ok (lw_db w)" and run: "legacy_serve env rq (LUpdate hostname myip) w = (rp, w')"
  shows "ld_cnames (lw_db w') = ld_cnames (lw_db w) \<and>
    (if lr_Status rp = 200
     then \<exists>h u p a b ip t. rq_BasicAuth rq = Some (u, p) \<and> h \<in> set (tbl_rows (ld_hosts (lw_db w))) \<and> matches_login u p a b h \<and>
       hostname = lh_Hostname h @ ''.'' @ lh_Domain h \<and> update_address rq myip = Some ip \<and>
       ld_hosts (lw_db w') = upd_rows (\<lambda>x. lh_ID x = lh_ID h) (\<lambda>_. h\<lparr>lh_Ip := ip, lh_LastUpdate := t\<rparr>) (ld_hosts (lw_db w)) \<and>
       lw_dns w' = lw_dns w @ [host_script (lw_handler w) h ip]
     else lr_Status rp \<in> {400, 401} \<and> ld_hosts (lw_db w') = ld_hosts (lw_db w) \<and>
       (lw_dns w' = lw_dns w \<or> (\<exists>s. lw_dns w' = lw_dns w @ [s] \<and> lr_Bodies rp = [LText (''badrequest'' @ [nl])])))"
  using assms by (rule legacy_update_run)

section \<open>An update without a login\<close>

lemma AuthenticateUpdate_empty:
  assumes ok: "legacy_ok (lw_db w)" and nf: "no_faults (le_env env)" and h: "h \<in> set (tbl_rows (ld_hosts (lw_db w)))"
    and name: "CHR ''.'' \<notin> set (lh_Hostname h)" "lh_Hostname h \<noteq> []" "lh_Domain h \<noteq> []"
  shows "\<exists>v. AuthenticateUpdate env [] [] (lh_Hostname h @ ''.'' @ lh_Domain h) w = (Some h, v)"
proof -
  have inj: "inj_on (\<lambda>h. (lh_Hostname h, lh_Domain h)) (set (tbl_rows (ld_hosts (lw_db w))))" "lh_ID h \<noteq> 0"
    using ok h by (auto simp: legacy_ok_def distinct_map wf_table_def)
  have "find (matches_login [] [] (lh_Hostname h) (lh_Domain h)) (tbl_rows (ld_hosts (lw_db w))) = Some h"
  proof (rule find_unique [OF h])
    fix y assume y: "y \<in> set (tbl_rows (ld_hosts (lw_db w)))" "matches_login [] [] (lh_Hostname h) (lh_Domain h) y"
    then have "(lh_Hostname y, lh_Domain y) = (lh_Hostname h, lh_Domain h)" using name by (simp add: matches_login_def where_nonzero_def)
    with inj_onD [OF inj(1) _ y(1) h] show "y = h" by simp
  qed (simp add: matches_login_def where_nonzero_def)
  then show ?thesis
    using nf inj(2) SplitN2_sep [OF name(1), of "lh_Domain h"] by (simp add: AuthenticateUpdate_def lfirst_host_def lstmt_def lfault_def)
qed

lemma UpdateIP_succeeds:
  assumes nf: "no_faults (le_env env)" and dns: "\<forall>n s. nsupdate_error (le_env env) n s = None"
    and known: "h \<in> set (tbl_rows (ld_hosts (lw_db w)))" "legacy_ok (lw_db w)"
    and name: "hostname = lh_Hostname h @ ''.'' @ lh_Domain h" and ip: "update_address rq myip = Some ip"
  shows "\<exists>w'. finish (UpdateIP env rq hostname myip h) w = (legacy_reply_of 200 (LText (''good'' @ [nl])), w')"
proof -
  obtain x where x: "update_sender rq = Some x" "ip = (if GetIPType myip = [] then x else myip)" "GetIPType ip \<noteq> []"
    using ip by (auto simp: update_address_def Let_def split: option.splits if_splits)
  have inj: "inj_on lh_UserName (set (tbl_rows (ld_hosts (lw_db w))))" using known(2) by (simp add: legacy_ok_def distinct_map)
  have "lh_ID y = lh_ID h" if "y \<in> set (tbl_rows (ld_hosts (lw_db w)))" "lh_UserName y = lh_UserName h" for y
    using inj_onD [OF inj that(2) that(1) known(1)] by simp
  then have save: "\<exists>v'. lsave_host env (h\<lparr>lh_Ip := ip, lh_LastUpdate := t\<rparr>) v = (Inr (), v')" if "lw_db v = lw_db w" for t v
    using that nf by (auto simp: lsave_host_def lstmt_def lfault_def list_ex_iff)
  let ?t = "clock (le_env env) (lw_ticks w)"
  let ?v = "(ltick (ltick w))\<lparr>lw_dns := lw_dns w @ [host_script (lw_handler w) h ip]\<rparr>"
  have "UpdateRecord env (lh_Hostname h) ip (GetIPType ip) (lh_Domain h) (lh_Ttl h) (lg_AllowWildcard (lw_handler w)) (ltick w) = (Inr (), ?v)"
    using dns by (simp add: UpdateRecord_def legacy_nsupdate_def host_script_def)
  moreover obtain v' where "lsave_host env (h\<lparr>lh_Ip := ip, lh_LastUpdate := ?t\<rparr>) ?v = (Inr (), v')" using save [of ?v ?t] by auto
  ultimately show ?thesis
    using x name
    by (auto simp: UpdateIP_def bindE_def lnow_def log_quietly_def with_handler_def finish_def Let_def simp flip: update_sender_def)
qed

text \<open>C38. The login of the legacy update route can be left out: gorm ignores the empty user name and
  password in the condition, so a request with empty credentials that knows the name of a host
  is answered good, and the address of that host becomes the one it sends.\<close>

theorem legacy_update_needs_no_login:
  assumes ok: "legacy_ok (lw_db w)" and nf: "no_faults (le_env env)" and dns: "\<forall>n s. nsupdate_error (le_env env) n s = None"
    and h: "h \<in> set (tbl_rows (ld_hosts (lw_db w)))"
    and name: "CHR ''.'' \<notin> set (lh_Hostname h)" "lh_Hostname h \<noteq> []" "lh_Domain h \<noteq> []"
    and rq: "rq_BasicAuth rq = Some ([], [])" "update_address rq myip = Some ip"
  shows "\<exists>w'. legacy_serve env rq (LUpdate (lh_Hostname h @ ''.'' @ lh_Domain h) myip) w =
      (legacy_reply_of 200 (LText (''good'' @ [nl])), w') \<and>
    (\<exists>x \<in> set (tbl_rows (ld_hosts (lw_db w'))). lh_ID x = lh_ID h \<and> lh_Ip x = ip)"
proof -
  obtain v where a: "AuthenticateUpdate env [] [] (lh_Hostname h @ ''.'' @ lh_Domain h) w = (Some h, v)"
    using AuthenticateUpdate_empty [OF ok nf h name] by blast
  then have v: "lw_db v = lw_db w" using AuthenticateUpdate_found by blast
  obtain w' where u: "finish (UpdateIP env rq (lh_Hostname h @ ''.'' @ lh_Domain h) myip h) v = (legacy_reply_of 200 (LText (''good'' @ [nl])), w')"
    using UpdateIP_succeeds [OF nf dns _ _ refl rq(2), of h v] h ok v by auto
  then have run: "legacy_serve env rq (LUpdate (lh_Hostname h @ ''.'' @ lh_Domain h) myip) w = (legacy_reply_of 200 (LText (''good'' @ [nl])), w')"
    using a rq(1) by (simp add: legacy_serve_def legacy_update_def)
  have "\<exists>x \<in> set (tbl_rows (ld_hosts (lw_db w'))). lh_ID x = lh_ID h \<and> lh_Ip x = ip"
    using u
  proof (cases rule: UpdateIP_cases)
    case (good v1 ip' t v2 e)
    have "host_known (h\<lparr>lh_Ip := ip', lh_LastUpdate := t\<rparr>) (lw_db v1)" using good(5) v h ok by (auto simp: host_known_def)
    then have "ld_hosts (lw_db w') = upd_rows (\<lambda>x. lh_ID x = lh_ID h) (\<lambda>_. h\<lparr>lh_Ip := ip', lh_LastUpdate := t\<rparr>) (ld_hosts (lw_db w))"
      using lsave_host_effect [OF good(4)] good(5,8) v by (simp add: CreateLogEntry_frame)
    then have "h\<lparr>lh_Ip := ip', lh_LastUpdate := t\<rparr> \<in> set (tbl_rows (ld_hosts (lw_db w')))" using h by (simp add: image_iff) blast
    moreover have "ip' = ip" using good(2) rq(2) by simp
    ultimately show ?thesis by (intro bexI [of _ "h\<lparr>lh_Ip := ip', lh_LastUpdate := t\<rparr>"]) simp_all
  qed (simp_all add: legacy_reply_of_def)
  with run show ?thesis by blast
qed

section \<open>A deletion that fails half-way\<close>

lemma Atoi_dec_string: "n < 2 ^ 63 \<Longrightarrow> Atoi (dec_string n) = Some (int n)"
proof -
  assume n: "n < 2 ^ 63"
  note f = dec_string_facts [of n]
  obtain c cs where c: "dec_string n = c # cs" using f by (cases "dec_string n") auto
  have "is_digit c" using f c by simp
  then have "c \<noteq> CHR ''-''" "c \<noteq> CHR ''+''" by (auto simp: is_digit_def)
  with f c n show ?thesis by (simp add: Atoi_def)
qed

text \<open>C39. The deletion of a host is not all-or-nothing: when one of its three statements fails, the function
  has already answered and returns no error, so the transaction commits what was done before; the
  client sees 400 and the DNS record is removed in every case. If the host itself could not be
  deleted, it stays without its record; otherwise it is gone, though the reply says it failed.\<close>

theorem legacy_delete_commits_partly:
  assumes ok: "legacy_ok (lw_db w)" and admin: "lg_AuthAdmin (lw_handler w)"
    and h: "h \<in> set (tbl_rows (ld_hosts (lw_db w)))" "lh_ID h < 2 ^ 63"
    and k: "k \<in> {2, 3, 4}" "\<And>n. stmt_fault (le_env env) n \<longleftrightarrow> n = lw_ticks w + k"
    and dns: "\<And>n s. nsupdate_error (le_env env) n s = None"
  shows "\<exists>w'. finish (DeleteHost env (dec_string (lh_ID h))) w =
      (\<lparr>lr_Status = 400, lr_Bodies = [LDatabaseError, LId (int (lh_ID h))]\<rparr>, w') \<and>
    (h \<in> set (tbl_rows (ld_hosts (lw_db w'))) \<longleftrightarrow> k = 2) \<and>
    lw_dns w' = lw_dns w @ [legacy_delete_script (lh_Hostname h) (lh_Domain h) (lg_AllowWildcard (lw_handler w))]"
proof -
  have wf: "wf_table lh_ID (ld_hosts (lw_db w))" using ok by (simp add: legacy_ok_def)
  have found: "find (\<lambda>x. lh_ID x = lh_ID h) (tbl_rows (ld_hosts (lw_db w))) = Some h"
    using lhost_rows.row_tmap [OF wf h(1)] by (simp add: tmap_def)
  let ?w1 = "ltick w" and ?script = "legacy_delete_script (lh_Hostname h) (lh_Domain h) (lg_AllowWildcard (lw_handler w))"
  have read: "host_by_id env (int (lh_ID h)) w = (Inr h, ?w1)"
    using k by (auto simp: host_by_id_def lfirst_host_def lstmt_def lfault_def found)
  note parts = delete_host_row_def delete_host_logs_def delete_host_cnames_def lstmt_def lfault_def k(2)
  have "\<exists>v. delete_transaction env [delete_host_row env h, delete_host_logs env h, delete_host_cnames env h] ?w1 =
      ((Some LDatabaseError, None), v) \<and> (h \<in> set (tbl_rows (ld_hosts (lw_db v))) \<longleftrightarrow> k = 2) \<and> lw_dns v = lw_dns w"
    using k(1) h(1) by (elim insertE emptyE) (simp_all add: delete_transaction_def parts)
  then obtain v where v: "delete_transaction env [delete_host_row env h, delete_host_logs env h, delete_host_cnames env h] ?w1 =
      ((Some LDatabaseError, None), v)" "h \<in> set (tbl_rows (ld_hosts (lw_db v))) \<longleftrightarrow> k = 2" "lw_dns v = lw_dns w" by blast
  have "LegacyDeleteRecord env (lh_Hostname h) (lh_Domain h) (lg_AllowWildcard (lw_handler w)) v = (Inr (), (ltick v)\<lparr>lw_dns := lw_dns w @ [?script]\<rparr>)"
    using dns v(3) by (simp add: LegacyDeleteRecord_def legacy_nsupdate_def)
  with v(1) have "delete_and_reply env [delete_host_row env h, delete_host_logs env h, delete_host_cnames env h]
      (LegacyDeleteRecord env (lh_Hostname h) (lh_Domain h) (lg_AllowWildcard (lw_handler w))) (int (lh_ID h)) ?w1 =
      (Inr \<lparr>lr_Status = 400, lr_Bodies = [LDatabaseError, LId (int (lh_ID h))]\<rparr>, (ltick v)\<lparr>lw_dns := lw_dns w @ [?script]\<rparr>)"
    by (simp add: delete_and_reply_def)
  then have "finish (DeleteHost env (dec_string (lh_ID h))) w =
      (\<lparr>lr_Status = 400, lr_Bodies = [LDatabaseError, LId (int (lh_ID h))]\<rparr>, (ltick v)\<lparr>lw_dns := lw_dns w @ [?script]\<rparr>)"
    using admin read by (simp add: DeleteHost_def admin_only_def id_param_def Atoi_dec_string [OF h(2)] bindE_def or400_def with_handler_def finish_def)
  with v(2) show ?thesis by simp
qed

section \<open>The private ranges\<close>

text \<open>C40. \<open>isPrivateSubnet\<close> is the union of the private, the shared and two special ranges without the last
  address of each of them: the ends of the ranges are tested with a strict comparison.\<close>

theorem legacy_private_ranges:
  "isPrivateSubnet (V4 a) \<longleftrightarrow>
     (IsPrivate a \<or> isCGNAT a \<or> Contains (v4_of 192 0 0 0) 24 a \<or> Contains (v4_of 198 18 0 0) 15 a) \<and>
     a \<notin> {v4_of 10 255 255 255, v4_of 172 31 255 255, v4_of 192 168 255 255, v4_of 100 127 255 255,
          v4_of 192 0 0 255, v4_of 198 19 255 255}"
proof -
  have eq: "a = b \<longleftrightarrow> unat a = unat b" for b by (simp add: word_unat_eq_iff)
  have P: "isPrivateSubnet (V4 a) \<longleftrightarrow>
     167772160 \<le> unat a \<and> unat a < 184549375 \<or> 1681915904 \<le> unat a \<and> unat a < 1686110207 \<or>
     2886729728 \<le> unat a \<and> unat a < 2887778303 \<or> 3221225472 \<le> unat a \<and> unat a < 3221225727 \<or>
     3232235520 \<le> unat a \<and> unat a < 3232301055 \<or> 3323068416 \<le> unat a \<and> unat a < 3323199487"
    by (simp add: isPrivateSubnet_def privateRanges_def inRange_def word_le_nat_alt word_less_nat_alt unat_v4_of dotted_def)
  have R: "IsPrivate a \<or> isCGNAT a \<or> Contains (v4_of 192 0 0 0) 24 a \<or> Contains (v4_of 198 18 0 0) 15 a \<longleftrightarrow>
     167772160 \<le> unat a \<and> unat a \<le> 184549375 \<or> 1681915904 \<le> unat a \<and> unat a \<le> 1686110207 \<or>
     2886729728 \<le> unat a \<and> unat a \<le> 2887778303 \<or> 3221225472 \<le> unat a \<and> unat a \<le> 3221225727 \<or>
     3232235520 \<le> unat a \<and> unat a \<le> 3232301055 \<or> 3323068416 \<le> unat a \<and> unat a \<le> 3323199487"
  proof -
    have lt: "n < 3221225728 \<longleftrightarrow> n \<le> 3221225727" "n < 3323199488 \<longleftrightarrow> n \<le> 3323199487" for n :: nat by auto
    show ?thesis unfolding code_ranges contains_ranges(3,5) between_def lt by blast
  qed
  have E: "a \<in> {v4_of 10 255 255 255, v4_of 172 31 255 255, v4_of 192 168 255 255, v4_of 100 127 255 255,
      v4_of 192 0 0 255, v4_of 198 19 255 255} \<longleftrightarrow>
    unat a \<in> {184549375, 2887778303, 3232301055, 1686110207, 3221225727, 3323199487}"
    unfolding insert_iff empty_iff eq by (simp add: unat_v4_of dotted_def)
  show ?thesis
  proof (cases "unat a \<in> {184549375, 2887778303, 3232301055, 1686110207, 3221225727, 3323199487}")
    case True
    then have "\<not> isPrivateSubnet (V4 a)" unfolding P insert_iff empty_iff by (elim disjE) simp_all
    with True E show ?thesis by blast
  next
    case False
    then have le: "unat a \<le> 184549375 \<longleftrightarrow> unat a < 184549375" "unat a \<le> 1686110207 \<longleftrightarrow> unat a < 1686110207"
      "unat a \<le> 2887778303 \<longleftrightarrow> unat a < 2887778303" "unat a \<le> 3221225727 \<longleftrightarrow> unat a < 3221225727"
      "unat a \<le> 3232301055 \<longleftrightarrow> unat a < 3232301055" "unat a \<le> 3323199487 \<longleftrightarrow> unat a < 3323199487"
      by (simp_all add: order.order_iff_strict)
    from False P E R show ?thesis unfolding le by blast
  qed
qed

text \<open>The check of \<open>DDNS_DOMAINS\<close> in \<open>ParseEnvs\<close> can never fail: \<open>strings.Split\<close> returns at least one piece.\<close>

lemma Split_not_empty: "Split sep s \<noteq> []"
  by (induction sep s rule: Split.induct) (auto split: list.splits)

lemma ParseEnvs_never_fails: "fst (ParseEnvs env lookup h w) = Inr (Getenv lookup ''DDNS_ADMIN_LOGIN'' \<noteq> [])"
  using Split_not_empty [of "CHR '',''" "Getenv lookup ''DDNS_DOMAINS''"]
  by (auto simp: ParseEnvs_def Let_def split: option.split)

section \<open>Instances\<close>

definition demo_legacy_env :: legacy_env where
  "demo_legacy_env = \<lparr>le_env = demo_env, le_valid_host = \<lambda>_. True, le_valid_cname = \<lambda>_ _. True,
     le_htpasswd = \<lambda>file user password. Some False, le_date = \<lambda>t. (0, 0, t div 86400000000000),
     le_older = \<lambda>days now created. created < now - int days * 86400000000000, le_raw_sql = \<lambda>_. None\<rparr>"

definition demo_legacy_host :: legacy_host where
  "demo_legacy_host = \<lparr>lh_ID = 1, lh_Hostname = ''nas'', lh_Domain = ''example.org'', lh_Ip = ''192.0.2.1'', lh_Ttl = 60,
     lh_LastUpdate = 0, lh_UserName = ''alice'', lh_Password = ''correct horse''\<rparr>"

definition demo_legacy_handler :: legacy_handler where
  "demo_legacy_handler = \<lparr>lg_AuthAdmin = True, lg_AdminLogin = [], lg_Domains = [''example.org''], lg_Title = [],
     lg_DisableAdminAuth = True, lg_LastClearedLogs = None, lg_ClearInterval = 0, lg_AllowWildcard = False, lg_LogoutUrl = []\<rparr>"

definition demo_legacy_world :: legacy_world where
  "demo_legacy_world = (legacy_start demo_legacy_handler)\<lparr>lw_db := \<lparr>ld_hosts = \<lparr>tbl_rows = [demo_legacy_host], tbl_seq = 1\<rparr>,
     ld_cnames = empty_table, ld_logs = empty_table\<rparr>\<rparr>"

lemma demo_legacy_ok: "legacy_ok (lw_db demo_legacy_world)"
  by (simp add: legacy_ok_def demo_legacy_world_def wf_table_def demo_legacy_host_def) (simp add: empty_table_def)

definition demo_legacy_request :: http_request where
  "demo_legacy_request = \<lparr>rq_BasicAuth = Some ([], []), rq_Authorization = [], rq_XRealIP = [], rq_XForwardedFor = [],
     rq_RemoteAddr = ''198.51.100.7:4711'', rq_UserAgent = ''curl/8.0 libcurl''\<rparr>"

definition demo_address :: string where
  "demo_address = v4_string (v4_of 198 51 100 7)"

lemma demo_update_address: "update_address demo_legacy_request demo_address = Some demo_address"
proof -
  have "GetIPType demo_address = ''A''" by (simp add: GetIPType_def ValidIP4_def demo_address_def ParseIP_v4_string)
  moreover have "GetCallerIP demo_legacy_request = None"
    by (simp add: GetCallerIP_def demo_legacy_request_def usable_address_def ParseIP_def ParseAddr_def)
  moreover have "map_option fst (SplitHostPort (rq_RemoteAddr demo_legacy_request)) = Some ''198.51.100.7''"
    unfolding demo_legacy_request_def by code_simp
  ultimately show ?thesis unfolding update_address_def update_sender_def by auto
qed


theorem legacy_update_effect_witness:
  "ld_cnames (lw_db (snd (legacy_serve demo_legacy_env demo_legacy_request (LUpdate ''nas.example.org'' demo_address) demo_legacy_world))) =
    ld_cnames (lw_db demo_legacy_world)"
proof -
  obtain rp w' where run: "legacy_serve demo_legacy_env demo_legacy_request (LUpdate ''nas.example.org'' demo_address) demo_legacy_world = (rp, w')"
    by fastforce
  from legacy_update_effect [OF demo_legacy_ok run] run show ?thesis by simp
qed

theorem legacy_update_needs_no_login_witness:
  "fst (legacy_serve demo_legacy_env demo_legacy_request (LUpdate ''nas.example.org'' demo_address) demo_legacy_world) =
    legacy_reply_of 200 (LText (''good'' @ [nl]))"
proof -
  have mem: "demo_legacy_host \<in> set (tbl_rows (ld_hosts (lw_db demo_legacy_world)))" by (simp add: demo_legacy_world_def)
  have env: "no_faults (le_env demo_legacy_env)" "\<forall>n s. nsupdate_error (le_env demo_legacy_env) n s = None"
    by (simp_all add: demo_legacy_env_def demo_no_faults) (simp add: demo_env_def)
  have name: "CHR ''.'' \<notin> set (lh_Hostname demo_legacy_host)" "lh_Hostname demo_legacy_host \<noteq> []" "lh_Domain demo_legacy_host \<noteq> []"
      "lh_Hostname demo_legacy_host @ ''.'' @ lh_Domain demo_legacy_host = ''nas.example.org''"
    by (simp_all add: demo_legacy_host_def)
  have basic: "rq_BasicAuth demo_legacy_request = Some ([], [])" by (simp add: demo_legacy_request_def)
  from legacy_update_needs_no_login [OF demo_legacy_ok env mem name(1-3) basic demo_update_address]
  show ?thesis unfolding name(4) by auto
qed

text \<open>One failing statement: the marking of the logs.\<close>

definition demo_failing_env :: legacy_env where
  "demo_failing_env = demo_legacy_env\<lparr>le_env := demo_env\<lparr>stmt_fault := \<lambda>n. n = 3\<rparr>\<rparr>"

theorem legacy_delete_commits_partly_witness:
  "\<exists>w'. finish (DeleteHost demo_failing_env (dec_string 1)) demo_legacy_world =
      (\<lparr>lr_Status = 400, lr_Bodies = [LDatabaseError, LId 1]\<rparr>, w') \<and> demo_legacy_host \<notin> set (tbl_rows (ld_hosts (lw_db w')))"
proof -
  have mem: "demo_legacy_host \<in> set (tbl_rows (ld_hosts (lw_db demo_legacy_world)))" by (simp add: demo_legacy_world_def)
  have id: "lh_ID demo_legacy_host < 2 ^ 63" "lh_ID demo_legacy_host = 1" by (simp_all add: demo_legacy_host_def)
  have admin: "lg_AuthAdmin (lw_handler demo_legacy_world)"
    by (simp add: demo_legacy_world_def legacy_start_def demo_legacy_handler_def)
  have faults: "stmt_fault (le_env demo_failing_env) n \<longleftrightarrow> n = lw_ticks demo_legacy_world + 3" for n
    by (simp add: demo_failing_env_def demo_legacy_world_def legacy_start_def)
  have dns: "nsupdate_error (le_env demo_failing_env) n s = None" for n s
    by (simp add: demo_failing_env_def demo_env_def)
  have "(3 :: nat) \<in> {2, 3, 4}" by simp
  from legacy_delete_commits_partly [OF demo_legacy_ok admin mem id(1) this faults dns] show ?thesis by (simp add: id(2)) blast
qed

end
