(* ===== verification/Hermes_Legacy_Main.thy ===== *)
theory Hermes_Legacy_Main
  imports Hermes_Main Hermes_Legacy_Properties
begin

text \<open>
  The start of the legacy server: \<open>InitDB\<close> of \<open>handler/handler.go\<close> and \<open>main\<close> up to the routes. Whether
  the directory of the database is missing is what \<open>os.Stat\<close> reports.
\<close>

section \<open>The start of the legacy server\<close>

definition InitDB :: "bool \<Rightarrow> legacy_db storage \<Rightarrow> string + legacy_db" where
  "InitDB missing st =
     (case (if missing then st_MkdirAll st ''database'' else None) of
        Some e \<Rightarrow> Inl e
      | None \<Rightarrow> (case st_Open st ''database/ddns.db'' of Inl e \<Rightarrow> Inl e | Inr db \<Rightarrow> st_AutoMigrate st db))"

definition zero_handler :: legacy_handler where
  "zero_handler = \<lparr>lg_AuthAdmin = False, lg_AdminLogin = [], lg_Domains = [], lg_Title = [], lg_DisableAdminAuth = False,
     lg_LastClearedLogs = None, lg_ClearInterval = 0, lg_AllowWildcard = False, lg_LogoutUrl = []\<rparr>"

text \<open>The error \<open>main\<close> stops with, or whether the administration asks for a login.\<close>

definition legacy_main ::
  "legacy_env \<Rightarrow> bool \<Rightarrow> legacy_db storage \<Rightarrow> (string \<Rightarrow> string option) \<Rightarrow> legacy_world \<Rightarrow> (string + bool) \<times> legacy_world" where
  "legacy_main env missing st lookup w =
     (case InitDB missing st of
        Inl e \<Rightarrow> (Inl e, w)
      | Inr db \<Rightarrow> ParseEnvs env lookup zero_handler (w\<lparr>lw_db := db\<rparr>))"

lemma ParseEnvs_keeps:
  assumes "ParseEnvs env lookup h w = (r, w')"
  shows "lw_db w' = lw_db w \<and> lg_AuthAdmin (lw_handler w') = (Getenv lookup ''DDNS_ADMIN_LOGIN'' = [] \<or> lg_AuthAdmin h)"
proof -
  let ?interval = "ParseUint32 (Getenv lookup ''DDNS_CLEAR_LOG_INTERVAL'')"
  let ?wild = "lookup ''DDNS_ALLOW_WILDCARD''" and ?url = "lookup ''DDNS_LOGOUT_URL''"
  consider "?interval = None" | a where "?interval = Some a" "a > 0" | "?interval = Some 0" by (cases ?interval) auto
  then show ?thesis
    using assms by cases (cases ?wild; cases ?url; simp add: ParseEnvs_def Let_def; force)+
qed

text \<open>
  A start fails only in \<open>InitDB\<close>; afterwards the administration is open to everybody exactly when
  no login is configured, and a stored database that was consistent stays so in every state the
  server reaches.
\<close>

lemma legacy_main_starts:
  assumes "migration_keeps_rows st" "\<And>db. st_Open st ''database/ddns.db'' = Inr db \<Longrightarrow> legacy_ok db"
    and run: "legacy_main env missing st lookup w = (Inr auth, w')"
  shows "auth \<longleftrightarrow> Getenv lookup ''DDNS_ADMIN_LOGIN'' \<noteq> []" "lg_AuthAdmin (lw_handler w') \<longleftrightarrow> \<not> auth"
    "(legacy_step env)\<^sup>*\<^sup>* w' w'' \<Longrightarrow> legacy_ok (lw_db w'')"
proof -
  obtain db where db: "InitDB missing st = Inr db" "ParseEnvs env lookup zero_handler (w\<lparr>lw_db := db\<rparr>) = (Inr auth, w')"
    using run by (auto simp: legacy_main_def split: sum.splits)
  have "legacy_ok db"
    using db(1) assms(1,2) by (auto simp: InitDB_def migration_keeps_rows_def split: option.splits sum.splits if_splits)
  then have ok: "legacy_ok (lw_db w')" using ParseEnvs_keeps [OF db(2)] by simp
  show auth: "auth \<longleftrightarrow> Getenv lookup ''DDNS_ADMIN_LOGIN'' \<noteq> []"
    using db(2) ParseEnvs_never_fails [of env lookup zero_handler "w\<lparr>lw_db := db\<rparr>"] by simp
  then show "lg_AuthAdmin (lw_handler w') \<longleftrightarrow> \<not> auth" using ParseEnvs_keeps [OF db(2)] by (simp add: zero_handler_def)
  show "legacy_ok (lw_db w'')" if "(legacy_step env)\<^sup>*\<^sup>* w' w''"
    using legacy_system.inv_steps [OF that] ok by simp
qed

end
