(* ===== verification/Spec2Isabelle.thy ===== *)
theory Spec2Isabelle
  imports Hermes_Isolation Hermes_Progress Hermes_Overlap Hermes_Legacy_Main
begin

text \<open>
  HermesDDNS, a dynamic DNS server for a fleet of devices (\<open>src/products/hermes\<close>).

  \<^bold>\<open>The program.\<close> A device has a name, a DDNS key for classic update clients and an Agent identity.
  An administrator creates devices and domains, issues one-time enrollment tokens and requests
  rotations of DDNS keys. The Agent on a device exchanges a token for its identity, stages and
  validates new DDNS keys, and reports heartbeats and its network context. A DDNS client updates the
  address of a host, which is published with nsupdate. A background task completes rotations whose
  grace period has ended. All of it works on one SQLite database through gorm.

  \<^bold>\<open>The theories\<close>, in the order they build on each other:

  \<^item> \<open>Hermes_Prelude\<close>: Go's string functions, and computations that return a value or an error and
    thread a world (\<open>bindE\<close>, \<open>failIf\<close>, \<open>orFail\<close>, \<open>errTo\<close>, \<open>catchE\<close>) with the rules that run them.
  \<^item> \<open>Hermes_Model\<close>: \<open>internal/model/*.go\<close>, one record per struct and one datatype per status; the
    sentinel errors of the services as constructors of one type \<open>err\<close>.
  \<^item> \<open>Hermes_Store\<close>: tables, statements and transactions; tables as maps from primary keys
    (locales \<open>keyed_table\<close> and \<open>db_table\<close>, interpreted on the tables of the program).
  \<^item> \<open>Hermes_Security\<close>: \<open>internal/security/apikey.go\<close>.
  \<^item> \<open>Hermes_Credential\<close>: \<open>internal/credential/service.go\<close>; \<open>Hermes_Lifecycle\<close> is the abstract machine of
    the rotations, \<open>Hermes_Rotation\<close> the simulation and the runs of each operation,
    \<open>Hermes_Rotation_Properties\<close> the properties.
  \<^item> \<open>Hermes_AgentAuth\<close>, \<open>Hermes_Enrollment\<close>, \<open>Hermes_Enrollment_Properties\<close>: \<open>internal/agentauth\<close> and
    \<open>internal/enrollment\<close>.
  \<^item> \<open>Hermes_Telemetry\<close>: \<open>internal/telemetry\<close>. \<open>Hermes_Netip\<close>: what the program uses of net and net/netip.
    \<open>Hermes_NetworkContext\<close>: \<open>internal/networkcontext\<close>.
  \<^item> \<open>Hermes_DNS\<close>, \<open>Hermes_DDNS\<close>: \<open>internal/dns/updater.go\<close> and \<open>internal/ddns/service.go\<close>.
  \<^item> \<open>Hermes_Config\<close>: \<open>internal/config\<close>, \<open>internal/buildinfo\<close>, \<open>EnsureDomains\<close> and the startup of
    \<open>cmd/hermesddns/main.go\<close>.
  \<^item> \<open>Hermes_API\<close>: \<open>internal/api\<close>, every handler, the middleware of the route groups, and \<open>serve\<close>,
    which answers one request.
  \<^item> \<open>Hermes_Frames\<close>, \<open>Hermes_Server\<close>: what each operation leaves alone, and the steps of the whole
    server with the invariant of all components. \<open>Hermes_Access\<close>: requests without a secret.
    \<open>Hermes_Cycle\<close>: a rotation from its request to its end, through the endpoints.
    \<open>Hermes_Progress\<close>: the server as a whole refines the lifecycle, and a rotation changes its status at most
    four times. \<open>Hermes_Isolation\<close>: a request of an Agent leaves the rows of other devices alone.
  \<^item> \<open>Hermes_Steps\<close>, \<open>Hermes_DDNS_Program\<close>: programs that are interrupted between two interactions, with their
    rely-guarantee rules, and the requests in this form, which run alone are their handlers.
    \<open>Hermes_Interleaving\<close>: concurrent requests keep the invariants and the hosts.
    \<open>Hermes_Overlap\<close>: two overlapping updates of one host, and what they can leave behind.
  \<^item> \<open>Hermes_NSUpdate\<close>: the run of nsupdate with its temporary file. \<open>Hermes_Main\<close>: \<open>cmd/hermesddns\<close> from the
    configuration to the listening server, \<open>database.Open\<close>, \<open>api.New\<close>, and \<open>cmd/hermesctl\<close>.
  \<^item> \<open>Hermes_Legacy\<close>, \<open>Hermes_Legacy_Properties\<close>, \<open>Hermes_Legacy_Main\<close>: \<open>legacy/original-source/dyndns\<close>, the
    server that HermesDDNS replaces, with its own database, handler state, routes and start.
  \<^item> \<open>Hermes_Demo\<close>: the concrete environment in which the properties are evaluated.

  \<^bold>\<open>State and effects.\<close> The world is the database, a counter of interactions and the scripts nsupdate has
  accepted. Each statement, \<open>BEGIN\<close>, \<open>COMMIT\<close>, reading of the clock or of the random source takes one
  tick, and the record \<open>env\<close> says per tick what happens: whether the statement fails, what the clock
  shows, which bytes are read, and whether nsupdate fails. Theorems hold for every such
  schedule unless they assume \<open>no_faults\<close>. A statement is the meaning of the \<open>Where\<close>, \<open>Updates\<close>, \<open>Count\<close>
  and \<open>Order\<close> clauses in the source on the list of rows, an error in a transaction restores the
  tables, a unique index refuses a clashing row. In \<open>server_step\<close> one
  request is one step. In \<open>concurrent_step\<close> the requests are interleaved: a DDNS request, which writes in several transactions and
  runs nsupdate between them, and the authentication of an Agent at every statement, reading of the clock and run of
  nsupdate; a log entry (its time and its row), the transaction of \<open>ConfirmCredentialUse\<close>, the handler of an
  authenticated Agent and a request of an administrator stay one interaction.

  \<^bold>\<open>Lemmas.\<close> For each service: an invariant of its tables that every operation keeps under any
  faults, the result of each operation on every branch without faults, and what a
  successful run wrote (\<open>X_success\<close>). The rotation service refines an abstract lifecycle
  (\<open>lc_step\<close>), from which follow the number of open rotations and active credentials of a device.
  For the legacy server: unique names in all reachable states, the effect of an update, and three
  defects (an update without a login, a deletion that commits after a failed statement, private ranges
  without their last address) as theorems about the code as it is.
  For concurrent requests: \<open>safe K p Q\<close> says that every interaction of the program \<open>p\<close> keeps the invariant and the
  hosts whatever others do in between (\<open>rely_guarantee\<close>, interpreted on \<open>keeps_hosts\<close>), when \<open>K\<close> is known at its start.
  The services are composed by frames: \<open>keeps f m\<close> says that the run of \<open>m\<close> does not change the part
  \<open>f\<close> of the database.

  \<^bold>\<open>Parameters.\<close> SHA-256 is a function of \<open>env\<close>; nothing is assumed of it but, where a key is
  issued, the length of its output. \<open>go-htpasswd\<close> and \<open>go-playground/validator\<close> are fields of \<open>server\<close>
  and of \<open>legacy_env\<close>, which also holds the calendar dates of the server's time zone, SQLite's comparison with
  \<open>datetime('now', ...)\<close> and the meaning of a raw SQL condition. The file system, the nsupdate process, gorm's opening and migration
  of a database file and the reply that \<open>hermesctl\<close> receives are parameters of the definitions that use
  them (\<open>platform\<close>, \<open>storage\<close>); of the migration only that it keeps the stored rows is assumed.

  \<^bold>\<open>Bounds.\<close> Durations are 64-bit nanoseconds (\<open>duration_minutes\<close>, \<open>time_sub\<close>, written out with their
  wrap-around and saturation); counters of the telemetry are 64-bit words, IPv4 addresses 32-bit
  words. Points in time and primary keys are unbounded. The loop that parses the groups of an IPv6
  address runs at most 8 times, as in net/netip, and its fuel is 8.

  \<^bold>\<open>Not modelled.\<close> Letters and spaces outside of ASCII in \<open>strings.ToLower\<close> and \<open>strings.TrimSpace\<close>; the
  columns \<open>UpdatedAt\<close> and \<open>DeletedAt\<close>, which no modelled statement reads; HTTP routing, JSON and
  logging (I/O or libraries the source only calls), but for the outcome of each; the interleaving
  within the handlers of Agents and of administrators, whose writes are single transactions or conditional
  updates of single rows; the page templates of the legacy server and the process of its nsupdate.
\<close>

end
